(* ===== verification/Netra_Prelude.thy ===== *)
theory Netra_Prelude
  imports Main "HOL-Library.AList" "HOL-Library.Multiset"
begin

text \<open>
  What every component of the model shares: the collection \<open>netra\<close> of simplification
  facts, Python list slicing and order-preserving deduplication, and insertion-ordered
  dictionaries.

  A Python \<open>dict\<close> is an association list with distinct keys, in insertion order:
  \<open>d.get(k)\<close> is \<open>map_of d k\<close>, \<open>d[k] = v\<close> is \<open>AList.update k v d\<close> (it replaces
  in place, or appends), \<open>d.pop(k, None)\<close> is \<open>AList.delete k d\<close> and
  \<open>list(d.values())\<close> is \<open>map snd d\<close>.
\<close>

named_theorems netra \<open>facts the component proofs simplify with\<close>

subsection \<open>Slices and membership\<close>

text \<open>\<open>xs[:n]\<close> of Python: a negative \<open>n\<close> counts from the end.\<close>

definition py_take :: "int \<Rightarrow> 'a list \<Rightarrow> 'a list" where
  "py_take n xs = (if 0 \<le> n then take (nat n) xs else take (length xs - nat (- n)) xs)"

lemma py_take_of_nat [simp]: "py_take (int n) xs = take n xs"
  by (simp add: py_take_def)

lemma py_take_numeral [simp]: "py_take (numeral n) xs = take (numeral n) xs"
  by (simp add: py_take_def)

lemma py_take_is_take: "\<exists>k. py_take n xs = take k xs"
  by (auto simp: py_take_def)

lemma set_py_take: "set (py_take n xs) \<subseteq> set xs"
  by (auto simp: py_take_def dest: in_set_takeD)

lemma length_py_take_le: "0 \<le> n \<Longrightarrow> int (length (py_take n xs)) \<le> n"
  by (simp add: py_take_def)

lemma py_take_all: "int (length xs) \<le> n \<Longrightarrow> py_take n xs = xs"
  by (simp add: py_take_def)

lemma distinct_py_take: "distinct xs \<Longrightarrow> distinct (py_take n xs)"
  by (simp add: py_take_def)

subsection \<open>\<open>list(dict.fromkeys(xs))\<close>: keep first occurrences\<close>

primrec dedup_onto :: "'a list \<Rightarrow> 'a list \<Rightarrow> 'a list" where
  "dedup_onto seen [] = seen"
| "dedup_onto seen (x # xs) = dedup_onto (if x \<in> set seen then seen else seen @ [x]) xs"

definition dedup :: "'a list \<Rightarrow> 'a list" where
  "dedup xs = dedup_onto [] xs"

lemma set_dedup_onto: "set (dedup_onto seen xs) = set seen \<union> set xs"
  by (induction xs arbitrary: seen) auto

lemma distinct_dedup_onto: "distinct seen \<Longrightarrow> distinct (dedup_onto seen xs)"
  by (induction xs arbitrary: seen) auto

lemma set_dedup [simp]: "set (dedup xs) = set xs"
  by (simp add: dedup_def set_dedup_onto)

lemma distinct_dedup [simp]: "distinct (dedup xs)"
  by (simp add: dedup_def distinct_dedup_onto)

lemma dedup_Nil [simp]: "dedup [] = []"
  by (simp add: dedup_def)

lemma dedup_onto_distinct:
  "distinct xs \<Longrightarrow> set seen \<inter> set xs = {} \<Longrightarrow> dedup_onto seen xs = seen @ xs"
  by (induction xs arbitrary: seen) auto

lemma dedup_distinct: "distinct xs \<Longrightarrow> dedup xs = xs"
  by (simp add: dedup_def dedup_onto_distinct)

lemma dedup_onto_prefix: "\<exists>ys. dedup_onto seen xs = seen @ ys"
proof (induction xs arbitrary: seen)
  case (Cons x xs)
  show ?case
  proof (cases "x \<in> set seen")
    case True
    then show ?thesis using Cons.IH [of seen] by simp
  next
    case False
    then show ?thesis using Cons.IH [of "seen @ [x]"] by auto
  qed
qed simp

lemma dedup_onto_append: "dedup_onto seen (xs @ ys) = dedup_onto (dedup_onto seen xs) ys"
  by (induction xs arbitrary: seen) auto

subsection \<open>Insertion-ordered dictionaries\<close>

text \<open>A dict comprehension \<open>{k: v for k, v in ps}\<close>: later pairs win, first position kept.\<close>

definition dict_of :: "('k \<times> 'v) list \<Rightarrow> ('k \<times> 'v) list" where
  "dict_of ps = foldl (\<lambda>d (k, v). AList.update k v d) [] ps"

definition dict_ok :: "('k \<times> 'v) list \<Rightarrow> bool" where
  "dict_ok d \<longleftrightarrow> distinct (map fst d)"

lemma dict_ok_Nil [simp]: "dict_ok []"
  by (simp add: dict_ok_def)

lemma dict_ok_update [simp]: "dict_ok d \<Longrightarrow> dict_ok (AList.update k v d)"
  by (simp add: dict_ok_def distinct_update)

lemma dict_ok_delete [simp]: "dict_ok d \<Longrightarrow> dict_ok (AList.delete k d)"
  by (simp add: dict_ok_def distinct_delete)

lemma map_of_update [simp]:
  "map_of (AList.update k v d) k' = (if k' = k then Some v else map_of d k')"
  by (simp add: update_conv')

lemma map_of_delete [simp]:
  "map_of (AList.delete k d) k' = (if k' = k then None else map_of d k')"
  by (simp add: delete_conv')

lemma dict_ok_foldl_update:
  "dict_ok d \<Longrightarrow> dict_ok (foldl (\<lambda>d (k, v). AList.update k v d) d ps)"
  by (induction ps arbitrary: d) auto

lemma dict_ok_dict_of [simp]: "dict_ok (dict_of ps)"
  by (simp add: dict_of_def dict_ok_foldl_update)

lemma map_of_foldl_update:
  "map_of (foldl (\<lambda>d (k, v). AList.update k v d) d ps) k =
     (case map_of (rev ps) k of None \<Rightarrow> map_of d k | Some v \<Rightarrow> Some v)"
  by (induction ps arbitrary: d) (auto simp: map_of_append split: option.splits)

lemma map_of_dict_of: "map_of (dict_of ps) k = map_of (rev ps) k"
  by (simp add: dict_of_def map_of_foldl_update split: option.splits)

lemma update_new: "k \<notin> fst ` set d \<Longrightarrow> AList.update k v d = d @ [(k, v)]"
  by (induction d) auto

lemma foldl_update_distinct:
  "distinct (map fst (d @ ps)) \<Longrightarrow> foldl (\<lambda>d (k, v). AList.update k v d) d ps = d @ ps"
proof (induction ps arbitrary: d)
  case (Cons p ps)
  obtain k v where p: "p = (k, v)" by (cases p)
  with Cons.prems have "k \<notin> fst ` set d" by auto
  then have "AList.update k v d = d @ [p]" using p by (simp add: update_new)
  with Cons.IH [of "d @ [p]"] Cons.prems p show ?case by simp
qed simp

lemma dict_of_id: "dict_ok d \<Longrightarrow> dict_of d = d"
  by (simp add: dict_of_def dict_ok_def foldl_update_distinct)

lemma length_update_le: "length (AList.update k v d) \<le> Suc (length d)"
  by (induction d) auto

lemma length_update_known: "k \<in> fst ` set d \<Longrightarrow> length (AList.update k v d) = length d"
  by (induction d) auto

lemma set_snd_update: "v' \<in> snd ` set (AList.update k v d) \<Longrightarrow> v' = v \<or> v' \<in> snd ` set d"
  by (induction d) (auto split: if_splits)

lemma set_update_subset: "set (AList.update k v d) \<subseteq> insert (k, v) (set d)"
  by (induction d) auto

lemma keys_update: "fst ` set (AList.update k v d) = insert k (fst ` set d)"
  by (induction d) auto

lemma set_delete_subset: "set (AList.delete k d) \<subseteq> set d"
  by (auto simp: AList.delete_eq)

lemma map_of_in_snd: "map_of d k = Some v \<Longrightarrow> v \<in> snd ` set d"
  by (force dest: map_of_SomeD)

lemma map_of_eq_None_fst: "map_of d k = None \<longleftrightarrow> k \<notin> fst ` set d"
  by (rule map_of_eq_None_iff)

subsection \<open>Optional strings\<close>

text \<open>\<open>if s:\<close> for \<open>s: str | None\<close>; \<open>a or b\<close> for an optional string \<open>a\<close>.\<close>

definition given :: "string option \<Rightarrow> bool" where
  "given s \<longleftrightarrow> s \<noteq> None \<and> s \<noteq> Some []"

definition or_else :: "string option \<Rightarrow> string \<Rightarrow> string" where
  "or_else s d = (case s of None \<Rightarrow> d | Some x \<Rightarrow> if x = [] then d else x)"

lemma given_simps [simp]: "\<not> given None" "given (Some x) \<longleftrightarrow> x \<noteq> []"
  by (auto simp: given_def)

lemma given_E: "given s \<Longrightarrow> (\<And>x. s = Some x \<Longrightarrow> x \<noteq> [] \<Longrightarrow> P) \<Longrightarrow> P"
  by (cases s) auto

lemma or_else_simps [simp]:
  "or_else None d = d" "or_else (Some x) d = (if x = [] then d else x)"
  by (auto simp: or_else_def)

subsection \<open>Stable sorting\<close>

text \<open>
  \<open>sorted(xs, key=f, reverse=True)\<close>: descending by key, equal keys in input order. It is
  the stable \<open>sort_key\<close> of the negated key.
\<close>

definition sort_desc :: "('a \<Rightarrow> int) \<Rightarrow> 'a list \<Rightarrow> 'a list" where
  "sort_desc f xs = sort_key (\<lambda>x. - f x) xs"

lemma mset_sort_desc [simp]: "mset (sort_desc f xs) = mset xs"
  by (simp add: sort_desc_def)

lemma set_sort_desc [simp]: "set (sort_desc f xs) = set xs"
  by (simp add: sort_desc_def)

lemma length_sort_desc [simp]: "length (sort_desc f xs) = length xs"
  by (simp add: sort_desc_def)

lemma sorted_sort_desc: "sorted_wrt (\<lambda>x y. f x \<ge> f y) (sort_desc f xs)"
proof -
  have "sorted (map (\<lambda>x. - f x) (sort_desc f xs))"
    by (simp add: sort_desc_def)
  then show ?thesis
    by (simp add: sorted_wrt_map)
qed

lemma sort_desc_stable: "filter (\<lambda>x. f x = k) (sort_desc f xs) = filter (\<lambda>x. f x = k) xs"
proof -
  have "filter (\<lambda>x. - f x = - k) (sort_key (\<lambda>x. - f x) xs) = filter (\<lambda>x. - f x = - k) xs"
    by (rule sort_key_stable)
  then show ?thesis
    by (simp add: sort_desc_def)
qed

end
