(* ===== verification/Py_Str.thy ===== *)
theory Py_Str
  imports Netra_Prelude "HOL-Library.Sublist" "HOL-Library.Char_ord"
begin

text \<open>
  The Python string operations the program uses, on \<open>string\<close> = \<open>char list\<close>. A HOL
  character is one of 256, read here as the code points 0 to 255, so the model's strings
  are the Python strings without a code point above 255; on these \<open>len\<close>, slicing,
  \<open>lower\<close>, \<open>strip\<close> and the character classes of \<open>re\<close> are the ones below.
\<close>

subsection \<open>Character classes\<close>

definition ord_of :: "char \<Rightarrow> nat" where
  "ord_of c = of_char c"

lemma ord_of_lt [simp]: "ord_of c < 256"
  by (simp add: ord_of_def of_char_def)

lemma ord_of_inj [simp]: "ord_of c = ord_of d \<longleftrightarrow> c = d"
  by (simp add: ord_of_def)

lemma ord_of_char_of: "n < 256 \<Longrightarrow> ord_of (char_of n) = n"
  by (simp add: ord_of_def)

definition is_digit :: "char \<Rightarrow> bool" where
  "is_digit c \<longleftrightarrow> 48 \<le> ord_of c \<and> ord_of c \<le> 57"

definition is_ascii_upper :: "char \<Rightarrow> bool" where
  "is_ascii_upper c \<longleftrightarrow> 65 \<le> ord_of c \<and> ord_of c \<le> 90"

definition is_ascii_lower :: "char \<Rightarrow> bool" where
  "is_ascii_lower c \<longleftrightarrow> 97 \<le> ord_of c \<and> ord_of c \<le> 122"

text \<open>\<open>\w\<close> of a \<open>str\<close> pattern: \<open>c.isalnum() or c == '_'\<close>.\<close>

definition is_word :: "char \<Rightarrow> bool" where
  "is_word c \<longleftrightarrow>
     is_digit c \<or> is_ascii_upper c \<or> is_ascii_lower c \<or> ord_of c = 95 \<or>
     ord_of c \<in> {170, 178, 179, 181, 185, 186, 188, 189, 190} \<or>
     (192 \<le> ord_of c \<and> ord_of c \<noteq> 215 \<and> ord_of c \<noteq> 247)"

text \<open>\<open>c.isspace()\<close>, what \<open>str.strip()\<close> removes.\<close>

definition is_space :: "char \<Rightarrow> bool" where
  "is_space c \<longleftrightarrow>
     (9 \<le> ord_of c \<and> ord_of c \<le> 13) \<or> (28 \<le> ord_of c \<and> ord_of c \<le> 32) \<or>
     ord_of c = 133 \<or> ord_of c = 160"

subsection \<open>\<open>str.lower\<close>\<close>

definition lower_char :: "char \<Rightarrow> char" where
  "lower_char c =
     (if is_ascii_upper c \<or> (192 \<le> ord_of c \<and> ord_of c \<le> 222 \<and> ord_of c \<noteq> 215)
      then char_of (ord_of c + 32) else c)"

definition lower :: "string \<Rightarrow> string" where
  "lower s = map lower_char s"

lemma ord_of_lower_char:
  "ord_of (lower_char c) =
     (if is_ascii_upper c \<or> (192 \<le> ord_of c \<and> ord_of c \<le> 222 \<and> ord_of c \<noteq> 215)
      then ord_of c + 32 else ord_of c)"
  by (auto simp: lower_char_def is_ascii_upper_def ord_of_char_of)

lemma lower_char_idem [simp]: "lower_char (lower_char c) = lower_char c"
proof -
  have "ord_of (lower_char (lower_char c)) = ord_of (lower_char c)"
    unfolding ord_of_lower_char [of "lower_char c"]
    by (auto simp: ord_of_lower_char is_ascii_upper_def)
  then show ?thesis by (simp only: ord_of_inj)
qed

lemma lower_idem [simp]: "lower (lower s) = lower s"
  by (simp add: lower_def)

lemma length_lower [simp]: "length (lower s) = length s"
  by (simp add: lower_def)

lemma lower_nth [simp]: "i < length s \<Longrightarrow> lower s ! i = lower_char (s ! i)"
  by (simp add: lower_def)

lemma lower_Nil [simp]: "lower [] = []"
  by (simp add: lower_def)

lemma lower_Cons [simp]: "lower (c # s) = lower_char c # lower s"
  by (simp add: lower_def)

lemma lower_append [simp]: "lower (s @ t) = lower s @ lower t"
  by (simp add: lower_def)

lemma lower_eq_Nil [simp]: "lower s = [] \<longleftrightarrow> s = []" "[] = lower s \<longleftrightarrow> s = []"
  by (auto simp: lower_def)

lemma is_word_lower_char [simp]: "is_word (lower_char c) = is_word c"
  unfolding is_word_def is_digit_def is_ascii_upper_def is_ascii_lower_def ord_of_lower_char
  by auto

subsection \<open>\<open>strip\<close>, \<open>rstrip\<close>\<close>

definition strip_where :: "(char \<Rightarrow> bool) \<Rightarrow> string \<Rightarrow> string" where
  "strip_where p s = rev (dropWhile p (rev (dropWhile p s)))"

definition strip :: "string \<Rightarrow> string" where
  "strip s = strip_where is_space s"

definition rstrip_char :: "char \<Rightarrow> string \<Rightarrow> string" where
  "rstrip_char c s = rev (dropWhile (\<lambda>d. d = c) (rev s))"

lemma strip_Nil [simp]: "strip [] = []"
  by (simp add: strip_def strip_where_def)

lemma rstrip_char_last: "rstrip_char c s = [] \<or> last (rstrip_char c s) \<noteq> c"
proof -
  have "dropWhile (\<lambda>d. d = c) (rev s) = [] \<or> hd (dropWhile (\<lambda>d. d = c) (rev s)) \<noteq> c"
    using hd_dropWhile [of "\<lambda>d. d = c" "rev s"] by blast
  then show ?thesis
    by (auto simp: rstrip_char_def last_rev)
qed

subsection \<open>\<open>startswith\<close>, \<open>removeprefix\<close>, \<open>in\<close>, \<open>replace\<close>, \<open>join\<close>, \<open>split\<close>\<close>

definition startswith :: "string \<Rightarrow> string \<Rightarrow> bool" where
  "startswith s p \<longleftrightarrow> take (length p) s = p"

definition removeprefix :: "string \<Rightarrow> string \<Rightarrow> string" where
  "removeprefix s p = (if startswith s p then drop (length p) s else s)"

lemma startswith_append [simp]: "startswith (p @ s) p"
  by (simp add: startswith_def)

lemma startswith_iff: "startswith s p \<longleftrightarrow> (\<exists>t. s = p @ t)"
  by (metis append_eq_conv_conj append_take_drop_id startswith_def)

lemma removeprefix_append [simp]: "removeprefix (p @ s) p = s"
  by (simp add: removeprefix_def)

text \<open>\<open>sub in s\<close>\<close>

fun contains :: "string \<Rightarrow> string \<Rightarrow> bool" where
  "contains [] sub = (sub = [])"
| "contains (c # s) sub = (startswith (c # s) sub \<or> contains s sub)"

lemma contains_iff_sublist: "contains s sub \<longleftrightarrow> (\<exists>a b. s = a @ sub @ b)"
proof (induction s)
  case (Cons c s)
  show ?case
  proof
    assume "contains (c # s) sub"
    then consider "startswith (c # s) sub" | "contains s sub" by auto
    then show "\<exists>a b. c # s = a @ sub @ b"
    proof cases
      case 1
      then show ?thesis unfolding startswith_iff by (metis append_Nil)
    next
      case 2
      then show ?thesis using Cons.IH by (metis append_Cons)
    qed
  next
    assume "\<exists>a b. c # s = a @ sub @ b"
    then obtain a b where ab: "c # s = a @ sub @ b" by blast
    show "contains (c # s) sub"
    proof (cases a)
      case Nil
      with ab have "startswith (c # s) sub" by (auto simp: startswith_iff)
      then show ?thesis by simp
    next
      case (Cons d a')
      with ab have "s = a' @ sub @ b" by simp
      then have "contains s sub" using \<open>contains s sub = _\<close> by blast
      then show ?thesis by simp
    qed
  qed
qed simp

text \<open>\<open>s.replace(old, new)\<close> for a one-character \<open>old\<close>.\<close>

definition replace_char :: "char \<Rightarrow> string \<Rightarrow> string \<Rightarrow> string" where
  "replace_char c t s = concat (map (\<lambda>d. if d = c then t else [d]) s)"

lemma replace_char_notin: "c \<notin> set t \<Longrightarrow> c \<notin> set (replace_char c t s)"
  by (auto simp: replace_char_def split: if_splits)

lemma replace_char_keeps_out: "d \<notin> set t \<Longrightarrow> d \<notin> set s \<Longrightarrow> d \<notin> set (replace_char c t s)"
  by (auto simp: replace_char_def split: if_splits)

lemma replace_char_id: "c \<notin> set s \<Longrightarrow> replace_char c t s = s"
  by (induction s) (auto simp: replace_char_def)

lemma length_replace_char1 [simp]: "length (replace_char c [d] s) = length s"
  by (induction s) (auto simp: replace_char_def)

text \<open>\<open>sep.join(xs)\<close>\<close>

fun join :: "string \<Rightarrow> string list \<Rightarrow> string" where
  "join sep [] = []"
| "join sep [x] = x"
| "join sep (x # y # xs) = x @ sep @ join sep (y # xs)"

text \<open>\<open>s.split(c)\<close> for a one-character separator.\<close>

fun split_char :: "char \<Rightarrow> string \<Rightarrow> string list" where
  "split_char c [] = [[]]"
| "split_char c (d # s) =
     (if d = c then [] # split_char c s
      else (case split_char c s of [] \<Rightarrow> [[d]] | w # ws \<Rightarrow> (d # w) # ws))"

lemma split_char_nonempty [simp]: "split_char c s \<noteq> []"
  by (cases s) (auto split: list.splits)

lemma join_split_char: "join [c] (split_char c s) = s"
proof (induction s)
  case (Cons d s)
  obtain w ws where w: "split_char c s = w # ws" by (cases "split_char c s") auto
  show ?case
  proof (cases "d = c")
    case True
    then show ?thesis using Cons.IH w by simp
  next
    case False
    then show ?thesis using Cons.IH w by (cases ws) auto
  qed
qed simp

lemma split_char_no_sep: "w \<in> set (split_char c s) \<Longrightarrow> c \<notin> set w"
proof (induction s arbitrary: w)
  case (Cons d s)
  obtain v vs where v: "split_char c s = v # vs" by (cases "split_char c s") auto
  show ?case
  proof (cases "d = c")
    case True
    then show ?thesis using Cons by auto
  next
    case False
    then show ?thesis using Cons v by auto
  qed
qed simp

lemma join_contains: "x \<in> set xs \<Longrightarrow> contains (join sep xs) x"
proof (induction sep xs rule: join.induct)
  case (2 sep y)
  then show ?case by (auto simp: contains_iff_sublist intro: exI [of _ "[]"])
next
  case (3 sep y z xs)
  show ?case
  proof (cases "x = y")
    case True
    then show ?thesis unfolding contains_iff_sublist by (auto intro: exI [of _ "[]"])
  next
    case False
    with 3 obtain a b where "join sep (z # xs) = a @ x @ b"
      by (auto simp: contains_iff_sublist)
    then have "join sep (y # z # xs) = (y @ sep @ a) @ x @ b" by simp
    then show ?thesis unfolding contains_iff_sublist by blast
  qed
qed simp

lemma contains_append1: "contains s x \<Longrightarrow> contains (s @ t) x"
  unfolding contains_iff_sublist by (metis append.assoc)

lemma contains_append2: "contains t x \<Longrightarrow> contains (s @ t) x"
  unfolding contains_iff_sublist by (metis append.assoc)

subsection \<open>\<open>str(n)\<close>\<close>

fun show_nat :: "nat \<Rightarrow> string" where
  "show_nat n =
     (if n < 10 then [char_of (48 + n)] else show_nat (n div 10) @ [char_of (48 + n mod 10)])"

declare show_nat.simps [simp del]

definition show_int :: "int \<Rightarrow> string" where
  "show_int i = (if i < 0 then CHR ''-'' # show_nat (nat (- i)) else show_nat (nat i))"

lemma show_nat_digits: "c \<in> set (show_nat n) \<Longrightarrow> is_digit c"
proof (induction n rule: show_nat.induct)
  case (1 n)
  have d: "is_digit (char_of (48 + k mod 10 :: nat))" for k :: nat
  proof -
    have "k mod 10 < 10" by simp
    then have "ord_of (char_of (48 + k mod 10 :: nat)) = 48 + k mod 10"
      by (intro ord_of_char_of) linarith
    then show ?thesis using \<open>k mod 10 < 10\<close> by (simp add: is_digit_def)
  qed
  show ?case
  proof (cases "n < 10")
    case True
    with 1 have "c = char_of (48 + n mod 10)" by (simp add: show_nat.simps [of n])
    with d show ?thesis by simp
  next
    case False
    with 1 d show ?thesis by (auto simp: show_nat.simps [of n])
  qed
qed

end
