(* ===== verification/Netra_Errors.thy ===== *)
theory Netra_Errors
  imports Py_Str
begin

text \<open>
  The exception classes of \<open>core/exceptions.py\<close>, with the built-in and library exceptions
  that cross the modelled code, and Python's result-or-exception as a sum: \<open>Inl e\<close> is
  "raised \<open>e\<close>", \<open>Inr v\<close> is "returned \<open>v\<close>". An exception carries its message, which
  is what \<open>str(exc)\<close> returns.
\<close>

datatype exn =
    ConfigError string
  | LiteBackendError string
  | ServiceUnavailableError string
  | ClarificationError string
  | StateTransitionError string
  | AnalysisError string
  | DecompositionError string
  | OSError string
  | ValidationError string
  | ValueError string
  | JSONDecodeError string
  | TypeError string
  | KeyError string
  | AttributeError string
  | UnicodeDecodeError string
  | AgentRunError string
  | UserError string
  | LLMProviderError string
  | ToolError string
  | TransportError string
  | OtherHTTPError string
  | OtherError string

fun exn_str :: "exn \<Rightarrow> string" where
  "exn_str (ConfigError m) = m"
| "exn_str (LiteBackendError m) = m"
| "exn_str (ServiceUnavailableError m) = m"
| "exn_str (ClarificationError m) = m"
| "exn_str (StateTransitionError m) = m"
| "exn_str (AnalysisError m) = m"
| "exn_str (DecompositionError m) = m"
| "exn_str (OSError m) = m"
| "exn_str (ValidationError m) = m"
| "exn_str (ValueError m) = m"
| "exn_str (JSONDecodeError m) = m"
| "exn_str (TypeError m) = m"
| "exn_str (KeyError m) = m"
| "exn_str (AttributeError m) = m"
| "exn_str (UnicodeDecodeError m) = m"
| "exn_str (AgentRunError m) = m"
| "exn_str (UserError m) = m"
| "exn_str (LLMProviderError m) = m"
| "exn_str (ToolError m) = m"
| "exn_str (TransportError m) = m"
| "exn_str (OtherHTTPError m) = m"
| "exn_str (OtherError m) = m"

text \<open>\<open>except NetraError\<close>, \<open>except LiteBackendError\<close>, \<open>except ValueError\<close> and
  \<open>except httpx.HTTPError\<close>: the class and its subclasses.\<close>

fun is_NetraError :: "exn \<Rightarrow> bool" where
  "is_NetraError (ConfigError _) = True"
| "is_NetraError (LiteBackendError _) = True"
| "is_NetraError (ServiceUnavailableError _) = True"
| "is_NetraError (ClarificationError _) = True"
| "is_NetraError (StateTransitionError _) = True"
| "is_NetraError (AnalysisError _) = True"
| "is_NetraError (DecompositionError _) = True"
| "is_NetraError _ = False"

fun is_LiteBackendError :: "exn \<Rightarrow> bool" where
  "is_LiteBackendError (LiteBackendError _) = True"
| "is_LiteBackendError (ServiceUnavailableError _) = True"
| "is_LiteBackendError _ = False"

fun is_ClarificationError :: "exn \<Rightarrow> bool" where
  "is_ClarificationError (ClarificationError _) = True"
| "is_ClarificationError _ = False"

fun is_AnalysisError :: "exn \<Rightarrow> bool" where
  "is_AnalysisError (AnalysisError _) = True"
| "is_AnalysisError _ = False"

fun is_DecompositionError :: "exn \<Rightarrow> bool" where
  "is_DecompositionError (DecompositionError _) = True"
| "is_DecompositionError _ = False"

fun is_OSError :: "exn \<Rightarrow> bool" where
  "is_OSError (OSError _) = True"
| "is_OSError _ = False"

text \<open>pydantic's \<open>ValidationError\<close>, \<open>json.JSONDecodeError\<close> and \<open>UnicodeDecodeError\<close> are
  \<open>ValueError\<close>s; PydanticAI's \<open>AgentRunError\<close> and \<open>UserError\<close> are what every LLM boundary
  catches.\<close>

fun is_ValueError :: "exn \<Rightarrow> bool" where
  "is_ValueError (ValueError _) = True"
| "is_ValueError (ValidationError _) = True"
| "is_ValueError (JSONDecodeError _) = True"
| "is_ValueError (UnicodeDecodeError _) = True"
| "is_ValueError _ = False"

fun is_HTTPError :: "exn \<Rightarrow> bool" where
  "is_HTTPError (TransportError _) = True"
| "is_HTTPError (OtherHTTPError _) = True"
| "is_HTTPError _ = False"

fun is_AgentError :: "exn \<Rightarrow> bool" where
  "is_AgentError (AgentRunError _) = True"
| "is_AgentError (UserError _) = True"
| "is_AgentError _ = False"

lemma lite_is_netra: "is_LiteBackendError e \<Longrightarrow> is_NetraError e"
  by (cases e) auto

end
