(* ===== verification/Py_Regex.thy ===== *)
theory Py_Regex
  imports Py_Str
begin

text \<open>
  The part of Python's \<open>re\<close> the program uses, as a backtracking matcher. A pattern is a
  value of \<open>re\<close>; \<open>ends r s i\<close> lists, in the order the engine tries them, the positions
  at which a match of \<open>r\<close> in \<open>s\<close> that starts at \<open>i\<close> can end. So \<open>re.search\<close> takes
  the first start with a nonempty list and the head of that list, and \<open>re.fullmatch\<close>
  asks whether the whole length is in the list of start 0.
\<close>

datatype re =
    Eps
  | Cls "char \<Rightarrow> bool"
  | Seq re re
  | Alt re re
  | Star re
  | Upto nat re
  | WordB
  | BeginS
  | EndS

text \<open>Greedy repetition, at most \<open>n\<close> times, each round making progress.\<close>

primrec iter :: "(nat \<Rightarrow> nat list) \<Rightarrow> nat \<Rightarrow> nat \<Rightarrow> nat list" where
  "iter f 0 i = [i]"
| "iter f (Suc n) i = concat (map (\<lambda>j. if i < j then iter f n j else []) (f i)) @ [i]"

text \<open>\<open>\b\<close>, and \<open>$\<close> without \<open>MULTILINE\<close> (the end, or before a final newline).\<close>

definition word_boundary :: "string \<Rightarrow> nat \<Rightarrow> bool" where
  "word_boundary s i \<longleftrightarrow>
     (0 < i \<and> i \<le> length s \<and> is_word (s ! (i - 1))) \<noteq> (i < length s \<and> is_word (s ! i))"

definition at_dollar :: "string \<Rightarrow> nat \<Rightarrow> bool" where
  "at_dollar s i \<longleftrightarrow> i = length s \<or> (Suc i = length s \<and> ord_of (s ! i) = 10)"

primrec ends :: "re \<Rightarrow> string \<Rightarrow> nat \<Rightarrow> nat list" where
  "ends Eps s i = [i]"
| "ends (Cls p) s i = (if i < length s \<and> p (s ! i) then [Suc i] else [])"
| "ends (Seq a b) s i = concat (map (ends b s) (ends a s i))"
| "ends (Alt a b) s i = ends a s i @ ends b s i"
| "ends (Star a) s i = iter (ends a s) (length s - i) i"
| "ends (Upto n a) s i = iter (ends a s) n i"
| "ends WordB s i = (if word_boundary s i then [i] else [])"
| "ends BeginS s i = (if i = 0 then [i] else [])"
| "ends EndS s i = (if at_dollar s i then [i] else [])"

definition re_search :: "re \<Rightarrow> string \<Rightarrow> (nat \<times> nat) option" where
  "re_search r s =
     (case filter (\<lambda>i. ends r s i \<noteq> []) [0..<Suc (length s)] of
        [] \<Rightarrow> None
      | i # _ \<Rightarrow> Some (i, hd (ends r s i)))"

definition re_match :: "re \<Rightarrow> string \<Rightarrow> bool" where
  "re_match r s \<longleftrightarrow> ends r s 0 \<noteq> []"

definition re_fullmatch :: "re \<Rightarrow> string \<Rightarrow> bool" where
  "re_fullmatch r s \<longleftrightarrow> length s \<in> set (ends r s 0)"

subsection \<open>Derived patterns\<close>

definition opt :: "re \<Rightarrow> re" where
  "opt r = Alt r Eps"

definition plus :: "re \<Rightarrow> re" where
  "plus r = Seq r (Star r)"

primrec lit :: "string \<Rightarrow> re" where
  "lit [] = Eps"
| "lit (c # t) = Seq (Cls (\<lambda>d. d = c)) (lit t)"

text \<open>A literal under \<open>re.IGNORECASE\<close>.\<close>

primrec lit_ic :: "string \<Rightarrow> re" where
  "lit_ic [] = Eps"
| "lit_ic (c # t) = Seq (Cls (\<lambda>d. lower_char d = lower_char c)) (lit_ic t)"

subsection \<open>What the matcher accepts\<close>

lemma ends_iter_mono: "j \<in> set (iter f n i) \<Longrightarrow> i \<le> j"
proof (induction n arbitrary: i)
  case (Suc n)
  from Suc.prems consider "j = i" | k where "k \<in> set (f i)" "i < k" "j \<in> set (iter f n k)"
    by (auto split: if_splits)
  then show ?case
    by cases (use Suc.IH in fastforce)+
qed simp

lemma iter_bound:
  assumes "\<And>i j. i \<le> m \<Longrightarrow> j \<in> set (f i) \<Longrightarrow> j \<le> m"
  shows "i \<le> m \<Longrightarrow> j \<in> set (iter f n i) \<Longrightarrow> j \<le> m"
proof (induction n arbitrary: i)
  case (Suc n)
  from Suc.prems(2) consider "j = i" | k where "k \<in> set (f i)" "j \<in> set (iter f n k)"
    by (auto split: if_splits)
  then show ?case
    using Suc.prems(1) Suc.IH assms by cases blast+
qed simp

lemma ends_ge: "j \<in> set (ends r s i) \<Longrightarrow> i \<le> j"
proof (induction r arbitrary: i j)
  case (Seq a b)
  then obtain k where "k \<in> set (ends a s i)" "j \<in> set (ends b s k)" by auto
  with Seq.IH show ?case using le_trans by blast
next
  case (Star a)
  then show ?case using ends_iter_mono by simp
next
  case (Upto n a)
  then show ?case using ends_iter_mono by simp
next
  case (Alt a b)
  then consider "j \<in> set (ends a s i)" | "j \<in> set (ends b s i)" by auto
  then show ?case using Alt.IH by cases
qed (simp_all split: if_splits)

lemma ends_le: "i \<le> length s \<Longrightarrow> j \<in> set (ends r s i) \<Longrightarrow> j \<le> length s"
proof (induction r arbitrary: i j)
  case (Star a)
  have "j \<in> set (iter (ends a s) (length s - i) i)" using Star.prems(2) by simp
  then show ?case using iter_bound [of "length s" "ends a s"] Star.IH Star.prems(1) by blast
next
  case (Upto n a)
  have "j \<in> set (iter (ends a s) n i)" using Upto.prems(2) by simp
  then show ?case using iter_bound [of "length s" "ends a s"] Upto.IH Upto.prems(1) by blast
next
  case (Alt a b)
  from Alt.prems(2) have "j \<in> set (ends a s i) \<or> j \<in> set (ends b s i)" by simp
  then show ?case using Alt.IH(1) [OF Alt.prems(1)] Alt.IH(2) [OF Alt.prems(1)] by blast
next
  case (Seq a b)
  from Seq.prems(2) obtain k where k: "k \<in> set (ends a s i)" "j \<in> set (ends b s k)" by auto
  have "k \<le> length s" using Seq.IH(1) [OF Seq.prems(1) k(1)] .
  then show ?case using Seq.IH(2) k(2) by blast
qed (simp_all split: if_splits)

lemma re_search_None_iff: "re_search r s = None \<longleftrightarrow> (\<forall>i \<le> length s. ends r s i = [])"
proof -
  have "re_search r s = None \<longleftrightarrow> filter (\<lambda>i. ends r s i \<noteq> []) [0..<Suc (length s)] = []"
    by (simp add: re_search_def split: list.split del: upt_Suc)
  also have "\<dots> \<longleftrightarrow> (\<forall>i \<le> length s. ends r s i = [])"
    by (auto simp: filter_empty_conv simp del: upt_Suc)
  finally show ?thesis .
qed

lemma re_search_hit_iff: "re_search r s \<noteq> None \<longleftrightarrow> (\<exists>i \<le> length s. ends r s i \<noteq> [])"
  by (auto simp: re_search_None_iff)

lemma re_search_SomeD:
  assumes "re_search r s = Some (i, j)"
  shows "j \<in> set (ends r s i)" and "i \<le> length s" and "i \<le> j" and "j \<le> length s"
    and "\<forall>k < i. ends r s k = []"
proof -
  let ?hits = "filter (\<lambda>i. ends r s i \<noteq> []) [0..<Suc (length s)]"
  from assms obtain rest where hits: "?hits = i # rest" and j: "j = hd (ends r s i)"
    by (auto simp: re_search_def split: list.splits simp del: upt_Suc)
  then have "i \<in> set ?hits" by (simp del: upt_Suc)
  then have i: "ends r s i \<noteq> []" "i \<le> length s"
    by (auto simp del: upt_Suc)
  then show "j \<in> set (ends r s i)" "i \<le> length s" using j by auto
  then show "i \<le> j" "j \<le> length s" using ends_ge ends_le by blast+
  have "sorted ?hits" by (simp del: upt_Suc add: sorted_wrt_filter)
  then have first: "\<forall>k \<in> set ?hits. i \<le> k" using hits by auto
  show "\<forall>k < i. ends r s k = []"
  proof (intro allI impI)
    fix k assume "k < i"
    then have "k \<notin> set ?hits" using first by (meson leD)
    moreover have "k \<in> set [0..<Suc (length s)]" using \<open>k < i\<close> i(2) by (simp del: upt_Suc)
    ultimately show "ends r s k = []" unfolding set_filter by blast
  qed
qed

lemma ends_lit_ic:
  "i \<le> length s \<Longrightarrow> ends (lit_ic t) s i =
     (if i + length t \<le> length s \<and> lower (take (length t) (drop i s)) = lower t
      then [i + length t] else [])"
proof (induction t arbitrary: i)
  case (Cons c t)
  show ?case
  proof (cases "i < length s")
    case True
    then have "drop i s = s ! i # drop (Suc i) s" by (simp add: Cons_nth_drop_Suc)
    then show ?thesis using True Cons.IH [of "Suc i"] by auto
  next
    case False
    then show ?thesis by auto
  qed
qed simp

lemma iter_class:
  "iter (ends (Cls p) s) n i = rev [i..<Suc (i + min n (length (takeWhile p (drop i s))))]"
proof (induction n arbitrary: i)
  case (Suc n)
  show ?case
  proof (cases "i < length s \<and> p (s ! i)")
    case True
    then have d: "drop i s = s ! i # drop (Suc i) s" by (simp add: Cons_nth_drop_Suc)
    let ?m = "min n (length (takeWhile p (drop (Suc i) s)))"
    have "ends (Cls p) s i = [Suc i]" using True by simp
    then have "iter (ends (Cls p) s) (Suc n) i = iter (ends (Cls p) s) n (Suc i) @ [i]"
      by (simp del: ends.simps)
    also have "\<dots> = rev [Suc i..<Suc (Suc i + ?m)] @ [i]"
      by (simp only: Suc.IH)
    also have "\<dots> = rev [i..<Suc (Suc i + ?m)]"
      by (simp add: upt_conv_Cons del: upt_Suc)
    finally have "iter (ends (Cls p) s) (Suc n) i = rev [i..<Suc (Suc i + ?m)]" .
    moreover have "Suc i + ?m = i + min (Suc n) (length (takeWhile p (drop i s)))"
      using True d by simp
    ultimately show ?thesis by (simp only:)
  next
    case False
    then have "takeWhile p (drop i s) = []"
      by (metis drop_eq_Nil2 hd_drop_conv_nth leI takeWhile_eq_Nil_iff)
    with False show ?thesis by auto
  qed
qed simp

lemma set_iter_class:
  "j \<in> set (iter (ends (Cls p) s) n i) \<longleftrightarrow>
     i \<le> j \<and> j \<le> i + n \<and> (j = i \<or> j \<le> length s) \<and> (\<forall>k. i \<le> k \<and> k < j \<longrightarrow> p (s ! k))"
proof -
  let ?w = "length (takeWhile p (drop i s))"
  have "j \<le> i + ?w \<longleftrightarrow> (j = i \<or> j \<le> length s) \<and> (\<forall>k. i \<le> k \<and> k < j \<longrightarrow> p (s ! k))"
    if "i \<le> j"
  proof
    assume le: "j \<le> i + ?w"
    have "p (s ! k)" if "i \<le> k" "k < j" for k
    proof -
      have "k - i < ?w" using that le by linarith
      then have "p (takeWhile p (drop i s) ! (k - i))" by (metis nth_mem set_takeWhileD)
      moreover have "takeWhile p (drop i s) ! (k - i) = drop i s ! (k - i)"
        using \<open>k - i < ?w\<close> by (rule takeWhile_nth)
      moreover have "drop i s ! (k - i) = s ! k" 
        using that le \<open>k - i < ?w\<close> length_takeWhile_le [of p "drop i s"] by (simp add: nth_drop)
      ultimately show ?thesis by simp
    qed
    moreover have "j = i \<or> j \<le> length s"
    proof (cases "i \<le> length s")
      case True
      have "?w \<le> length s - i" using length_takeWhile_le [of p "drop i s"] by simp
      then show ?thesis using le True by linarith
    next
      case False
      then show ?thesis using le \<open>i \<le> j\<close> by simp
    qed
    ultimately show "(j = i \<or> j \<le> length s) \<and> (\<forall>k. i \<le> k \<and> k < j \<longrightarrow> p (s ! k))" by blast
  next
    assume a: "(j = i \<or> j \<le> length s) \<and> (\<forall>k. i \<le> k \<and> k < j \<longrightarrow> p (s ! k))"
    have "j - i \<le> ?w"
    proof (rule ccontr)
      assume "\<not> ?thesis"
      then have lt: "?w < j - i" by simp
      then have "?w < length (drop i s)" using a that by auto
      then have "\<not> p (drop i s ! ?w)" by (rule nth_length_takeWhile)
      moreover have "drop i s ! ?w = s ! (i + ?w)" using \<open>?w < length (drop i s)\<close> by simp
      ultimately show False using a lt by auto
    qed
    then show "j \<le> i + ?w" by linarith
  qed
  then show ?thesis
    by (auto simp: iter_class simp del: upt_Suc)
qed

lemma ends_nonempty: "ends r s i \<noteq> [] \<longleftrightarrow> (\<exists>j. j \<in> set (ends r s i))"
  by (metis list.set_intros(1) neq_Nil_conv set_empty2 empty_iff)

lemma in_ends_Seq: "j \<in> set (ends (Seq a b) s i) \<longleftrightarrow> (\<exists>k. k \<in> set (ends a s i) \<and> j \<in> set (ends b s k))"
  by auto

lemma in_ends_WordB: "j \<in> set (ends WordB s i) \<longleftrightarrow> j = i \<and> word_boundary s i"
  by auto

lemmas ends_simps = ends.simps ends_lit_ic opt_def plus_def

end
