(* ===== verification/Vocabulary.thy ===== *)
theory Vocabulary
  imports Netra_Errors Py_Regex
begin

text \<open>
  \<open>models/vocab.py\<close>, \<open>core/vocab_lookup.py\<close> and \<open>core/intent_classifier.py\<close>: the
  disambiguation vocabulary, keyed by lower-cased term, and the deterministic detection of its
  terms in a query by a case-insensitive word-boundary pattern. Reading and parsing the JSON
  file is the caller's \<open>vocab_file\<close>; the pydantic validation of one entry is the parameter
  \<open>validate\<close>.
\<close>

record VocabEntry =
  ve_ambiguity :: string
  ve_questions :: "string list"
  ve_jql_patterns :: "(string \<times> string) list"

type_synonym vocab = "(string \<times> VocabEntry) list"

datatype 'j vocab_file =
    VF_missing
  | VF_unreadable exn
  | VF_not_object
  | VF_object "(string \<times> 'j) list"

fun load_items :: "string \<Rightarrow> ('j \<Rightarrow> exn + VocabEntry) \<Rightarrow> vocab \<Rightarrow> (string \<times> 'j) list \<Rightarrow> exn + vocab"
  where
  "load_items path validate entries [] = Inr entries"
| "load_items path validate entries ((term, value) # rest) =
     (case validate value of
        Inl (ValidationError m) \<Rightarrow>
          Inl (ConfigError (path @ '': invalid entry for term '' @ [CHR 0x27] @ term @ [CHR 0x27]
                @ '': '' @ m))
      | Inl e \<Rightarrow> Inl e
      | Inr entry \<Rightarrow> load_items path validate (AList.update (lower term) entry entries) rest)"

fun vocab_load :: "string \<Rightarrow> ('j \<Rightarrow> exn + VocabEntry) \<Rightarrow> 'j vocab_file \<Rightarrow> exn + vocab" where
  "vocab_load path validate VF_missing = Inl (ConfigError (path @ '': vocabulary file not found''))"
| "vocab_load path validate (VF_unreadable e) =
     (case e of
        OSError m \<Rightarrow> Inl (ConfigError (path @ '': cannot read vocabulary: '' @ m))
      | JSONDecodeError m \<Rightarrow> Inl (ConfigError (path @ '': cannot read vocabulary: '' @ m))
      | _ \<Rightarrow> Inl e)"
| "vocab_load path validate VF_not_object =
     Inl (ConfigError (path @ '': expected a JSON object of term -> entry''))"
| "vocab_load path validate (VF_object raw) = load_items path validate [] raw"

definition vocab_terms :: "vocab \<Rightarrow> string list" where
  "vocab_terms v = map fst v"

definition vocab_get :: "vocab \<Rightarrow> string \<Rightarrow> VocabEntry option" where
  "vocab_get v term = map_of v (lower term)"

fun entries_onto :: "vocab \<Rightarrow> vocab \<Rightarrow> string list \<Rightarrow> vocab" where
  "entries_onto v result [] = result"
| "entries_onto v result (term # ts) =
     (case vocab_get v term of
        None \<Rightarrow> entries_onto v result ts
      | Some entry \<Rightarrow> entries_onto v (AList.update (lower term) entry result) ts)"

definition entries_for :: "vocab \<Rightarrow> string list \<Rightarrow> vocab" where
  "entries_for v ts = entries_onto v [] ts"

definition vocab_ok :: "vocab \<Rightarrow> bool" where
  "vocab_ok v \<longleftrightarrow> dict_ok v \<and> (\<forall>(t, e) \<in> set v. lower t = t)"

subsection \<open>The classifier\<close>

definition plural_suffix :: re where
  "plural_suffix = opt (Seq (opt (lit_ic ''e'')) (lit_ic ''s''))"

definition term_pattern :: "string \<Rightarrow> re" where
  "term_pattern term = Seq WordB (Seq (lit_ic term) (Seq plural_suffix WordB))"

definition detect :: "vocab \<Rightarrow> string \<Rightarrow> string list" where
  "detect v text = map fst (filter (\<lambda>(term, pattern). re_search pattern text \<noteq> None)
                     (map (\<lambda>term. (term, term_pattern term)) (vocab_terms v)))"

lemma detect_filter:
  "detect v text = filter (\<lambda>t. re_search (term_pattern t) text \<noteq> None) (vocab_terms v)"
  by (simp add: detect_def filter_map comp_def)

text \<open>An occurrence of a term: the term, or its plural, between word boundaries.\<close>

definition occurs_in :: "string \<Rightarrow> string \<Rightarrow> bool" where
  "occurs_in t text \<longleftrightarrow>
     (\<exists>a m b. text = a @ m @ b \<and> lower m \<in> {lower t, lower t @ ''s'', lower t @ ''es''} \<and>
        word_boundary text (length a) \<and> word_boundary text (length (a @ m)))"

text \<open>\<open>u\<close> stands at position \<open>i\<close> of \<open>s\<close>, up to case.\<close>

definition at_ic :: "string \<Rightarrow> nat \<Rightarrow> string \<Rightarrow> bool" where
  "at_ic s i u \<longleftrightarrow> i + length u \<le> length s \<and> lower (take (length u) (drop i s)) = lower u"

lemma ends_lit_at: "i \<le> length s \<Longrightarrow> ends (lit_ic u) s i = (if at_ic s i u then [i + length u] else [])"
  by (simp add: ends_lit_ic at_ic_def)

lemma at_ic_append: "at_ic s i (u @ w) \<longleftrightarrow> at_ic s i u \<and> at_ic s (i + length u) w"
proof -
  have "lower (take (length u + length w) (drop i s)) =
      lower (take (length u) (drop i s)) @ lower (take (length w) (drop (i + length u) s))"
    by (simp add: take_add add.commute)
  moreover have "length (lower (take (length u) (drop i s))) = length (lower u)"
    if "i + length u \<le> length s" using that by simp
  ultimately show ?thesis by (auto simp: at_ic_def add.assoc)
qed

lemma at_ic_le: "at_ic s i u \<Longrightarrow> i + length u \<le> length s"
  by (simp add: at_ic_def)

lemma at_ic_split:
  "at_ic s i u \<longleftrightarrow> (\<exists>a m b. s = a @ m @ b \<and> length a = i \<and> lower m = lower u)"
proof
  assume at: "at_ic s i u"
  let ?a = "take i s" and ?m = "take (length u) (drop i s)" and ?b = "drop (length u) (drop i s)"
  have "s = ?a @ ?m @ ?b" by (metis append_take_drop_id)
  moreover have "length ?a = i" "lower ?m = lower u" using at by (auto simp: at_ic_def)
  ultimately show "\<exists>a m b. s = a @ m @ b \<and> length a = i \<and> lower m = lower u" by blast
next
  assume "\<exists>a m b. s = a @ m @ b \<and> length a = i \<and> lower m = lower u"
  then obtain a m b where s: "s = a @ m @ b" and "length a = i" and m: "lower m = lower u" by blast
  moreover from m have "length m = length u" by (metis length_lower)
  ultimately show "at_ic s i u" by (auto simp: at_ic_def)
qed

definition plurals :: "string \<Rightarrow> string list" where
  "plurals t = [t, t @ ''s'', t @ ''es'']"

lemma ends_suffix:
  assumes "i \<le> length s"
  shows "j \<in> set (ends plural_suffix s i) \<longleftrightarrow>
    j = i \<or> (at_ic s i ''s'' \<and> j = Suc i) \<or> (at_ic s i ''es'' \<and> j = Suc (Suc i))"
proof -
  have es: "at_ic s i ''es'' \<longleftrightarrow> at_ic s i ''e'' \<and> at_ic s (Suc i) ''s''"
    using at_ic_append [of s i "''e''" "''s''"] by simp
  have e: "ends (lit_ic ''e'') s i = (if at_ic s i ''e'' then [Suc i] else [])"
    using ends_lit_at [OF assms, of "''e''"] by simp
  have s0: "ends (lit_ic ''s'') s i = (if at_ic s i ''s'' then [Suc i] else [])"
    using ends_lit_at [OF assms, of "''s''"] by simp
  have s1: "ends (lit_ic ''s'') s (Suc i) = (if at_ic s (Suc i) ''s'' then [Suc (Suc i)] else [])"
    if "at_ic s i ''e''"
    using ends_lit_at [of "Suc i" s "''s''"] at_ic_le [OF that] by simp
  show ?thesis
  proof (cases "at_ic s i ''e''")
    case True
    have "ends plural_suffix s i =
        (if at_ic s (Suc i) ''s'' then [Suc (Suc i)] else []) @
        (if at_ic s i ''s'' then [Suc i] else []) @ [i]"
      using True e s0 s1 [OF True] by (simp del: lit_ic.simps add: opt_def plural_suffix_def)
    then show ?thesis using True es by auto
  next
    case False
    have "ends plural_suffix s i =
        (if at_ic s i ''s'' then [Suc i] else []) @ [i]"
      using False e s0 by (simp del: lit_ic.simps add: opt_def plural_suffix_def)
    then show ?thesis using False es by auto
  qed
qed

lemma ends_term_pattern:
  assumes "i \<le> length s"
  shows "ends (term_pattern t) s i \<noteq> [] \<longleftrightarrow>
     word_boundary s i \<and> (\<exists>u \<in> set (plurals t). at_ic s i u \<and> word_boundary s (i + length u))"
proof -
  let ?k = "i + length t"
  have lit: "k \<in> set (ends (lit_ic t) s i) \<longleftrightarrow> at_ic s i t \<and> k = ?k" for k
    by (auto simp: ends_lit_at [OF assms])
  have "ends (term_pattern t) s i \<noteq> [] \<longleftrightarrow>
      word_boundary s i \<and> at_ic s i t \<and> (\<exists>j. j \<in> set (ends plural_suffix s ?k) \<and> word_boundary s j)"
    unfolding ends_nonempty term_pattern_def in_ends_Seq in_ends_WordB by (auto simp: lit)
  also have "\<dots> \<longleftrightarrow> word_boundary s i \<and> at_ic s i t \<and>
      (word_boundary s ?k \<or> (at_ic s ?k ''s'' \<and> word_boundary s (Suc ?k)) \<or>
       (at_ic s ?k ''es'' \<and> word_boundary s (Suc (Suc ?k))))"
    by (auto simp: ends_suffix [OF at_ic_le])
  also have "\<dots> \<longleftrightarrow> word_boundary s i \<and>
      (\<exists>u \<in> set (plurals t). at_ic s i u \<and> word_boundary s (i + length u))"
    by (simp add: plurals_def at_ic_append) blast
  finally show ?thesis .
qed

lemma plurals_lower:
  "(\<exists>u \<in> set (plurals t). lower m = lower u) \<longleftrightarrow>
     lower m \<in> {lower t, lower t @ ''s'', lower t @ ''es''}"
  by (simp add: plurals_def lower_char_def is_ascii_upper_def ord_of_def)

lemma re_search_term_pattern: "re_search (term_pattern t) s \<noteq> None \<longleftrightarrow> occurs_in t s"
proof -
  have "re_search (term_pattern t) s \<noteq> None \<longleftrightarrow>
      (\<exists>i \<le> length s. word_boundary s i \<and>
         (\<exists>u \<in> set (plurals t). at_ic s i u \<and> word_boundary s (i + length u)))"
    unfolding re_search_hit_iff using ends_term_pattern [of _ s t] by blast
  also have "\<dots> \<longleftrightarrow> (\<exists>a m b. s = a @ m @ b \<and> (\<exists>u \<in> set (plurals t). lower m = lower u) \<and>
      word_boundary s (length a) \<and> word_boundary s (length (a @ m)))" (is "?L \<longleftrightarrow> ?R")
  proof
    assume ?L
    then obtain i u where u: "u \<in> set (plurals t)" "at_ic s i u" "word_boundary s i"
      "word_boundary s (i + length u)" by blast
    from u(2) obtain a m b where s: "s = a @ m @ b" "length a = i" "lower m = lower u"
      unfolding at_ic_split by blast
    have "length m = length u" using arg_cong [OF s(3), of length] by simp
    then have "word_boundary s (length (a @ m))" using u(4) s(2) by simp
    then show ?R using u(1,3) s by blast
  next
    assume ?R
    then obtain a m b u where u: "u \<in> set (plurals t)" "word_boundary s (length a)"
      "word_boundary s (length (a @ m))" and s: "s = a @ m @ b" "lower m = lower u"
      by blast
    have "length m = length u" using arg_cong [OF s(2), of length] by simp
    moreover have "at_ic s (length a) u" using s unfolding at_ic_split by blast
    moreover have "length a \<le> length s" using s by simp
    ultimately show ?L using u by auto
  qed
  finally show ?thesis unfolding plurals_lower occurs_in_def by blast
qed

lemma word_boundary_lower: "word_boundary (lower s) i = word_boundary s i"
proof (cases "i \<le> length s")
  case True
  then show ?thesis by (cases i) (auto simp: word_boundary_def)
qed (auto simp: word_boundary_def)

lemma occurs_in_lower: "occurs_in t (lower s) = occurs_in t s"
proof
  assume "occurs_in t (lower s)"
  then obtain a m b where s: "lower s = a @ m @ b"
    and m: "lower m \<in> {lower t, lower t @ ''s'', lower t @ ''es''}"
    and wb: "word_boundary s (length a)" "word_boundary s (length (a @ m))"
    by (auto simp: occurs_in_def word_boundary_lower)
  from s obtain a' r where r: "s = a' @ r" "a = lower a'" "m @ b = lower r"
    unfolding lower_def map_eq_append_conv by blast
  from r(3) obtain m' b' where "r = m' @ b'" "m = lower m'"
    unfolding lower_def by (metis map_eq_append_conv)
  with r have "s = a' @ m' @ b'" "a = lower a'" "m = lower m'" by simp_all
  moreover from this have "lower m' \<in> {lower t, lower t @ ''s'', lower t @ ''es''}"
    "word_boundary s (length a')" "word_boundary s (length (a' @ m'))"
    using m wb by (metis lower_idem, simp_all)
  ultimately show "occurs_in t s" unfolding occurs_in_def by blast
next
  assume "occurs_in t s"
  then obtain a m b where s: "s = a @ m @ b"
    and m: "lower m \<in> {lower t, lower t @ ''s'', lower t @ ''es''}"
    and wb: "word_boundary s (length a)" "word_boundary s (length (a @ m))"
    by (auto simp: occurs_in_def)
  have "lower s = lower a @ lower m @ lower b" using s by simp
  moreover have "word_boundary (lower s) (length (lower a))"
    "word_boundary (lower s) (length (lower a @ lower m))"
    using wb by (simp_all add: word_boundary_lower)
  moreover have "lower (lower m) \<in> {lower t, lower t @ ''s'', lower t @ ''es''}" using m by simp
  ultimately show "occurs_in t (lower s)" unfolding occurs_in_def by blast
qed

text \<open>For a term that begins and ends in a word character the boundaries are the ends of
  the text or non-word characters.\<close>

lemma word_boundary_start:
  "c \<noteq> [] \<Longrightarrow> is_word (hd c) \<Longrightarrow>
     word_boundary (a @ c) (length a) \<longleftrightarrow> a = [] \<or> \<not> is_word (last a)"
  by (cases a rule: rev_cases) (auto simp: word_boundary_def nth_append hd_conv_nth)

lemma word_boundary_end:
  "c \<noteq> [] \<Longrightarrow> is_word (last c) \<Longrightarrow>
     word_boundary (c @ b) (length c) \<longleftrightarrow> b = [] \<or> \<not> is_word (hd b)"
  by (cases c rule: rev_cases; cases b) (auto simp: word_boundary_def nth_append)

lemma occurs_in_delimited:
  assumes "t \<noteq> []" "is_word (hd t)" "is_word (last t)"
  shows "occurs_in t text \<longleftrightarrow>
     (\<exists>a m b. text = a @ m @ b \<and> lower m \<in> {lower t, lower t @ ''s'', lower t @ ''es''} \<and>
        (a = [] \<or> \<not> is_word (last a)) \<and> (b = [] \<or> \<not> is_word (hd b)))"
proof -
  have s_word: "is_word (CHR ''s'')" by (simp add: is_word_def is_ascii_lower_def ord_of_def)
  have "word_boundary (a @ m @ b) (length a) \<and> word_boundary (a @ m @ b) (length (a @ m)) \<longleftrightarrow>
      (a = [] \<or> \<not> is_word (last a)) \<and> (b = [] \<or> \<not> is_word (hd b))"
    if m: "lower m \<in> {lower t, lower t @ ''s'', lower t @ ''es''}" for a m b
  proof -
    have "lower m \<noteq> []" using m assms(1) by auto
    then have ne: "m \<noteq> []" by auto
    have "hd (lower m) = hd (lower t)" using m assms(1) by auto
    then have h: "is_word (hd m)"
      using ne assms by (metis hd_map is_word_lower_char lower_def)
    have "last (lower m) = last (lower t) \<or> last (lower m) = CHR ''s''" using m by auto
    then have l: "is_word (last m)"
      using ne assms s_word by (metis is_word_lower_char last_map lower_def)
    show ?thesis
      using word_boundary_start [of "m @ b" a] word_boundary_end [of "a @ m" b] ne h l by simp
  qed
  then show ?thesis unfolding occurs_in_def by blast
qed

subsection \<open>Loaded vocabularies\<close>

lemma vocab_ok_update: "vocab_ok v \<Longrightarrow> vocab_ok (AList.update (lower t) e v)"
  using set_update_subset [of "lower t" e v] by (auto simp: vocab_ok_def)

lemma load_items_ok: "vocab_ok v \<Longrightarrow> load_items path validate v raw = Inr v' \<Longrightarrow> vocab_ok v'"
  by (induction path validate v raw rule: load_items.induct)
    (auto simp: vocab_ok_update split: sum.splits exn.splits)

lemma vocab_load_ok: "vocab_load path validate vf = Inr v \<Longrightarrow> vocab_ok v"
proof (cases vf)
  case (VF_object raw)
  assume "vocab_load path validate vf = Inr v"
  with VF_object have "load_items path validate [] raw = Inr v" by simp
  moreover have "vocab_ok []" by (simp add: vocab_ok_def)
  ultimately show ?thesis using load_items_ok by blast
qed (auto split: exn.splits)

lemma entries_onto_lookup:
  "map_of (entries_onto v result ts) k =
     (if k \<in> lower ` {t \<in> set ts. vocab_get v t \<noteq> None} then map_of v k else map_of result k)"
proof (induction ts arbitrary: result)
  case (Cons t ts)
  then show ?case by (auto simp: vocab_get_def split: option.splits)
qed simp

lemma entries_for_lookup:
  "map_of (entries_for v ts) k = (if k \<in> lower ` set ts then map_of v k else None)"
  by (cases "map_of v k") (auto simp: entries_for_def entries_onto_lookup vocab_get_def)

lemma detect_occurs: "detect v text = filter (\<lambda>t. occurs_in t text) (vocab_terms v)"
  unfolding detect_filter re_search_term_pattern by (rule refl)

lemma detect_subset: "set (detect v text) \<subseteq> set (vocab_terms v)"
  by (auto simp: detect_filter)

lemma detect_distinct: "vocab_ok v \<Longrightarrow> distinct (detect v text)"
  by (simp add: detect_filter vocab_ok_def dict_ok_def vocab_terms_def)

lemma detect_lower: "vocab_ok v \<Longrightarrow> t \<in> set (detect v text) \<Longrightarrow> lower t = t"
  by (auto simp: detect_filter vocab_ok_def vocab_terms_def)

subsection \<open>Properties\<close>

text \<open>C37: a vocabulary term that begins and ends in a word character is detected in a text
  exactly when the text contains it, or its plural in -s or -es, in any letter case, not
  adjacent to another word character on either side; terms come out in vocabulary order.\<close>

theorem detect_spec:
  assumes "\<forall>t \<in> set (vocab_terms v). t \<noteq> [] \<and> is_word (hd t) \<and> is_word (last t)"
  shows "detect v text = filter (\<lambda>t. \<exists>a m b. text = a @ m @ b \<and>
             lower m \<in> {lower t, lower t @ ''s'', lower t @ ''es''} \<and>
             (a = [] \<or> \<not> is_word (last a)) \<and> (b = [] \<or> \<not> is_word (hd b))) (vocab_terms v)"
proof -
  have "occurs_in t text \<longleftrightarrow> (\<exists>a m b. text = a @ m @ b \<and>
             lower m \<in> {lower t, lower t @ ''s'', lower t @ ''es''} \<and>
             (a = [] \<or> \<not> is_word (last a)) \<and> (b = [] \<or> \<not> is_word (hd b)))"
    if "t \<in> set (vocab_terms v)" for t
    using that assms by (intro occurs_in_delimited) simp_all
  then show ?thesis unfolding detect_occurs by (rule filter_cong [OF refl])
qed

theorem detect_spec_witness:
  "''open'' \<in> set (detect [(''open'', \<lparr>ve_ambiguity = [], ve_questions = [], ve_jql_patterns = []\<rparr>)]
     ''all Opens'')"
proof -
  let ?v = "[(''open'', \<lparr>ve_ambiguity = [], ve_questions = [], ve_jql_patterns = []\<rparr>)]"
  have words: "\<forall>t \<in> set (vocab_terms ?v). t \<noteq> [] \<and> is_word (hd t) \<and> is_word (last t)"
    by (simp add: vocab_terms_def) code_simp
  have "lower ''Opens'' = lower ''open'' @ ''s''" "\<not> is_word (last ''all '')" by code_simp+
  then have "\<exists>a m b. ''all Opens'' = a @ m @ b \<and>
      lower m \<in> {lower ''open'', lower ''open'' @ ''s'', lower ''open'' @ ''es''} \<and>
      (a = [] \<or> \<not> is_word (last a)) \<and> (b = [] \<or> \<not> is_word (hd b))"
    by (intro exI [of _ "''all ''"] exI [of _ "''Opens''"] exI [of _ "[]"]) simp
  then show ?thesis by (subst detect_spec [OF words]) (simp add: vocab_terms_def)
qed

text \<open>Detection does not depend on the letter case of the query.\<close>

theorem detect_ignores_case: "detect v (lower text) = detect v text"
  by (simp add: detect_occurs occurs_in_lower)

end
