(* ===== verification/Session_Store.thy ===== *)
theory Session_Store
  imports Netra_Errors
begin

text \<open>
  \<open>memory/session_store.py\<close> and \<open>memory/briefing_session_store.py\<close>: the clarification
  state machine of one session, and the in-process stores with a time to live. The two
  in-memory stores have the same code over different values, so the store is modelled once
  over any value that knows its session id; the clock reading is an argument of each
  operation that reads the clock.
\<close>

subsection \<open>Clarification states and their transitions\<close>

datatype ClarificationState = IDLE | AWAITING_CLARIFICATION | RESOLVED | DISPATCHED

fun state_name :: "ClarificationState \<Rightarrow> string" where
  "state_name IDLE = ''idle''"
| "state_name AWAITING_CLARIFICATION = ''awaiting_clarification''"
| "state_name RESOLVED = ''resolved''"
| "state_name DISPATCHED = ''dispatched''"

fun ALLOWED_TRANSITIONS :: "ClarificationState \<Rightarrow> ClarificationState list" where
  "ALLOWED_TRANSITIONS IDLE = [AWAITING_CLARIFICATION, RESOLVED, DISPATCHED]"
| "ALLOWED_TRANSITIONS AWAITING_CLARIFICATION =
     [AWAITING_CLARIFICATION, RESOLVED, DISPATCHED, IDLE]"
| "ALLOWED_TRANSITIONS RESOLVED = [AWAITING_CLARIFICATION, DISPATCHED]"
| "ALLOWED_TRANSITIONS DISPATCHED = [AWAITING_CLARIFICATION, RESOLVED, DISPATCHED, IDLE]"

datatype resolution_source = FromConvention | FromClarification

fun source_name :: "resolution_source \<Rightarrow> string" where
  "source_name FromConvention = ''convention''"
| "source_name FromClarification = ''clarification''"

record TermResolution =
  tr_term :: string
  tr_resolution_key :: string
  tr_jql_hint :: string
  tr_source :: resolution_source

record SessionState =
  ss_session_id :: string
  ss_state :: ClarificationState
  ss_pending_query :: "string option"
  ss_pending_terms :: "string list"
  ss_pending_question :: "string option"
  ss_clarification_rounds :: int
  ss_resolutions :: "(string \<times> TermResolution) list"

definition new_session :: "string \<Rightarrow> SessionState" where
  "new_session sid = \<lparr>ss_session_id = sid, ss_state = IDLE, ss_pending_query = None,
     ss_pending_terms = [], ss_pending_question = None, ss_clarification_rounds = 0,
     ss_resolutions = []\<rparr>"

definition transition :: "SessionState \<Rightarrow> ClarificationState \<Rightarrow> exn + SessionState" where
  "transition s new =
     (if new \<notin> set (ALLOWED_TRANSITIONS (ss_state s))
      then Inl (StateTransitionError (''session '' @ ss_session_id s @ '': illegal transition ''
             @ state_name (ss_state s) @ '' -> '' @ state_name new))
      else Inr (s\<lparr>ss_state := new\<rparr>))"

lemma new_session_simps [simp]:
  "ss_session_id (new_session sid) = sid" "ss_state (new_session sid) = IDLE"
  "ss_pending_query (new_session sid) = None" "ss_pending_terms (new_session sid) = []"
  "ss_pending_question (new_session sid) = None" "ss_clarification_rounds (new_session sid) = 0"
  "ss_resolutions (new_session sid) = []"
  by (simp_all add: new_session_def)

text \<open>The three targets the orchestrator uses.\<close>

lemma transition_dispatched [simp]: "transition s DISPATCHED = Inr (s\<lparr>ss_state := DISPATCHED\<rparr>)"
  by (cases "ss_state s") (simp_all add: transition_def)

lemma transition_awaiting [simp]:
  "transition s AWAITING_CLARIFICATION = Inr (s\<lparr>ss_state := AWAITING_CLARIFICATION\<rparr>)"
  by (cases "ss_state s") (simp_all add: transition_def)

lemma transition_resolved:
  "transition s RESOLVED =
     (if ss_state s = RESOLVED
      then Inl (StateTransitionError (''session '' @ ss_session_id s @ '': illegal transition ''
             @ ''resolved'' @ '' -> '' @ ''resolved''))
      else Inr (s\<lparr>ss_state := RESOLVED\<rparr>))"
  by (cases "ss_state s") (simp_all add: transition_def)

text \<open>The machine as a step relation: one legal transition.\<close>

inductive clar_step :: "ClarificationState \<Rightarrow> ClarificationState \<Rightarrow> bool" where
  clar_step: "transition s q = Inr s' \<Longrightarrow> clar_step (ss_state s) q"

lemma clar_step_iff: "clar_step p q \<longleftrightarrow> q \<in> set (ALLOWED_TRANSITIONS p)"
proof
  assume "clar_step p q"
  then show "q \<in> set (ALLOWED_TRANSITIONS p)"
    by (auto elim!: clar_step.cases simp: transition_def split: if_splits)
next
  assume q: "q \<in> set (ALLOWED_TRANSITIONS p)"
  let ?s = "(new_session [])\<lparr>ss_state := p\<rparr>"
  have "transition ?s q = Inr (?s\<lparr>ss_state := q\<rparr>)" using q by (simp add: transition_def)
  then have "clar_step (ss_state ?s) q" by (rule clar_step)
  then show "clar_step p q" by simp
qed

inductive_cases clar_step_from_resolved: "clar_step RESOLVED q"

subsection \<open>The in-memory store with a time to live\<close>

record 'v ttl_store =
  st_ttl :: int
  st_entries :: "(string \<times> int \<times> 'v) list"

definition ttl_new :: "int \<Rightarrow> 'v ttl_store" where
  "ttl_new ttl = \<lparr>st_ttl = ttl, st_entries = []\<rparr>"

definition ttl_get :: "'v ttl_store \<Rightarrow> int \<Rightarrow> string \<Rightarrow> 'v option \<times> 'v ttl_store" where
  "ttl_get st now sid =
     (case map_of (st_entries st) sid of
        None \<Rightarrow> (None, st)
      | Some (expires_at, v) \<Rightarrow>
          if expires_at \<le> now then (None, st\<lparr>st_entries := AList.delete sid (st_entries st)\<rparr>)
          else (Some v, st))"

definition ttl_set :: "('v \<Rightarrow> string) \<Rightarrow> 'v ttl_store \<Rightarrow> int \<Rightarrow> 'v \<Rightarrow> 'v ttl_store" where
  "ttl_set key st now v =
     st\<lparr>st_entries := AList.update (key v) (now + st_ttl st, v) (st_entries st)\<rparr>"

definition ttl_delete :: "'v ttl_store \<Rightarrow> string \<Rightarrow> 'v ttl_store" where
  "ttl_delete st sid = st\<lparr>st_entries := AList.delete sid (st_entries st)\<rparr>"

text \<open>What a reader sees at time \<open>now\<close>: the abstraction of the store.\<close>

definition live :: "'v ttl_store \<Rightarrow> int \<Rightarrow> string \<Rightarrow> 'v option" where
  "live st now sid =
     (case map_of (st_entries st) sid of
        None \<Rightarrow> None
      | Some (expires_at, v) \<Rightarrow> if expires_at \<le> now then None else Some v)"

subsection \<open>The store contract\<close>

text \<open>
  A run of a store: reads, writes and deletes, the timed ones with their clock reading. The
  specification of a run is a map from session ids to the last write: when and what.
\<close>

datatype 'v store_op = OpGet int string | OpSet int 'v | OpDel string

fun run_ops :: "('s \<Rightarrow> int \<Rightarrow> string \<Rightarrow> 'v option \<times> 's) \<Rightarrow> ('s \<Rightarrow> int \<Rightarrow> 'v \<Rightarrow> 's) \<Rightarrow>
    ('s \<Rightarrow> string \<Rightarrow> 's) \<Rightarrow> 's \<Rightarrow> 'v store_op list \<Rightarrow> 's" where
  "run_ops get put del s [] = s"
| "run_ops get put del s (OpGet t k # ops) = run_ops get put del (snd (get s t k)) ops"
| "run_ops get put del s (OpSet t v # ops) = run_ops get put del (put s t v) ops"
| "run_ops get put del s (OpDel k # ops) = run_ops get put del (del s k) ops"

fun last_writes :: "('v \<Rightarrow> string) \<Rightarrow> (string \<rightharpoonup> int \<times> 'v) \<Rightarrow> 'v store_op list \<Rightarrow>
    (string \<rightharpoonup> int \<times> 'v)" where
  "last_writes key m [] = m"
| "last_writes key m (OpGet t k # ops) = last_writes key m ops"
| "last_writes key m (OpSet t v # ops) = last_writes key (m(key v \<mapsto> (t, v))) ops"
| "last_writes key m (OpDel k # ops) = last_writes key (m(k := None)) ops"

text \<open>Clock readings do not go back (\<open>time.monotonic\<close>), from \<open>t\<close> to \<open>t'\<close>.\<close>

fun in_order :: "int \<Rightarrow> 'v store_op list \<Rightarrow> int \<Rightarrow> bool" where
  "in_order t [] t' = (t \<le> t')"
| "in_order t (OpGet u k # ops) t' = (t \<le> u \<and> in_order u ops t')"
| "in_order t (OpSet u v # ops) t' = (t \<le> u \<and> in_order u ops t')"
| "in_order t (OpDel k # ops) t' = in_order t ops t'"

definition unexpired :: "int \<Rightarrow> int \<Rightarrow> (int \<times> 'v) option \<Rightarrow> 'v option" where
  "unexpired ttl now w =
     (case w of None \<Rightarrow> None | Some (t, v) \<Rightarrow> if now < t + ttl then Some v else None)"

lemma in_order_le: "in_order t ops t' \<Longrightarrow> t \<le> t'"
  by (induction t ops t' rule: in_order.induct) auto

text \<open>
  \<open>BaseSessionStore\<close> and \<open>BaseBriefingSessionStore\<close> as an interface: what a client of a
  session store may rely on, stated over the view \<open>look\<close> of the store at a time.
\<close>

locale session_store =
  fixes get :: "'s \<Rightarrow> int \<Rightarrow> string \<Rightarrow> 'v option \<times> 's"
    and put :: "'s \<Rightarrow> int \<Rightarrow> 'v \<Rightarrow> 's"
    and del :: "'s \<Rightarrow> string \<Rightarrow> 's"
    and look :: "'s \<Rightarrow> int \<Rightarrow> string \<Rightarrow> 'v option"
    and key :: "'v \<Rightarrow> string"
    and lifetime :: "'s \<Rightarrow> int"
  assumes get_value: "fst (get s t k) = look s t k"
    and get_frame: "t \<le> t' \<Longrightarrow> look (snd (get s t k)) t' k' = look s t' k'"
    and put_look: "look (put s t v) t' k =
           (if k = key v then (if t' < t + lifetime s then Some v else None) else look s t' k)"
    and del_look: "look (del s k) t' k' = (if k' = k then None else look s t' k')"
    and lifetime_get: "lifetime (snd (get s t k)) = lifetime s"
    and lifetime_put: "lifetime (put s t v) = lifetime s"
    and lifetime_del: "lifetime (del s k) = lifetime s"
begin

text \<open>A value written is read back until its time to live has passed, and not after.\<close>

lemma read_your_write:
  "fst (get (put s t v) t' (key v)) = (if t' < t + lifetime s then Some v else None)"
  by (simp add: get_value put_look)

lemma write_elsewhere: "k \<noteq> key v \<Longrightarrow> fst (get (put s t v) t' k) = fst (get s t' k)"
  by (simp add: get_value put_look)

lemma read_after_delete: "fst (get (del s k) t' k) = None"
  by (simp add: get_value del_look)

text \<open>Reading never hides a value from a later reader, and a second write wins.\<close>

lemma get_get: "t \<le> t' \<Longrightarrow> fst (get (snd (get s t k)) t' k') = fst (get s t' k')"
  by (simp add: get_value get_frame)

text \<open>A whole run refines its specification, key by key.\<close>

lemma run_refines:
  assumes "in_order t0 ops t'"
    and "\<forall>u k. t0 \<le> u \<longrightarrow> look s u k = unexpired (lifetime s) u (m k)"
  shows "look (run_ops get put del s ops) t' k =
           unexpired (lifetime s) t' (last_writes key m ops k)"
  using assms
proof (induction ops arbitrary: s m t0)
  case (Cons op ops)
  have step: "look (run_ops get put del s1 ops) t' k =
      unexpired (lifetime s) t' (last_writes key m1 ops k)"
    if "in_order t1 ops t'" "lifetime s1 = lifetime s"
      "\<forall>u k. t1 \<le> u \<longrightarrow> look s1 u k = unexpired (lifetime s) u (m1 k)" for s1 m1 t1
    using Cons.IH [of t1 s1 m1] that by simp
  show ?case
  proof (cases op)
    case (OpGet u j)
    then show ?thesis using step [of u "snd (get s u j)" m] Cons.prems
      by (simp add: lifetime_get get_frame)
  next
    case (OpSet u v)
    then show ?thesis using step [of u "put s u v" "m(key v \<mapsto> (u, v))"] Cons.prems
      by (auto simp: lifetime_put put_look unexpired_def)
  next
    case (OpDel j)
    then show ?thesis using step [of t0 "del s j" "m(j := None)"] Cons.prems
      by (auto simp: lifetime_del del_look unexpired_def)
  qed
qed simp

lemma write_refreshes:
  "key v = key w \<Longrightarrow> fst (get (put (put s t v) t1 w) t' (key v)) =
     (if t' < t1 + lifetime s then Some w else None)"
  by (simp add: get_value put_look lifetime_put)

end

lemma live_ttl_get: "t \<le> t' \<Longrightarrow> live (snd (ttl_get st t k)) t' k' = live st t' k'"
  by (auto simp: ttl_get_def live_def split: option.splits prod.splits)

lemma live_ttl_set:
  "live (ttl_set key st t v) t' k =
     (if k = key v then (if t' < t + st_ttl st then Some v else None) else live st t' k)"
  by (auto simp: ttl_set_def live_def)

lemma live_ttl_delete: "live (ttl_delete st k) t' k' = (if k' = k then None else live st t' k')"
  by (auto simp: ttl_delete_def live_def)

lemma fst_ttl_get [simp]: "fst (ttl_get st t k) = live st t k"
  by (auto simp: ttl_get_def live_def split: option.splits prod.splits)

lemma ttl_get_Some: "ttl_get st t k = (Some v, st') \<Longrightarrow> st' = st \<and> live st t k = Some v"
  by (auto simp: ttl_get_def live_def split: option.splits prod.splits if_splits)

lemma ttl_ttl_get [simp]: "st_ttl (snd (ttl_get st t k)) = st_ttl st"
  by (auto simp: ttl_get_def split: option.splits prod.splits)

lemma ttl_ttl_set [simp]: "st_ttl (ttl_set key st t v) = st_ttl st"
  by (simp add: ttl_set_def)

lemma ttl_ttl_delete [simp]: "st_ttl (ttl_delete st k) = st_ttl st"
  by (simp add: ttl_delete_def)

subsection \<open>The two in-memory stores\<close>

definition session_get ::
    "SessionState ttl_store \<Rightarrow> int \<Rightarrow> string \<Rightarrow> SessionState option \<times> SessionState ttl_store" where
  "session_get st now sid = ttl_get st now sid"

definition session_set :: "SessionState ttl_store \<Rightarrow> int \<Rightarrow> SessionState \<Rightarrow> SessionState ttl_store"
  where "session_set st now s = ttl_set ss_session_id st now s"

definition session_delete :: "SessionState ttl_store \<Rightarrow> string \<Rightarrow> SessionState ttl_store" where
  "session_delete st sid = ttl_delete st sid"

interpretation memory_sessions:
  session_store session_get session_set session_delete live ss_session_id st_ttl
  by unfold_locales
    (simp_all add: session_get_def session_set_def session_delete_def live_ttl_get live_ttl_set
      live_ttl_delete)

text \<open>
  A session object read from the in-memory store is the stored object itself, so a field
  assigned on it is visible in the store even when \<open>set\<close> is not called. \<open>session_alias\<close>
  is that effect: the stored value changes, its expiry does not.
\<close>

definition session_alias :: "SessionState ttl_store \<Rightarrow> SessionState \<Rightarrow> SessionState ttl_store" where
  "session_alias st s =
     (case map_of (st_entries st) (ss_session_id s) of
        None \<Rightarrow> st
      | Some (expires_at, _) \<Rightarrow>
          st\<lparr>st_entries := AList.update (ss_session_id s) (expires_at, s) (st_entries st)\<rparr>)"

lemma live_session_alias:
  "live (session_alias st s) t k =
     (if k = ss_session_id s then map_option (\<lambda>_. s) (live st t k) else live st t k)"
  by (auto simp: session_alias_def live_def split: option.splits prod.splits)

lemma live_ttl_new [simp]: "live (ttl_new ttl) t k = None"
  by (simp add: live_def ttl_new_def)

subsection \<open>Properties\<close>

text \<open>C29: after any sequence of reads, writes and deletes with clock readings that do not go
  back, reading a session returns exactly the last value written under its id and not deleted
  since, if less than the time to live has passed since that write, and nothing otherwise; lazy
  removal of expired entries is not observable.\<close>

theorem session_store_trace:
  assumes "in_order t0 ops t'"
  shows "fst (session_get (run_ops session_get session_set session_delete (ttl_new ttl) ops) t' sid)
       = unexpired ttl t' (last_writes ss_session_id Map.empty ops sid)"
  using memory_sessions.run_refines [OF assms, of "ttl_new ttl" Map.empty sid]
  by (simp add: memory_sessions.get_value unexpired_def ttl_new_def live_def)

theorem session_store_trace_witness:
  "fst (session_get (run_ops session_get session_set session_delete (ttl_new 10)
       [OpSet 0 (new_session ''a''), OpGet 4 ''b'', OpSet 5 ((new_session ''a'')\<lparr>ss_state := DISPATCHED\<rparr>)])
     14 ''a'') = Some ((new_session ''a'')\<lparr>ss_state := DISPATCHED\<rparr>)"
  by (subst session_store_trace [where ?t0.0 = 0]) (simp_all add: unexpired_def)

text \<open>Exactly the transitions of the table are taken; any other raises
  \<open>StateTransitionError\<close>, and a taken one changes the state only.\<close>

theorem transition_total:
  "(ss_state s = RESOLVED \<and> new \<in> {RESOLVED, IDLE} \<or> ss_state s = IDLE \<and> new = IDLE
      \<longleftrightarrow> (\<exists>m. transition s new = Inl (StateTransitionError m)))
   \<and> (\<not> (ss_state s = RESOLVED \<and> new \<in> {RESOLVED, IDLE} \<or> ss_state s = IDLE \<and> new = IDLE)
      \<longleftrightarrow> transition s new = Inr (s\<lparr>ss_state := new\<rparr>))"
  by (cases "ss_state s"; cases new) (simp_all add: transition_def)

end
