(* ===== verification/Conventions_Store.thy ===== *)
theory Conventions_Store
  imports Netra_Errors
begin

text \<open>
  \<open>memory/conventions_store.py\<close>: learned team conventions, keyed by the lower-cased project
  and term, kept in memory and written through to a JSON file by an atomic replace. The JSON
  text of a list of conventions (\<open>json.dumps\<close> of the pydantic dumps) and its reader are the
  parameters \<open>enc\<close> and \<open>dec\<close>; a file operation can fail at each of its three steps.
\<close>

definition INSTANCE_DEFAULT_PROJECT :: string where
  "INSTANCE_DEFAULT_PROJECT = ''_default''"

record Convention =
  cv_project :: string
  cv_term :: string
  cv_resolution_key :: string
  cv_jql_hint :: string
  cv_learned_at :: int

type_synonym conv_key = "string \<times> string"

record conv_store =
  cs_path :: string
  cs_items :: "(conv_key \<times> Convention) list"
  cs_file :: "string option"
  cs_tmp :: "string option"

definition conv_key :: "string \<Rightarrow> string \<Rightarrow> conv_key" where
  "conv_key project term = (lower project, lower term)"

definition key_of :: "Convention \<Rightarrow> conv_key" where
  "key_of c = conv_key (cv_project c) (cv_term c)"

subsection \<open>Loading and persisting\<close>

fun load_error :: "exn \<Rightarrow> bool" where
  "load_error (OSError _) = True"
| "load_error (JSONDecodeError _) = True"
| "load_error (ValidationError _) = True"
| "load_error (TypeError _) = True"
| "load_error _ = False"

definition conventions_load ::
    "(string \<Rightarrow> exn + Convention list) \<Rightarrow> string \<Rightarrow> string option \<Rightarrow> exn + (conv_key \<times> Convention) list"
  where
  "conventions_load dec path file =
     (case file of
        None \<Rightarrow> Inr []
      | Some txt \<Rightarrow>
          (case dec txt of
             Inl e \<Rightarrow>
               if load_error e then Inl (ConfigError (path @ '': cannot load conventions: '' @ exn_str e))
               else Inl e
           | Inr cs \<Rightarrow> Inr (dict_of (map (\<lambda>c. (key_of c, c)) cs))))"

datatype io_fault =
    IO_ok
  | Mkdir_fails string
  | Write_fails string "string option"
  | Replace_fails string

fun conventions_persist ::
    "(Convention list \<Rightarrow> string) \<Rightarrow> io_fault \<Rightarrow> conv_store \<Rightarrow> (exn + unit) \<times> conv_store" where
  "conventions_persist enc IO_ok st =
     (Inr (), st\<lparr>cs_file := Some (enc (map snd (cs_items st))), cs_tmp := None\<rparr>)"
| "conventions_persist enc (Mkdir_fails m) st = (Inl (OSError m), st)"
| "conventions_persist enc (Write_fails m left) st = (Inl (OSError m), st\<lparr>cs_tmp := left\<rparr>)"
| "conventions_persist enc (Replace_fails m) st =
     (Inl (OSError m), st\<lparr>cs_tmp := Some (enc (map snd (cs_items st)))\<rparr>)"

subsection \<open>Operations\<close>

definition conventions_get :: "conv_store \<Rightarrow> string \<Rightarrow> string \<Rightarrow> Convention option" where
  "conventions_get st project term =
     (case map_of (cs_items st) (conv_key project term) of
        Some c \<Rightarrow> Some c
      | None \<Rightarrow> map_of (cs_items st) (conv_key INSTANCE_DEFAULT_PROJECT term))"

definition conventions_set ::
    "(Convention list \<Rightarrow> string) \<Rightarrow> io_fault \<Rightarrow> conv_store \<Rightarrow> Convention \<Rightarrow> (exn + unit) \<times> conv_store"
  where
  "conventions_set enc io st c =
     conventions_persist enc io (st\<lparr>cs_items := AList.update (key_of c) c (cs_items st)\<rparr>)"

definition conventions_list_all :: "conv_store \<Rightarrow> Convention list" where
  "conventions_list_all st = map snd (cs_items st)"

definition conventions_delete ::
    "(Convention list \<Rightarrow> string) \<Rightarrow> io_fault \<Rightarrow> conv_store \<Rightarrow> string \<Rightarrow> string \<Rightarrow>
      (exn + bool) \<times> conv_store"
  where
  "conventions_delete enc io st project term =
     (let k = conv_key project term;
          st' = st\<lparr>cs_items := AList.delete k (cs_items st)\<rparr>
      in if map_of (cs_items st) k = None then (Inr False, st')
         else (case conventions_persist enc io st' of
                 (Inl e, st'') \<Rightarrow> (Inl e, st'')
               | (Inr _, st'') \<Rightarrow> (Inr True, st'')))"

lemma persist_items [simp]: "cs_items (snd (conventions_persist enc io st)) = cs_items st"
  by (cases io) auto

lemma set_items [simp]:
  "cs_items (snd (conventions_set enc io st c)) = AList.update (key_of c) c (cs_items st)"
  by (simp add: conventions_set_def)

lemma delete_items [simp]:
  "cs_items (snd (conventions_delete enc io st p t)) = AList.delete (conv_key p t) (cs_items st)"
  by (auto simp: conventions_delete_def Let_def split: prod.split sum.split
        dest!: arg_cong [where f = "\<lambda>r. cs_items (snd r)"])

lemma conv_key_lower [simp]: "conv_key (lower p) t = conv_key p t" "conv_key p (lower t) = conv_key p t"
  by (simp_all add: conv_key_def)

subsection \<open>The store contract\<close>

text \<open>
  \<open>BaseConventionsStore\<close> as an interface, over the exact lookup \<open>look\<close> by normalised key:
  the fallback chain of \<open>get\<close>, and what a write and a delete change.
\<close>

locale conventions =
  fixes get :: "'s \<Rightarrow> string \<Rightarrow> string \<Rightarrow> Convention option"
    and put :: "'s \<Rightarrow> Convention \<Rightarrow> 's"
    and del :: "'s \<Rightarrow> string \<Rightarrow> string \<Rightarrow> 's"
    and look :: "'s \<Rightarrow> conv_key \<Rightarrow> Convention option"
  assumes get_chain: "get s p t =
        (case look s (conv_key p t) of
           Some c \<Rightarrow> Some c | None \<Rightarrow> look s (conv_key INSTANCE_DEFAULT_PROJECT t))"
    and put_look: "look (put s c) k = (if k = key_of c then Some c else look s k)"
    and del_look: "look (del s p t) k = (if k = conv_key p t then None else look s k)"
begin

lemma get_ignores_case: "get s (lower p) (lower t) = get s p t"
  by (simp add: get_chain split: option.split)

lemma learned_exact: "get (put s c) (cv_project c) (cv_term c) = Some c"
  by (simp add: get_chain put_look key_of_def)

lemma learned_default:
  "cv_project c = INSTANCE_DEFAULT_PROJECT \<Longrightarrow> get (put s c) p (cv_term c) \<noteq> None"
  by (auto simp: get_chain put_look key_of_def split: option.split)

lemma put_keeps_known: "get s p t \<noteq> None \<Longrightarrow> get (put s c) p t \<noteq> None"
  by (auto simp: get_chain put_look split: option.splits if_splits)

lemma put_frame:
  "lower t \<noteq> lower (cv_term c) \<Longrightarrow> get (put s c) p t = get s p t"
  by (simp add: get_chain put_look key_of_def conv_key_def split: option.split)

lemma override_wins:
  "look s (conv_key p t) = Some c \<Longrightarrow> get s p t = Some c"
  by (simp add: get_chain)

lemma delete_exposes_default:
  "lower p \<noteq> lower INSTANCE_DEFAULT_PROJECT \<Longrightarrow>
     get (del s p t) p t = look s (conv_key INSTANCE_DEFAULT_PROJECT t)"
  by (simp add: get_chain del_look conv_key_def)

end

interpretation json_conventions:
  conventions conventions_get "\<lambda>st c. snd (conventions_set enc io st c)"
    "\<lambda>st p t. snd (conventions_delete enc io st p t)" "\<lambda>st. map_of (cs_items st)"
  for enc io
  by unfold_locales (simp_all add: conventions_get_def)

subsection \<open>Well-formed stores\<close>

definition conv_ok :: "(conv_key \<times> Convention) list \<Rightarrow> bool" where
  "conv_ok items \<longleftrightarrow> dict_ok items \<and> (\<forall>(k, c) \<in> set items. k = key_of c)"

lemma conv_ok_Nil [simp]: "conv_ok []"
  by (simp add: conv_ok_def)

lemma conv_ok_update [simp]: "conv_ok items \<Longrightarrow> conv_ok (AList.update (key_of c) c items)"
  using set_update_subset [of "key_of c" c items] by (auto simp: conv_ok_def)

lemma conv_ok_delete [simp]: "conv_ok items \<Longrightarrow> conv_ok (AList.delete k items)"
  using set_delete_subset [of k items] by (auto simp: conv_ok_def)

lemma conv_ok_dict_of: "conv_ok (dict_of (map (\<lambda>c. (key_of c, c)) cs))"
proof -
  have "conv_ok items \<Longrightarrow>
      conv_ok (foldl (\<lambda>d (k, v). AList.update k v d) items (map (\<lambda>c. (key_of c, c)) cs))" for items
    by (induction cs arbitrary: items) simp_all
  then show ?thesis by (simp add: dict_of_def)
qed

lemma conv_ok_values: "conv_ok items \<Longrightarrow> dict_of (map (\<lambda>c. (key_of c, c)) (map snd items)) = items"
proof -
  assume ok: "conv_ok items"
  then have "map (\<lambda>c. (key_of c, c)) (map snd items) = items"
    by (auto simp: conv_ok_def intro!: map_idI)
  then show ?thesis using ok by (simp add: conv_ok_def dict_of_id)
qed

lemma load_ok: "conventions_load dec path file = Inr items \<Longrightarrow> conv_ok items"
  by (auto simp: conventions_load_def conv_ok_dict_of split: option.splits sum.splits if_splits)

text \<open>A run of writes and deletes, each with the file fault it meets.\<close>

datatype conv_op = ConvSet io_fault Convention | ConvDelete io_fault string string

fun conv_step :: "(Convention list \<Rightarrow> string) \<Rightarrow> conv_store \<Rightarrow> conv_op \<Rightarrow> conv_store" where
  "conv_step enc st (ConvSet io c) = snd (conventions_set enc io st c)"
| "conv_step enc st (ConvDelete io p t) = snd (conventions_delete enc io st p t)"

definition conv_run :: "(Convention list \<Rightarrow> string) \<Rightarrow> conv_store \<Rightarrow> conv_op list \<Rightarrow> conv_store" where
  "conv_run enc st ops = foldl (conv_step enc) st ops"

lemma conv_run_ok: "conv_ok (cs_items st) \<Longrightarrow> conv_ok (cs_items (conv_run enc st ops))"
proof (induction ops arbitrary: st)
  case (Cons op ops)
  have "conv_ok (cs_items (conv_step enc st op))" using Cons.prems by (cases op) simp_all
  then show ?case using Cons.IH by (simp add: conv_run_def)
qed (simp add: conv_run_def)

subsection \<open>Properties\<close>

text \<open>The file write is atomic. Whatever step of a write fails, the conventions file is
  the old one and an \<open>OSError\<close> is raised; with no failure it is the JSON of the whole new
  store. The in-memory store has the new convention in either case.\<close>

theorem set_atomic:
  "(if io = IO_ok
    then fst (conventions_set enc io st c) = Inr () \<and>
         cs_file (snd (conventions_set enc io st c)) =
           Some (enc (conventions_list_all (snd (conventions_set enc io st c))))
    else (\<exists>m. fst (conventions_set enc io st c) = Inl (OSError m)) \<and>
         cs_file (snd (conventions_set enc io st c)) = cs_file st)
   \<and> map_of (cs_items (snd (conventions_set enc io st c))) =
       (map_of (cs_items st))(key_of c \<mapsto> c)"
  by (cases io) (auto simp: conventions_set_def conventions_list_all_def)

text \<open>Start from whatever the file loaded, run any writes and
  deletes with any file failures among them, then write one convention without failure:
  reloading the file gives exactly the in-memory store, in the same order.\<close>

lemma reload_codec:
  fixes enc st ops c
  defines "final \<equiv> snd (conventions_set enc IO_ok (conv_run enc st ops) c)"
  assumes codec: "dec (enc (conventions_list_all final)) = Inr (conventions_list_all final)"
    and start: "conventions_load dec path (cs_file st) = Inr (cs_items st)"
  shows "conventions_load dec path (cs_file final) = Inr (cs_items final)"
proof -
  have "conv_ok (cs_items (conv_run enc st ops))"
    by (rule conv_run_ok [OF load_ok [OF start]])
  then have "conv_ok (cs_items final)" by (simp add: final_def)
  then have "dict_of (map (\<lambda>c. (key_of c, c)) (conventions_list_all final)) = cs_items final"
    unfolding conventions_list_all_def by (rule conv_ok_values)
  moreover have "cs_file final = Some (enc (conventions_list_all final))"
    by (simp add: final_def conventions_set_def conventions_list_all_def)
  ultimately show ?thesis using codec by (simp add: conventions_load_def)
qed

definition sample_convention :: "string \<Rightarrow> string \<Rightarrow> Convention" where
  "sample_convention t hint = \<lparr>cv_project = INSTANCE_DEFAULT_PROJECT, cv_term = t,
     cv_resolution_key = ''label'', cv_jql_hint = hint, cv_learned_at = 0\<rparr>"

end
