(* ===== verification/Netra_Models.thy ===== *)
theory Netra_Models
  imports Session_Store Conventions_Store
begin

text \<open>
  The data models that cross component boundaries: \<open>models/lite.py\<close>,
  \<open>models/responses.py\<close>, \<open>models/clarification.py\<close>, \<open>models/jira.py\<close>,
  \<open>models/frontend.py\<close> and the Confluence reference and page models. Fields that the program
  only carries along without reading (backend metadata, token usage, the constant
  \<open>data_scope\<close>) are left out.
\<close>

subsection \<open>Python values of an issue dictionary\<close>

text \<open>
  An issue is a backend-defined dictionary of arbitrary values. The program asks a value two
  things only, its truth and its \<open>str\<close>; floats, lists and nested dictionaries are
  \<open>PObj\<close>, known by these two.
\<close>

datatype pyval = PNone | PBool bool | PInt int | PStr string | PObj string bool

fun py_truth :: "pyval \<Rightarrow> bool" where
  "py_truth PNone = False"
| "py_truth (PBool b) = b"
| "py_truth (PInt i) = (i \<noteq> 0)"
| "py_truth (PStr s) = (s \<noteq> [])"
| "py_truth (PObj _ t) = t"

fun py_str :: "pyval \<Rightarrow> string" where
  "py_str PNone = ''None''"
| "py_str (PBool b) = (if b then ''True'' else ''False'')"
| "py_str (PInt i) = show_int i"
| "py_str (PStr s) = s"
| "py_str (PObj s _) = s"

type_synonym issue = "(string \<times> pyval) list"

text \<open>\<open>issue.get(a) or issue.get(b, "")\<close>\<close>

definition get_either :: "issue \<Rightarrow> string \<Rightarrow> string \<Rightarrow> pyval" where
  "get_either issue a b =
     (case map_of issue a of
        Some v \<Rightarrow> if py_truth v then v else (case map_of issue b of None \<Rightarrow> PStr [] | Some w \<Rightarrow> w)
      | None \<Rightarrow> (case map_of issue b of None \<Rightarrow> PStr [] | Some w \<Rightarrow> w))"

subsection \<open>Backend query results\<close>

record ChartSpec =
  ch_type :: string
  ch_x_field :: "string option"
  ch_y_field :: "string option"
  ch_title :: "string option"
  ch_color_field :: "string option"

record ServerMeta =
  sm_model_name :: "string option"
  sm_llm_backend :: "string option"
  sm_llm_timeout :: "int option"

record TokenUsage =
  tu_system_tokens :: int
  tu_fields_tokens :: int
  tu_examples_tokens :: int
  tu_total_tokens :: int
  tu_retry_tokens :: int

definition token_usage :: TokenUsage where
  "token_usage = \<lparr>tu_system_tokens = 0, tu_fields_tokens = 0, tu_examples_tokens = 0, tu_total_tokens = 0,
     tu_retry_tokens = 0\<rparr>"

datatype answer_type = Jql | General_answer | Changelog
datatype jira_deployment = Cloud | Jira_server

record LiteQueryResult =
  lq_type :: answer_type
  lq_profile :: "string option"
  lq_jira_base_url :: "string option"
  lq_jira_type :: "jira_deployment option"
  lq_answer :: "string option"
  lq_jql :: "string option"
  lq_total :: int
  lq_shown :: int
  lq_examined :: int
  lq_display_fields :: "string list"
  lq_issues :: "issue list"
  lq_chart_spec :: "ChartSpec option"
  lq_filters :: "(string \<times> string list) list option"
  lq_meta :: "ServerMeta option"
  lq_token_usage :: "TokenUsage option"

text \<open>\<open>LiteQueryResult()\<close>: every field at its default.\<close>

definition lite_query_result :: LiteQueryResult where
  "lite_query_result = \<lparr>lq_type = General_answer, lq_profile = None, lq_jira_base_url = None, lq_jira_type = None,
     lq_answer = None, lq_jql = None, lq_total = 0, lq_shown = 0, lq_examined = 0, lq_display_fields = [],
     lq_issues = [], lq_chart_spec = None, lq_filters = None, lq_meta = None, lq_token_usage = None\<rparr>"

record LiteQueryRequest =
  qq_query :: string
  qq_request_id :: "string option"
  qq_limit :: "int option"

subsection \<open>Issue details\<close>

record IssueComment =
  ic_id :: string
  ic_author :: string
  ic_body :: string
  ic_created :: string
  ic_updated :: string

datatype link_direction = Outward | Inward

record IssueLink =
  il_type :: string
  il_direction :: link_direction
  il_linked_issue_key :: string
  il_linked_issue_summary :: "string option"

record ChangelogEntry =
  ce_field :: string
  ce_from_value :: "string option"
  ce_to_value :: string
  ce_author :: string
  ce_timestamp :: string

record IssueDetail =
  id_key :: string
  id_summary :: "string option"
  id_priority :: "string option"
  id_assignee :: "string option"
  id_due_date :: "string option"
  id_fix_versions :: "string list"
  id_flagged :: bool
  id_comments :: "IssueComment list"
  id_links :: "IssueLink list"
  id_changelog :: "ChangelogEntry list"

record IssueDetailsRequest =
  dq_issue_keys :: "string list"
  dq_request_id :: "string option"
  dq_comments_limit :: "int option"

record IssueDetailsResponse =
  dr_issues :: "IssueDetail list"
  dr_not_found :: "string list"
  dr_error :: "string option"

subsection \<open>Clarifier outputs, fields, acknowledgements\<close>

record TermResolutionOutput =
  to_term :: string
  to_resolution_key :: string
  to_jql_hint :: string

text \<open>The raw schema of a field is echoed, never read: here, its text.\<close>

record JiraField =
  jf_id :: string
  jf_name :: string
  jf_custom :: bool
  jf_field_schema :: "string option"
  jf_description :: "string option"

record InjectRequest =
  ir_query :: string
  ir_request_id :: "string option"

record InjectAck =
  ia_accepted :: bool
  ia_request_id :: "string option"
  ia_detail :: "string option"

definition inject_ack :: "bool \<Rightarrow> InjectAck" where
  "inject_ack accepted = \<lparr>ia_accepted = accepted, ia_request_id = None, ia_detail = None\<rparr>"

lemma inject_ack_simps [simp]:
  "ia_accepted (inject_ack b) = b" "ia_request_id (inject_ack b) = None" "ia_detail (inject_ack b) = None"
  by (simp_all add: inject_ack_def)

subsection \<open>Tool responses\<close>

record AppliedConvention =
  ac_term :: string
  ac_jql_hint :: string
  ac_source :: resolution_source

record QueryResponse =
  qr_session_id :: string
  qr_requires_user_input :: bool
  qr_clarification_question :: "string option"
  qr_answer :: "string option"
  qr_jql :: "string option"
  qr_total :: int
  qr_shown :: int
  qr_display_fields :: "string list"
  qr_issues :: "issue list"
  qr_chart_spec :: "ChartSpec option"
  qr_ui_injected :: bool
  qr_report_path :: "string option"
  qr_view_url :: "string option"
  qr_applied_conventions :: "AppliedConvention list"
  qr_errors :: "string list"
  qr_data_scope :: string

definition QUERY_DATA_SCOPE :: string where
  "QUERY_DATA_SCOPE = ''issue metadata only (key, summary, status, priority, assignee, dates). '' @
     ''Comment text, issue links, and changelog are not available via query_jira.''"

definition BRIEFING_DATA_SCOPE :: string where
  "BRIEFING_DATA_SCOPE = ''issue content (comments, links, changelog) from /issue_details, '' @
     ''analysed and ranked per agenda topic.''"

text \<open>\<open>QueryResponse(session_id=sid)\<close>: every other field at its default.\<close>

definition query_response :: "string \<Rightarrow> QueryResponse" where
  "query_response sid = \<lparr>qr_session_id = sid, qr_requires_user_input = False,
     qr_clarification_question = None, qr_answer = None, qr_jql = None, qr_total = 0,
     qr_shown = 0, qr_display_fields = [], qr_issues = [], qr_chart_spec = None,
     qr_ui_injected = False, qr_report_path = None, qr_view_url = None,
     qr_applied_conventions = [], qr_errors = [], qr_data_scope = QUERY_DATA_SCOPE\<rparr>"

lemma query_response_simps [simp]:
  "qr_session_id (query_response sid) = sid"
  "qr_requires_user_input (query_response sid) = False"
  "qr_clarification_question (query_response sid) = None"
  "qr_answer (query_response sid) = None" "qr_jql (query_response sid) = None"
  "qr_total (query_response sid) = 0" "qr_shown (query_response sid) = 0"
  "qr_display_fields (query_response sid) = []" "qr_issues (query_response sid) = []"
  "qr_chart_spec (query_response sid) = None" "qr_ui_injected (query_response sid) = False"
  "qr_report_path (query_response sid) = None" "qr_view_url (query_response sid) = None"
  "qr_applied_conventions (query_response sid) = []" "qr_errors (query_response sid) = []"
  "qr_data_scope (query_response sid) = QUERY_DATA_SCOPE"
  by (simp_all add: query_response_def)

record Citation =
  ct_issue_key :: string
  ct_comment_id :: "string option"

record ConfluenceReference =
  cr_page_id :: string
  cr_page_title :: string
  cr_cql_excerpt :: string
  cr_relevant_passage :: string

record IssueAnalysisSuggestions =
  sg_suggested_resolution :: string
  sg_mitigation :: string
  sg_risk_note :: string
  sg_evidence :: "Citation list"

record BlockerAnalysis =
  ba_issue_key :: string
  ba_summary :: string
  ba_blocked_reason :: string
  ba_days_blocked :: int
  ba_owner :: string
  ba_priority :: "string option"
  ba_dependent_issues :: "string list"
  ba_due_date :: "string option"
  ba_flagged :: bool
  ba_suggested_resolution :: string
  ba_mitigation :: string
  ba_risk_note :: string
  ba_evidence :: "Citation list"
  ba_score :: int
  ba_confluence_refs :: "ConfluenceReference list"

record AgendaTopic =
  at_topic_id :: string
  at_description :: string
  at_suggested_query :: string
  at_projects :: "string list"

record BriefingSection =
  bs_topic_id :: string
  bs_description :: string
  bs_query_used :: "string option"
  bs_jql :: "string option"
  bs_top_issues :: "BlockerAnalysis list"
  bs_total_found :: int
  bs_errors :: "string list"

record BriefingResponse =
  br_report_id :: string
  br_session_id :: string
  br_requires_user_input :: bool
  br_clarification_question :: "string option"
  br_pending_topic_id :: "string option"
  br_sections :: "BriefingSection list"
  br_report_path :: "string option"
  br_view_url :: "string option"
  br_errors :: "string list"
  br_data_scope :: string

definition briefing_response :: "string \<Rightarrow> string \<Rightarrow> BriefingResponse" where
  "briefing_response rid sid = \<lparr>br_report_id = rid, br_session_id = sid,
     br_requires_user_input = False, br_clarification_question = None,
     br_pending_topic_id = None, br_sections = [], br_report_path = None, br_view_url = None,
     br_errors = [], br_data_scope = BRIEFING_DATA_SCOPE\<rparr>"

record ReportResponse =
  rp_report_id :: string
  rp_sections :: "BriefingSection list"
  rp_report_path :: "string option"
  rp_view_url :: "string option"
  rp_errors :: "string list"
  rp_data_scope :: string

definition report_response :: "string \<Rightarrow> ReportResponse" where
  "report_response rid = \<lparr>rp_report_id = rid, rp_sections = [], rp_report_path = None, rp_view_url = None,
     rp_errors = [], rp_data_scope = BRIEFING_DATA_SCOPE\<rparr>"

lemma report_response_simps [simp]:
  "rp_report_id (report_response rid) = rid" "rp_sections (report_response rid) = []"
  "rp_report_path (report_response rid) = None" "rp_view_url (report_response rid) = None"
  "rp_errors (report_response rid) = []" "rp_data_scope (report_response rid) = BRIEFING_DATA_SCOPE"
  by (simp_all add: report_response_def)

record JiraContextResponse =
  jc_projects :: "string list"
  jc_fields :: "JiraField list"
  jc_priorities :: "string list"
  jc_issue_types :: "string list"

end
