(* ===== verification/Report_Synthesiser.thy ===== *)
theory Report_Synthesiser
  imports Netra_Models
begin

text \<open>
  \<open>core/report_synthesiser.py\<close> and \<open>ReportRenderer.build_view_url\<close>: the markdown report of
  one query and of one briefing. The time stamp (\<open>datetime.now(UTC).isoformat\<close>) is an
  argument. The line feed is character 10.
\<close>

definition LF :: string where
  "LF = [CHR 0x0A]"

definition cell :: "string \<Rightarrow> string" where
  "cell s = replace_char (CHR ''|'') [CHR 0x5C, CHR ''|'']
     (replace_char (CHR 0x0A) '' '' (replace_char (CHR 0x0D) '' '' s))"

definition default_columns :: "issue \<Rightarrow> string list" where
  "default_columns issue = take 8 (map fst issue)"

fun first_value :: "issue \<Rightarrow> string list \<Rightarrow> string" where
  "first_value issue [] = []"
| "first_value issue (candidate # rest) =
     (case map_of issue candidate of
        None \<Rightarrow> first_value issue rest
      | Some PNone \<Rightarrow> first_value issue rest
      | Some v \<Rightarrow> py_str v)"

definition issue_value :: "issue \<Rightarrow> string \<Rightarrow> string" where
  "issue_value issue column =
     (let low = lower column
      in first_value issue [column, low, replace_char (CHR '' '') [] low])"

definition table_row :: "string list \<Rightarrow> string" where
  "table_row cells = ''| '' @ join '' | '' cells @ '' |''"

definition issues_table :: "int \<Rightarrow> QueryResponse \<Rightarrow> string list" where
  "issues_table max_issues r =
     (let columns = (if qr_display_fields r = [] then default_columns (hd (qr_issues r))
                     else qr_display_fields r);
          omitted = int (length (qr_issues r)) - max_issues
      in [table_row (map cell columns), ''|'' @ concat (replicate (length columns) ''---|'')]
       @ map (\<lambda>issue. table_row (map (\<lambda>c. cell (issue_value issue c)) columns))
           (py_take max_issues (qr_issues r))
       @ (if 0 < omitted then [[], ''('' @ show_int omitted @ '' more rows omitted)''] else []))"

definition opt_str :: "string option \<Rightarrow> string" where
  "opt_str s = (case s of None \<Rightarrow> ''None'' | Some x \<Rightarrow> x)"

definition query_report_lines :: "int \<Rightarrow> string \<Rightarrow> string \<Rightarrow> QueryResponse \<Rightarrow> string list" where
  "query_report_lines max_issues timestamp query r =
     [''# AtlasMind query report'', [], ''- Generated: '' @ timestamp,
      ''- Session: '' @ qr_session_id r, [], ''## Query'', [], ''> '' @ cell query, []]
   @ (if qr_applied_conventions r = [] then []
      else [''## Applied interpretations'', [], ''| Term | JQL meaning | Source |'', ''|---|---|---|'']
         @ map (\<lambda>c. ''| '' @ cell (ac_term c) @ '' | `'' @ cell (ac_jql_hint c) @ ''` | ''
                    @ source_name (ac_source c) @ '' |'') (qr_applied_conventions r) @ [[]])
   @ (if given (qr_jql r)
      then [''## Generated JQL'', [], ''```jql'', the (qr_jql r), ''```'', []] else [])
   @ (if given (qr_answer r) then [''## Answer'', [], cell (the (qr_answer r)), []] else [])
   @ [''## Issues ('' @ show_int (qr_shown r) @ '' shown of '' @ show_int (qr_total r) @ '' total)'', []]
   @ (if qr_issues r = [] then [''(no issues returned)''] else issues_table max_issues r)
   @ [[]]
   @ (case qr_chart_spec r of
        None \<Rightarrow> []
      | Some spec \<Rightarrow>
          [''## Chart specification'', [], ''- type: '' @ ch_type spec,
           ''- x: '' @ opt_str (ch_x_field spec), ''- y: '' @ opt_str (ch_y_field spec),
           ''- color: '' @ opt_str (ch_color_field spec), ''- title: '' @ opt_str (ch_title spec),
           ''- rendered in browser UI: '' @ (if qr_ui_injected r then ''yes'' else ''no''), []])
   @ (if qr_errors r = [] then []
      else [''## Warnings'', []] @ map (\<lambda>e. ''- '' @ cell e) (qr_errors r) @ [[]])
   @ [''---'', [],
      ''Facts above come from Jira via the AtlasMind backend. Applied interpretations '' @
      ''are listed so a wrong assumption is caught here (design doc trust rules).'']"

definition build_query_report :: "int \<Rightarrow> string \<Rightarrow> string \<Rightarrow> QueryResponse \<Rightarrow> string" where
  "build_query_report max_issues timestamp query r =
     join LF (query_report_lines max_issues timestamp query r) @ LF"

definition citation_text :: "Citation \<Rightarrow> string" where
  "citation_text c = ct_issue_key c @
     (if given (ct_comment_id c) then '' comment '' @ the (ct_comment_id c) else [])"

definition issue_detail_lines :: "BlockerAnalysis \<Rightarrow> string list" where
  "issue_detail_lines a =
     [''### '' @ ba_issue_key a @ '': '' @ cell (ba_summary a), [],
      ''**Blocked reason (FACT):** '' @ cell (ba_blocked_reason a),
      ''**Dependent issues (FACT):** '' @
        (if ba_dependent_issues a = [] then ''none'' else join '', '' (ba_dependent_issues a)),
      ''**Citations:** '' @
        (if ba_evidence a = [] then ''none'' else join '', '' (map citation_text (ba_evidence a))),
      [],
      ''**Suggested resolution (AI SUGGESTION):** '' @ cell (ba_suggested_resolution a),
      ''**Mitigation (AI SUGGESTION):** '' @ cell (ba_mitigation a),
      ''**Risk (AI SUGGESTION):** '' @ cell (ba_risk_note a), []]"

definition ranked_row :: "nat \<Rightarrow> BlockerAnalysis \<Rightarrow> string" where
  "ranked_row rank a =
     ''| '' @ show_nat rank @ '' | '' @ cell (ba_issue_key a) @ '' | '' @ cell (ba_summary a)
     @ '' | '' @ cell (or_else (ba_priority a) ''-'') @ '' | '' @ show_int (ba_days_blocked a)
     @ '' | '' @ cell (ba_owner a) @ '' | '' @ show_int (ba_score a) @ '' |''"

definition section_lines :: "BriefingSection \<Rightarrow> string list" where
  "section_lines s =
     [''## '' @ bs_description s, [],
      ''- Query: '' @ cell (or_else (bs_query_used s) ''(none)''),
      ''- JQL: `'' @ cell (or_else (bs_jql s) ''(none)'') @ ''`'',
      ''- Total found: '' @ show_int (bs_total_found s),
      ''- Top '' @ show_nat (length (bs_top_issues s)) @ '' shown'', []]
   @ (if bs_errors s = [] then []
      else [''**Warnings:**''] @ map (\<lambda>e. ''- '' @ cell e) (bs_errors s) @ [[]])
   @ (if bs_top_issues s = [] then [''(no issues to display)'', [], ''---'', []]
      else [''| # | Key | Summary | Priority | Days Blocked | Owner | Score |'',
            ''|---|---|---|---|---|---|---|'']
         @ map2 ranked_row [1..<Suc (length (bs_top_issues s))] (bs_top_issues s) @ [[]]
         @ concat (map issue_detail_lines (bs_top_issues s)) @ [''---'', []])"

definition briefing_report_lines :: "string \<Rightarrow> string \<Rightarrow> BriefingSection list \<Rightarrow> string \<Rightarrow> string list"
  where
  "briefing_report_lines timestamp agenda_text sections session_id =
     [''# AtlasMind executive briefing'', [], ''- Generated: '' @ timestamp,
      ''- Session: '' @ session_id, ''- Topics: '' @ show_nat (length sections), [],
      ''## Agenda'', [], ''> '' @ cell (take 500 agenda_text), [], ''---'', []]
   @ concat (map section_lines sections)
   @ [''---'', [],
      ''**AI SUGGESTION** fields (suggested_resolution, mitigation, risk_note) are '' @
      ''LLM-generated and labelled as such. Facts (days_blocked, owner, priority, '' @
      ''blocked_reason) are derived from Jira data. Citations reference Jira issue keys '' @
      ''and comment IDs.'']"

definition build_briefing_report :: "string \<Rightarrow> string \<Rightarrow> BriefingSection list \<Rightarrow> string \<Rightarrow> string"
  where
  "build_briefing_report timestamp agenda_text sections session_id =
     join LF (briefing_report_lines timestamp agenda_text sections session_id) @ LF"

definition build_view_url :: "string option \<Rightarrow> string \<Rightarrow> string option" where
  "build_view_url base_url report_id =
     (case (if given base_url then Some (rstrip_char (CHR ''/'') (the base_url)) else None) of
        None \<Rightarrow> None
      | Some b \<Rightarrow> if b = [] then None else Some (b @ ''/report/'' @ report_id))"

subsection \<open>Table cells\<close>

text \<open>A line feed or carriage return never survives in a cell, and every pipe is escaped.\<close>

fun pipes_escaped :: "bool \<Rightarrow> string \<Rightarrow> bool" where
  "pipes_escaped b [] = True"
| "pipes_escaped b (c # s) = ((c = CHR ''|'' \<longrightarrow> b) \<and> pipes_escaped (c = CHR 0x5C) s)"

lemma cell_no_newline: "CHR 0x0A \<notin> set (cell s)" "CHR 0x0D \<notin> set (cell s)"
  unfolding cell_def by (rule replace_char_keeps_out, simp, rule replace_char_notin, simp)
    (rule replace_char_keeps_out, simp, rule replace_char_keeps_out, simp, rule replace_char_notin, simp)

lemma pipes_escaped_replace:
  "pipes_escaped b (replace_char (CHR ''|'') [CHR 0x5C, CHR ''|''] s)"
  by (induction s arbitrary: b) (auto simp: replace_char_def)

lemma cell_pipes_escaped: "pipes_escaped False (cell s)"
  unfolding cell_def by (rule pipes_escaped_replace)

text \<open>The number of pipes a markdown reader takes as column separators.\<close>

fun separators :: "bool \<Rightarrow> string \<Rightarrow> nat" where
  "separators b [] = 0"
| "separators b (c # s) =
     (if c = CHR ''|'' \<and> \<not> b then 1 else 0) + separators (c = CHR 0x5C) s"

lemma separators_escaped: "pipes_escaped b s \<Longrightarrow> separators b s = 0"
  by (induction b s rule: pipes_escaped.induct) auto

lemma separators_append_space:
  "separators b (s @ CHR '' '' # t) = separators b s + separators False t"
  by (induction b s rule: separators.induct) auto

lemma cell_pipes_escaped_any: "pipes_escaped b (cell s)"
  unfolding cell_def by (rule pipes_escaped_replace)

lemma separators_join:
  "cells \<noteq> [] \<Longrightarrow> \<forall>c \<in> set cells. \<forall>b. pipes_escaped b c \<Longrightarrow>
     separators False (join '' | '' cells @ '' |'') = length cells"
proof (induction "'' | ''" cells rule: join.induct)
  case (2 x)
  then show ?case by (simp add: separators_append_space separators_escaped)
next
  case (3 x y xs)
  let ?R = "join '' | '' (y # xs) @ '' |''"
  have "separators False (x @ CHR '' '' # CHR ''|'' # CHR '' '' # ?R) =
      separators False x + separators False (CHR ''|'' # CHR '' '' # ?R)"
    by (rule separators_append_space)
  moreover have "separators False x = 0"
    using 3(3) by (intro separators_escaped) simp
  moreover have "separators False (CHR ''|'' # CHR '' '' # ?R) = Suc (separators False ?R)" by simp
  moreover have "separators False ?R = length (y # xs)"
    using 3 by simp
  ultimately show ?case by simp
qed simp

lemma table_row_separators:
  "cells \<noteq> [] \<Longrightarrow> \<forall>c \<in> set cells. \<forall>b. pipes_escaped b c \<Longrightarrow>
     separators False (table_row cells) = Suc (length cells)"
  using separators_join [of cells] by (simp add: table_row_def)

lemma join_no_char: "c \<notin> set sep \<Longrightarrow> \<forall>x \<in> set xs. c \<notin> set x \<Longrightarrow> c \<notin> set (join sep xs)"
  by (induction sep xs rule: join.induct) auto

subsection \<open>Properties\<close>

text \<open>The issue table of a query report is well formed whatever text the backend sends. It
  has a header and a rule line, then one row for each issue up to the cap; header and rows all
  have the same number of column separators, one more than there are columns, and no line
  breaks; rows beyond the cap are announced by their number.\<close>

theorem issues_table_shape:
  fixes r m
  defines "columns \<equiv> (if qr_display_fields r = [] then default_columns (hd (qr_issues r))
                      else qr_display_fields r)"
  assumes "columns \<noteq> []" and "0 \<le> m"
  shows "\<exists>header rule rows. issues_table m r = [header, rule] @ rows @
      (if m < int (length (qr_issues r))
       then [[], ''('' @ show_int (int (length (qr_issues r)) - m) @ '' more rows omitted)''] else [])
    \<and> length rows = min (nat m) (length (qr_issues r))
    \<and> (\<forall>row \<in> set (header # rows). separators False row = Suc (length columns)
         \<and> CHR 0x0A \<notin> set row \<and> CHR 0x0D \<notin> set row)"
proof -
  have row: "separators False (table_row (map f columns)) = Suc (length columns)
      \<and> CHR 0x0A \<notin> set (table_row (map f columns)) \<and> CHR 0x0D \<notin> set (table_row (map f columns))"
    if "\<And>x. \<exists>y. f x = cell y" for f
  proof -
    have cells: "\<forall>c \<in> set (map f columns). (\<forall>b. pipes_escaped b c) \<and> CHR 0x0A \<notin> set c \<and> CHR 0x0D \<notin> set c"
      using that by (metis (no_types, lifting) cell_no_newline cell_pipes_escaped_any ex_map_conv)
    have "map f columns \<noteq> []" using assms(2) by simp
    then have "separators False (table_row (map f columns)) = Suc (length (map f columns))"
      using cells by (intro table_row_separators) blast+
    moreover have "CHR 0x0A \<notin> set (table_row (map f columns))"
      "CHR 0x0D \<notin> set (table_row (map f columns))"
      using cells join_no_char [of "CHR 0x0A" "'' | ''" "map f columns"]
        join_no_char [of "CHR 0x0D" "'' | ''" "map f columns"]
      by (auto simp: table_row_def)
    ultimately show ?thesis by simp
  qed
  let ?rows = "map (\<lambda>issue. table_row (map (\<lambda>c. cell (issue_value issue c)) columns))
      (py_take m (qr_issues r))"
  show ?thesis
  proof (intro exI conjI)
    show "issues_table m r = [table_row (map cell columns), ''|'' @ concat (replicate (length columns) ''---|'')]
        @ ?rows @ (if m < int (length (qr_issues r))
       then [[], ''('' @ show_int (int (length (qr_issues r)) - m) @ '' more rows omitted)''] else [])"
      by (simp add: issues_table_def Let_def columns_def)
    show "length ?rows = min (nat m) (length (qr_issues r))"
      using assms(3) by (simp add: py_take_def min.commute)
    show "\<forall>row \<in> set (table_row (map cell columns) # ?rows). separators False row = Suc (length columns)
         \<and> CHR 0x0A \<notin> set row \<and> CHR 0x0D \<notin> set row"
      using row by (auto intro!: row)
  qed
qed

theorem issues_table_shape_witness:
  "\<exists>header rule rows. issues_table 1
       ((query_response ''s'')\<lparr>qr_issues := [[(''key'', PStr ''A|1'')], [(''key'', PStr ''B-2'')]]\<rparr>)
     = [header, rule] @ rows @ [[], ''(1 more rows omitted)''] \<and> length rows = 1
     \<and> (\<forall>row \<in> set (header # rows). separators False row = 2
          \<and> CHR 0x0A \<notin> set row \<and> CHR 0x0D \<notin> set row)"
proof -
  have "show_int 1 = ''1''" by code_simp
  then show ?thesis
    using issues_table_shape [of "(query_response ''s'')\<lparr>qr_issues :=
      [[(''key'', PStr ''A|1'')], [(''key'', PStr ''B-2'')]]\<rparr>" 1]
    by (simp add: default_columns_def numeral_2_eq_2)
qed

end
