(* ===== verification/Orchestrator.thy ===== *)
theory Orchestrator
  imports Vocabulary Report_Synthesiser
begin

text \<open>
  \<open>core/orchestrator.py\<close>: the clarification loop of \<open>query_jira\<close>. The state is the session
  store, the conventions store and the list of the calls made so far to the outside (LLM, host,
  backend, UI bridge, file system). What the outside answers is an oracle that may depend on all
  calls before it, so that a theorem over every environment covers every behaviour of the
  collaborators. The in-memory session store hands out the stored object itself: when a call
  raises before \<open>set\<close>, the assignments made so far stay visible (\<open>session_alias\<close>).
\<close>

subsection \<open>Environment, settings, state\<close>

datatype call =
    CFormulate string "string list"
  | CElicit string
  | CResolve string "string list" string
  | CLearn string
  | CQuery string "int option"
  | CInject string
  | CDeliver string string

record env =
  e_formulate :: "call list \<Rightarrow> string \<Rightarrow> string list \<Rightarrow> vocab \<Rightarrow> Convention list \<Rightarrow> JiraField list
                   \<Rightarrow> exn + string"
  e_resolve :: "call list \<Rightarrow> string \<Rightarrow> string list \<Rightarrow> string \<Rightarrow> vocab \<Rightarrow> exn + TermResolutionOutput list"
  e_elicit :: "(call list \<Rightarrow> string \<Rightarrow> string option) option"
  e_query :: "call list \<Rightarrow> string \<Rightarrow> int option \<Rightarrow> exn + LiteQueryResult"
  e_inject :: "call list \<Rightarrow> string \<Rightarrow> InjectAck"
  e_deliver :: "call list \<Rightarrow> string \<Rightarrow> string \<Rightarrow> exn + string"
  e_load_fields :: "exn + JiraField list"
  e_conv_enc :: "Convention list \<Rightarrow> string"
  e_conv_io :: "call list \<Rightarrow> io_fault"
  e_clock :: "call list \<Rightarrow> int"
  e_utc :: "call list \<Rightarrow> int"
  e_isoformat :: "call list \<Rightarrow> string"
  e_stamp :: "call list \<Rightarrow> string"
  e_hex8 :: "call list \<Rightarrow> string"

record settings =
  s_max_rounds :: int
  s_max_fields_in_prompt :: int
  s_delivery_enabled :: bool
  s_max_issues :: int
  s_renderer :: "string option option"

record orch =
  o_sessions :: "SessionState ttl_store"
  o_convs :: conv_store
  o_calls :: "call list"

record qargs =
  q_query :: string
  q_session_id :: string
  q_clarification_answer :: "string option"
  q_limit :: "int option"
  q_show_in_ui :: bool

definition log_call :: "call \<Rightarrow> orch \<Rightarrow> orch" where
  "log_call c st = st\<lparr>o_calls := o_calls st @ [c]\<rparr>"

lemma log_call_simps [simp]:
  "o_sessions (log_call c st) = o_sessions st" "o_convs (log_call c st) = o_convs st"
  "o_calls (log_call c st) = o_calls st @ [c]"
  by (simp_all add: log_call_def)

subsection \<open>\<open>_split_resolved\<close>\<close>

fun split_onto :: "conv_store \<Rightarrow> SessionState \<Rightarrow> (string \<times> TermResolution) list \<Rightarrow> string list \<Rightarrow>
    string list \<Rightarrow> (string \<times> TermResolution) list \<times> string list" where
  "split_onto convs s active unresolved [] = (active, unresolved)"
| "split_onto convs s active unresolved (term # terms) =
     (case map_of (ss_resolutions s) term of
        Some r \<Rightarrow> split_onto convs s (AList.update term r active) unresolved terms
      | None \<Rightarrow>
          (case conventions_get convs INSTANCE_DEFAULT_PROJECT term of
             Some c \<Rightarrow>
               split_onto convs s
                 (AList.update term \<lparr>tr_term = term, tr_resolution_key = cv_resolution_key c,
                    tr_jql_hint = cv_jql_hint c, tr_source = FromConvention\<rparr> active)
                 unresolved terms
           | None \<Rightarrow> split_onto convs s active (unresolved @ [term]) terms))"

definition split_resolved :: "conv_store \<Rightarrow> SessionState \<Rightarrow> string list \<Rightarrow>
    (string \<times> TermResolution) list \<times> string list" where
  "split_resolved convs s terms = split_onto convs s [] [] terms"

subsection \<open>\<open>_resolve_and_learn\<close>\<close>

fun learn_items :: "env \<Rightarrow> TermResolutionOutput list \<Rightarrow> SessionState \<Rightarrow> orch \<Rightarrow>
    (exn + unit) \<times> SessionState \<times> orch" where
  "learn_items env [] s st = (Inr (), s, st)"
| "learn_items env (item # items) s st =
     (let t = lower (to_term item);
          s' = s\<lparr>ss_resolutions := AList.update t \<lparr>tr_term = t,
                   tr_resolution_key = to_resolution_key item, tr_jql_hint = to_jql_hint item,
                   tr_source = FromClarification\<rparr> (ss_resolutions s)\<rparr>;
          written = conventions_set (e_conv_enc env) (e_conv_io env (o_calls st)) (o_convs st)
                   \<lparr>cv_project = INSTANCE_DEFAULT_PROJECT, cv_term = t,
                    cv_resolution_key = to_resolution_key item, cv_jql_hint = to_jql_hint item,
                    cv_learned_at = e_utc env (o_calls st)\<rparr>;
          st' = log_call (CLearn t) (st\<lparr>o_convs := snd written\<rparr>)
      in case fst written of
           Inl e \<Rightarrow> (Inl e, s', st')
         | Inr _ \<Rightarrow> learn_items env items s' st')"

definition resolve_and_learn :: "env \<Rightarrow> vocab \<Rightarrow> SessionState \<Rightarrow> string \<Rightarrow> string list \<Rightarrow> string \<Rightarrow>
    orch \<Rightarrow> (exn + unit) \<times> SessionState \<times> orch" where
  "resolve_and_learn env v s query terms answer st =
     (let resolved = e_resolve env (o_calls st) query terms answer (entries_for v terms);
          st' = log_call (CResolve query terms answer) st
      in case resolved of
           Inl e \<Rightarrow> (Inl e, s, st')
         | Inr items \<Rightarrow> learn_items env items s st')"

subsection \<open>\<open>_with_report\<close>\<close>

text \<open>\<open>re.sub(r"[^A-Za-z0-9_-]", "-", s)\<close>: a one-character class, replaced one by one.\<close>

definition slug_char :: "char \<Rightarrow> bool" where
  "slug_char c \<longleftrightarrow> is_digit c \<or> is_ascii_upper c \<or> is_ascii_lower c \<or> c = CHR ''_'' \<or> c = CHR ''-''"

definition slugify :: "string \<Rightarrow> string" where
  "slugify s = map (\<lambda>c. if slug_char c then c else CHR ''-'') s"

definition query_report_id :: "env \<Rightarrow> call list \<Rightarrow> string \<Rightarrow> string" where
  "query_report_id env calls session_id =
     e_stamp env calls @ ''_'' @ take 40 (slugify session_id) @ ''_'' @ take 8 (e_hex8 env calls)"

definition with_report :: "settings \<Rightarrow> env \<Rightarrow> string \<Rightarrow> QueryResponse \<Rightarrow> orch \<Rightarrow>
    (exn + QueryResponse) \<times> orch" where
  "with_report cfg env query response st =
     (if \<not> s_delivery_enabled cfg then (Inr response, st)
      else
        let report_id = query_report_id env (o_calls st) (qr_session_id response);
            content = build_query_report (s_max_issues cfg) (e_isoformat env (o_calls st)) query response;
            st' = log_call (CDeliver report_id content) st
        in case e_deliver env (o_calls st) report_id content of
             Inl e \<Rightarrow>
               if is_OSError e \<or> is_NetraError e
               then (Inr (response\<lparr>qr_errors := qr_errors response @
                              [''report not written: '' @ exn_str e]\<rparr>), st')
               else (Inl e, st')
           | Inr location \<Rightarrow>
               (Inr (response\<lparr>qr_report_path := Some location,
                  qr_view_url := (case s_renderer cfg of
                                    None \<Rightarrow> None
                                  | Some base_url \<Rightarrow> build_view_url base_url report_id)\<rparr>), st'))"

subsection \<open>\<open>_dispatch\<close>\<close>

definition arrow_hints :: "(string \<times> TermResolution) list \<Rightarrow> string" where
  "arrow_hints active = join ''; '' (map (\<lambda>(_, r). tr_term r @ '' -> '' @ tr_jql_hint r) active)"

definition enriched :: "string \<Rightarrow> (string \<times> TermResolution) list \<Rightarrow> string" where
  "enriched query active =
     (if active = [] then query
      else query @ '' (interpretation hints: '' @ arrow_hints active @ '')'')"

definition QUOTE :: string where
  "QUOTE = [CHR 0x22]"

definition applied_of :: "(string \<times> TermResolution) list \<Rightarrow> AppliedConvention list" where
  "applied_of active = map (\<lambda>(_, r). \<lparr>ac_term = tr_term r, ac_jql_hint = tr_jql_hint r,
                                    ac_source = tr_source r\<rparr>) active"

definition failure_question :: "string \<Rightarrow> (string \<times> TermResolution) list \<Rightarrow> string" where
  "failure_question error_msg active =
     ''The query could not be executed: '' @ take 300 error_msg @ ''. '' @
     ''I applied these interpretations: '' @
     join ''; '' (map (\<lambda>(_, r). QUOTE @ tr_term r @ QUOTE @ '' as '' @ tr_jql_hint r) active) @ ''. '' @
     ''If any are wrong, please clarify or rephrase your query.''"

definition failure_response :: "SessionState \<Rightarrow> (string \<times> TermResolution) list \<Rightarrow> string list \<Rightarrow>
    string \<Rightarrow> QueryResponse" where
  "failure_response s active errors error_msg =
     (let base = (query_response (ss_session_id s))\<lparr>qr_applied_conventions := applied_of active,
                    qr_errors := errors @ [error_msg]\<rparr>
      in if active \<noteq> [] \<and> \<not> startswith error_msg ''backend unreachable after retries''
         then base\<lparr>qr_requires_user_input := True,
                    qr_clarification_question := Some (failure_question error_msg active)\<rparr>
         else base)"

definition zero_question :: "string option \<Rightarrow> (string \<times> TermResolution) list \<Rightarrow> string" where
  "zero_question jql active =
     ''The query returned zero results'' @
     (if given jql then '' (JQL used: `'' @ the jql @ ''`)'' else []) @ ''.'' @
     (if active = [] then []
      else '' I applied these field interpretations: '' @
        join ''; '' (map (\<lambda>(_, r). QUOTE @ tr_term r @ QUOTE @ '' -> '' @ tr_jql_hint r) active) @ ''.'') @
     '' '' @
     ''This usually means a field name or field value does not match what is '' @
     ''configured on your Jira instance. Could you please verify: '' @
     ''(1) the exact field names available on your Jira instance, '' @
     ''(2) the exact allowed values for those fields (e.g. status names, priority names, '' @
     ''labels, issue types), and (3) the project key? '' @
     ''Please rephrase your query with the correct field names and values, '' @
     ''or let me know which part to correct.''"

definition zero_response :: "SessionState \<Rightarrow> (string \<times> TermResolution) list \<Rightarrow> string list \<Rightarrow>
    LiteQueryResult \<Rightarrow> QueryResponse" where
  "zero_response s active errors result =
     (query_response (ss_session_id s))\<lparr>qr_requires_user_input := True,
        qr_clarification_question := Some (zero_question (lq_jql result) active),
        qr_jql := lq_jql result, qr_applied_conventions := applied_of active, qr_errors := errors\<rparr>"

text \<open>The optional push of the result to the browser UI: injected or not, errors, state.\<close>

definition show_in_ui_step :: "env \<Rightarrow> bool \<Rightarrow> LiteQueryResult \<Rightarrow> string list \<Rightarrow> orch \<Rightarrow>
    bool \<times> string list \<times> orch" where
  "show_in_ui_step env show_in_ui result errors st =
     (if \<not> show_in_ui then (False, errors, st)
      else if given (lq_jql result) then
        let text = the (lq_jql result) @ '' /raw'';
            ack = e_inject env (o_calls st) text;
            st' = log_call (CInject text) st
        in (ia_accepted ack,
            if ia_accepted ack then errors
            else errors @ [''chart not shown in UI: '' @ or_else (ia_detail ack) ''rejected''], st')
      else (False, errors @ [''chart not shown in UI: no JQL was generated''], st))"

definition result_response :: "SessionState \<Rightarrow> (string \<times> TermResolution) list \<Rightarrow> LiteQueryResult \<Rightarrow>
    bool \<Rightarrow> string list \<Rightarrow> QueryResponse" where
  "result_response s active result ui_injected errors =
     (query_response (ss_session_id s))\<lparr>qr_answer := lq_answer result, qr_jql := lq_jql result,
        qr_total := lq_total result, qr_shown := lq_shown result,
        qr_display_fields := lq_display_fields result, qr_issues := lq_issues result,
        qr_chart_spec := lq_chart_spec result, qr_ui_injected := ui_injected,
        qr_applied_conventions := applied_of active, qr_errors := errors\<rparr>"

definition clear_pending :: "SessionState \<Rightarrow> SessionState" where
  "clear_pending s = s\<lparr>ss_pending_query := None, ss_pending_terms := [],
     ss_pending_question := None, ss_clarification_rounds := 0\<rparr>"

definition store_session :: "env \<Rightarrow> SessionState \<Rightarrow> orch \<Rightarrow> orch" where
  "store_session env s st =
     st\<lparr>o_sessions := session_set (o_sessions st) (e_clock env (o_calls st)) s\<rparr>"

definition dispatch :: "settings \<Rightarrow> env \<Rightarrow> SessionState \<Rightarrow> string \<Rightarrow> (string \<times> TermResolution) list \<Rightarrow>
    int option \<Rightarrow> string list \<Rightarrow> bool \<Rightarrow> orch \<Rightarrow> (exn + QueryResponse) \<times> orch" where
  "dispatch cfg env s query active limit errors show_in_ui st =
     (case transition s DISPATCHED of
        Inl e \<Rightarrow> (Inl e, st)
      | Inr s' \<Rightarrow>
          let s2 = clear_pending s';
              st1 = store_session env s2 st;
              text = enriched query active;
              st2 = log_call (CQuery text limit) st1
          in case e_query env (o_calls st1) text limit of
               Inl e \<Rightarrow>
                 if is_LiteBackendError e
                 then with_report cfg env query (failure_response s2 active errors (exn_str e)) st2
                 else (Inl e, st2)
             | Inr result \<Rightarrow>
                 if lq_total result = 0
                 then with_report cfg env query (zero_response s2 active errors result) st2
                 else
                   (case show_in_ui_step env show_in_ui result errors st2 of
                      (injected, errors', st3) \<Rightarrow>
                        with_report cfg env query
                          (result_response s2 active result injected errors') st3))"

subsection \<open>\<open>handle_query\<close>\<close>

definition question_response :: "string \<Rightarrow> string \<Rightarrow> QueryResponse" where
  "question_response sid question =
     (query_response sid)\<lparr>qr_requires_user_input := True, qr_clarification_question := Some question\<rparr>"

text \<open>Leaving by an exception: an aliased session keeps its assignments in the store.\<close>

definition raise_with :: "exn \<Rightarrow> bool \<Rightarrow> SessionState \<Rightarrow> orch \<Rightarrow> (exn + QueryResponse) \<times> orch" where
  "raise_with e aliased s st =
     (Inl e, if aliased then st\<lparr>o_sessions := session_alias (o_sessions st) s\<rparr> else st)"

definition exhausted_warning :: "string list \<Rightarrow> string" where
  "exhausted_warning terms =
     ''clarification rounds exhausted; dispatched with unresolved terms: '' @ join '', '' terms"

text \<open>The terms just answered join the active ones.\<close>

definition activate :: "SessionState \<Rightarrow> string list \<Rightarrow> (string \<times> TermResolution) list \<Rightarrow>
    (string \<times> TermResolution) list" where
  "activate s terms active =
     foldl (\<lambda>act t. case map_of (ss_resolutions s) t of None \<Rightarrow> act | Some r \<Rightarrow> AList.update t r act)
       active terms"

definition ask_question :: "settings \<Rightarrow> env \<Rightarrow> vocab \<Rightarrow> qargs \<Rightarrow> string \<Rightarrow> SessionState \<Rightarrow> bool \<Rightarrow>
    (string \<times> TermResolution) list \<Rightarrow> string list \<Rightarrow> string \<Rightarrow> orch \<Rightarrow> (exn + QueryResponse) \<times> orch"
  where
  "ask_question cfg env v a query s aliased active unresolved question st =
     (let s1 = s\<lparr>ss_clarification_rounds := ss_clarification_rounds s + 1\<rparr>;
          answer = (case e_elicit env of None \<Rightarrow> None | Some el \<Rightarrow> el (o_calls st) question);
          st1 = (if e_elicit env = None then st else log_call (CElicit question) st)
      in if given answer then
           (case resolve_and_learn env v s1 query unresolved (the answer) st1 of
              (Inl e, s2, st2) \<Rightarrow> raise_with e aliased s2 st2
            | (Inr _, s2, st2) \<Rightarrow>
                (case transition s2 RESOLVED of
                   Inl e \<Rightarrow> raise_with e aliased s2 st2
                 | Inr s3 \<Rightarrow> dispatch cfg env s3 query (activate s2 unresolved active) (q_limit a) []
                              (q_show_in_ui a) st2))
         else
           (case transition s1 AWAITING_CLARIFICATION of
              Inl e \<Rightarrow> raise_with e aliased s1 st1
            | Inr s2 \<Rightarrow>
                (Inr (question_response (q_session_id a) question),
                 store_session env (s2\<lparr>ss_pending_query := Some query,
                   ss_pending_terms := unresolved, ss_pending_question := Some question\<rparr>) st1)))"

definition clarify_and_dispatch :: "settings \<Rightarrow> env \<Rightarrow> vocab \<Rightarrow> qargs \<Rightarrow> string \<Rightarrow> SessionState \<Rightarrow> bool \<Rightarrow>
    orch \<Rightarrow> (exn + QueryResponse) \<times> orch" where
  "clarify_and_dispatch cfg env v a query s aliased st =
     (let terms = detect v query
      in case split_resolved (o_convs st) s terms of
        (active, unresolved) \<Rightarrow>
          if unresolved = [] then
            dispatch cfg env s query active (q_limit a) [] (q_show_in_ui a) st
          else if s_max_rounds cfg \<le> ss_clarification_rounds s then
            dispatch cfg env s query active (q_limit a) [exhausted_warning unresolved]
              (q_show_in_ui a) st
          else
            (case e_load_fields env of
               Inl e \<Rightarrow> raise_with e aliased s st
             | Inr known_fields \<Rightarrow>
                 let st1 = log_call (CFormulate query unresolved) st
                 in case e_formulate env (o_calls st) query unresolved (entries_for v unresolved)
                           (conventions_list_all (o_convs st))
                           (py_take (s_max_fields_in_prompt cfg) known_fields) of
                      Inl e \<Rightarrow>
                        if is_ClarificationError e
                        then dispatch cfg env s query active (q_limit a)
                               [''clarification unavailable: '' @ exn_str e] (q_show_in_ui a) st1
                        else raise_with e aliased s st1
                    | Inr question \<Rightarrow>
                        ask_question cfg env v a query s aliased active unresolved question st1))"

definition handle_query :: "settings \<Rightarrow> env \<Rightarrow> vocab \<Rightarrow> qargs \<Rightarrow> orch \<Rightarrow> (exn + QueryResponse) \<times> orch" where
  "handle_query cfg env v a st =
     (let sid = q_session_id a;
          got = session_get (o_sessions st) (e_clock env (o_calls st)) sid;
          st1 = st\<lparr>o_sessions := snd got\<rparr>;
          aliased = (fst got \<noteq> None);
          s = (case fst got of None \<Rightarrow> new_session sid | Some s \<Rightarrow> s)
      in if ss_state s = AWAITING_CLARIFICATION then
           (if given (q_clarification_answer a) then
              let query = or_else (ss_pending_query s) (q_query a)
              in case resolve_and_learn env v s query (ss_pending_terms s)
                        (the (q_clarification_answer a)) st1 of
                   (Inl e, s1, st2) \<Rightarrow> raise_with e aliased s1 st2
                 | (Inr _, s1, st2) \<Rightarrow>
                     (case transition s1 RESOLVED of
                        Inl e \<Rightarrow> raise_with e aliased s1 st2
                      | Inr s2 \<Rightarrow> clarify_and_dispatch cfg env v a query s2 aliased st2)
            else if ss_pending_query s = Some (q_query a) \<and> given (ss_pending_question s) then
              (Inr (question_response sid (the (ss_pending_question s))), store_session env s st1)
            else clarify_and_dispatch cfg env v a (q_query a) (new_session sid) False st1)
         else clarify_and_dispatch cfg env v a (q_query a) s aliased st1)"

end
