(* ===== verification/Report_Ids.thy ===== *)
theory Report_Ids
  imports Orchestrator
begin

text \<open>
  Report ids: the two generators (\<open>_make_report_id\<close> of \<open>core/briefing_orchestrator.py\<close>,
  \<open>_with_report\<close> of \<open>core/orchestrator.py\<close>) and the two filters a report id passes before it
  becomes part of a path (\<open>_is_safe_report_id\<close>, and the \<open>/report/{report_id}\<close> route of
  \<open>server.py\<close>). The time stamp and the random hexadecimal digits are arguments.
\<close>

definition make_report_id :: "string \<Rightarrow> string \<Rightarrow> string \<Rightarrow> string" where
  "make_report_id stamp hex session_id =
     ''briefing_'' @ stamp @ ''_'' @ take 40 (slugify session_id) @ ''_'' @ take 8 hex"

definition REPORT_ID_RE :: re where
  "REPORT_ID_RE = Seq BeginS (Seq (Cls slug_char) (Seq (Upto 127 (Cls slug_char)) EndS))"

definition is_safe_report_id :: "string \<Rightarrow> bool" where
  "is_safe_report_id s \<longleftrightarrow>
     s \<noteq> [] \<and> length s \<le> 128 \<and>
     \<not> (contains s ''/'' \<or> contains s [CHR 0x5C] \<or> contains s ''..'') \<and> re_match REPORT_ID_RE s"

definition served_report_id :: "string \<Rightarrow> bool" where
  "served_report_id s \<longleftrightarrow>
     re_fullmatch (Seq (Cls (\<lambda>c. slug_char c \<and> c \<noteq> CHR ''-'')) (Upto 79 (Cls slug_char))) s"

subsection \<open>What the filters accept\<close>

lemma slug_char_not [simp]:
  "\<not> slug_char (CHR ''/'')" "\<not> slug_char (CHR 0x5C)" "\<not> slug_char (CHR ''.'')" "\<not> slug_char (CHR 0x0A)"
  by (simp_all add: slug_char_def is_digit_def is_ascii_upper_def is_ascii_lower_def ord_of_def)

lemma slugify_chars: "list_all slug_char (slugify s)"
  by (auto simp: slugify_def list_all_iff slug_char_def)

lemma take_slugs: "list_all p s \<Longrightarrow> list_all p (take n s)"
  by (auto simp: list_all_iff dest: in_set_takeD)

lemma ends_report_id:
  "re_match REPORT_ID_RE s \<longleftrightarrow>
     (\<exists>j. 1 \<le> j \<and> j \<le> 128 \<and> j \<le> length s \<and> (\<forall>k < j. slug_char (s ! k)) \<and> at_dollar s j)"
proof -
  have "j \<in> set (ends REPORT_ID_RE s 0) \<longleftrightarrow>
      0 < length s \<and> slug_char (s ! 0) \<and> j \<in> set (iter (ends (Cls slug_char) s) 127 1) \<and> at_dollar s j" for j
    by (auto simp: REPORT_ID_RE_def simp del: iter.simps split: if_splits)
  moreover have "0 < length s \<and> slug_char (s ! 0) \<and> j \<in> set (iter (ends (Cls slug_char) s) 127 1) \<longleftrightarrow>
      1 \<le> j \<and> j \<le> 128 \<and> j \<le> length s \<and> (\<forall>k < j. slug_char (s ! k))" (is "?L \<longleftrightarrow> ?R") for j
  proof
    assume l: ?L
    have "slug_char (s ! k)" if "k < j" for k
      using l that unfolding set_iter_class by (cases k) auto
    then show ?R using l unfolding set_iter_class by (auto simp: Suc_le_eq)
  next
    assume ?R
    then show ?L unfolding set_iter_class by (auto simp: Suc_le_eq)
  qed
  ultimately show ?thesis unfolding re_match_def ends_nonempty by blast
qed

lemma at_dollar_iff:
  assumes j: "j \<le> length s"
  shows "at_dollar s j \<longleftrightarrow> drop j s \<in> {[], [CHR 0x0A]}"
proof -
  have "ord_of (CHR 0x0A) = 10" by (simp add: ord_of_def)
  then have lf: "ord_of c = 10 \<longleftrightarrow> c = CHR 0x0A" for c using ord_of_inj [of c "CHR 0x0A"] by simp
  show ?thesis
  proof (cases "j = length s")
    case False
    then have d: "drop j s = s ! j # drop (Suc j) s" using j by (simp add: Cons_nth_drop_Suc)
    then show ?thesis using False j by (auto simp: at_dollar_def lf)
  qed (simp add: at_dollar_def)
qed

lemma re_match_report_id:
  "re_match REPORT_ID_RE s \<longleftrightarrow>
     (\<exists>t nl. s = t @ nl \<and> t \<noteq> [] \<and> length t \<le> 128 \<and> list_all slug_char t \<and> nl \<in> {[], [CHR 0x0A]})"
proof
  assume "re_match REPORT_ID_RE s"
  then obtain j where j: "1 \<le> j" "j \<le> 128" "j \<le> length s" "\<forall>k < j. slug_char (s ! k)" "at_dollar s j"
    unfolding ends_report_id by blast
  have "list_all slug_char (take j s)" using j by (simp add: list_all_length)
  moreover have "drop j s \<in> {[], [CHR 0x0A]}" using j(3,5) at_dollar_iff by blast
  ultimately show "\<exists>t nl. s = t @ nl \<and> t \<noteq> [] \<and> length t \<le> 128 \<and> list_all slug_char t \<and> nl \<in> {[], [CHR 0x0A]}"
    using j by (intro exI [of _ "take j s"] exI [of _ "drop j s"]) auto
next
  assume "\<exists>t nl. s = t @ nl \<and> t \<noteq> [] \<and> length t \<le> 128 \<and> list_all slug_char t \<and> nl \<in> {[], [CHR 0x0A]}"
  then obtain t nl where t: "s = t @ nl" "t \<noteq> []" "length t \<le> 128" "list_all slug_char t" "nl \<in> {[], [CHR 0x0A]}"
    by blast
  have "at_dollar s (length t)" using t by (subst at_dollar_iff) auto
  moreover have "\<forall>k < length t. slug_char (s ! k)" using t by (simp add: nth_append list_all_length)
  moreover have "1 \<le> length t" using t(2) by (simp add: Suc_leI)
  ultimately show "re_match REPORT_ID_RE s" unfolding ends_report_id using t(1,3) by auto
qed

lemma served_iff:
  "served_report_id s \<longleftrightarrow> s \<noteq> [] \<and> length s \<le> 80 \<and> list_all slug_char s \<and> hd s \<noteq> CHR ''-''"
proof -
  have "served_report_id s \<longleftrightarrow> 0 < length s \<and> slug_char (s ! 0) \<and> s ! 0 \<noteq> CHR ''-'' \<and>
      length s \<in> set (iter (ends (Cls slug_char) s) 79 1)"
    by (auto simp: served_report_id_def re_fullmatch_def simp del: iter.simps split: if_splits)
  also have "\<dots> \<longleftrightarrow> 0 < length s \<and> length s \<le> 80 \<and> (\<forall>k < length s. slug_char (s ! k)) \<and> s ! 0 \<noteq> CHR ''-''"
    (is "?L \<longleftrightarrow> ?R")
  proof
    assume l: ?L
    have "slug_char (s ! k)" if "k < length s" for k
      using l that unfolding set_iter_class by (cases k) auto
    then show ?R using l unfolding set_iter_class by (auto simp: Suc_le_eq)
  next
    assume ?R
    then show ?L unfolding set_iter_class by (auto simp: Suc_le_eq)
  qed
  finally show ?thesis by (auto simp: list_all_length hd_conv_nth)
qed

lemma slugs_clean: "list_all slug_char t \<Longrightarrow> \<not> slug_char c \<Longrightarrow> c \<notin> set t"
  by (auto simp: list_all_iff)

lemma contains_in_set: "contains s (c # cs) \<Longrightarrow> c \<in> set s"
  by (auto simp: contains_iff_sublist)

lemma is_safe_iff:
  "is_safe_report_id s \<longleftrightarrow>
     (\<exists>t nl. s = t @ nl \<and> t \<noteq> [] \<and> length s \<le> 128 \<and> list_all slug_char t \<and> nl \<in> {[], [CHR 0x0A]})"
proof
  assume "is_safe_report_id s"
  then show "\<exists>t nl. s = t @ nl \<and> t \<noteq> [] \<and> length s \<le> 128 \<and> list_all slug_char t \<and> nl \<in> {[], [CHR 0x0A]}"
    unfolding is_safe_report_id_def re_match_report_id by blast
next
  assume "\<exists>t nl. s = t @ nl \<and> t \<noteq> [] \<and> length s \<le> 128 \<and> list_all slug_char t \<and> nl \<in> {[], [CHR 0x0A]}"
  then obtain t nl where t: "s = t @ nl" "t \<noteq> []" "length s \<le> 128" "list_all slug_char t" "nl \<in> {[], [CHR 0x0A]}"
    by blast
  have clean: "c \<notin> set s" if "\<not> slug_char c" "c \<noteq> CHR 0x0A" for c
    using t(1,5) slugs_clean [OF t(4) that(1)] that(2) by (elim insertE) simp_all
  have "CHR ''/'' \<notin> set s" "CHR 0x5C \<notin> set s" "CHR ''.'' \<notin> set s" by (rule clean; simp)+
  then have "\<not> (contains s ''/'' \<or> contains s [CHR 0x5C] \<or> contains s ''..'')"
    using contains_in_set by metis
  moreover have "re_match REPORT_ID_RE s" unfolding re_match_report_id
    by (intro exI [of _ t] exI [of _ nl]) (use t in auto)
  ultimately show "is_safe_report_id s" using t by (simp add: is_safe_report_id_def)
qed

lemma generated_pass:
  assumes "length stamp = 15" "list_all (\<lambda>c. is_digit c \<or> c = CHR ''_'') stamp" "list_all slug_char (take 8 hex)"
  shows "is_safe_report_id (make_report_id stamp hex sid) \<and> served_report_id (make_report_id stamp hex sid) \<and>
     is_safe_report_id (stamp @ ''_'' @ take 40 (slugify sid) @ ''_'' @ take 8 hex) \<and>
     served_report_id (stamp @ ''_'' @ take 40 (slugify sid) @ ''_'' @ take 8 hex)"
proof -
  let ?q = "stamp @ ''_'' @ take 40 (slugify sid) @ ''_'' @ take 8 hex"
  let ?b = "''briefing_'' @ ?q"
  have st: "list_all slug_char stamp" using assms(2) by (auto simp: list_all_iff slug_char_def)
  have under: "slug_char (CHR ''_'')" by (simp add: slug_char_def)
  have q: "list_all slug_char ?q" using st under assms(3) take_slugs [OF slugify_chars] by simp
  have b: "list_all slug_char ?b" using q by (simp add: slug_char_def is_ascii_lower_def ord_of_def)
  have len: "length ?q \<le> 65" "?q \<noteq> []" using assms(1) by auto
  obtain c cs where cs: "stamp = c # cs" using assms(1) by (cases stamp) auto
  then have "hd ?q \<noteq> CHR ''-''" using assms(2) by (auto simp: is_digit_def ord_of_def)
  then have "served_report_id ?q" unfolding served_iff using q len by simp
  moreover have "served_report_id ?b" unfolding served_iff using b len by simp
  moreover have "is_safe_report_id ?q" unfolding is_safe_iff
    by (intro exI [of _ ?q] exI [of _ "[]"]) (use q len in simp)
  moreover have "is_safe_report_id ?b" unfolding is_safe_iff
    by (intro exI [of _ ?b] exI [of _ "[]"]) (use b len in simp)
  ultimately show ?thesis by (simp add: make_report_id_def)
qed

lemma generated_safe:
  "length stamp = 15 \<Longrightarrow> list_all (\<lambda>c. is_digit c \<or> c = CHR ''_'') stamp \<Longrightarrow>
     list_all slug_char (take 8 hex) \<Longrightarrow> is_safe_report_id (make_report_id stamp hex sid)"
  using generated_pass [of stamp hex sid] by blast

subsection \<open>Properties\<close>

text \<open>What \<open>_is_safe_report_id\<close> accepts, exactly: up to 128 characters, all letters, digits,
  dashes or underscores, but for one line feed that may follow at the end (\<open>$\<close> matches before
  it). So no path separator and no dot gets through.\<close>

theorem safe_report_ids:
  "is_safe_report_id s \<longleftrightarrow>
     (\<exists>t nl. s = t @ nl \<and> t \<noteq> [] \<and> length s \<le> 128 \<and> list_all slug_char t \<and> nl \<in> {[], [CHR 0x0A]})"
  by (rule is_safe_iff)

text \<open>Every id the two generators make, for any session id, passes both filters, so that a
  report that was written can be fetched by its id from the tool and from the web route.\<close>

theorem generated_ids_pass:
  assumes "length stamp = 15" "list_all (\<lambda>c. is_digit c \<or> c = CHR ''_'') stamp" "list_all slug_char (take 8 hex)"
  shows "is_safe_report_id (make_report_id stamp hex sid) \<and> served_report_id (make_report_id stamp hex sid) \<and>
     is_safe_report_id (stamp @ ''_'' @ take 40 (slugify sid) @ ''_'' @ take 8 hex) \<and>
     served_report_id (stamp @ ''_'' @ take 40 (slugify sid) @ ''_'' @ take 8 hex)"
  by (rule generated_pass [OF assms])

theorem generated_ids_pass_witness:
  "served_report_id (make_report_id ''20240229_101500'' ''9f8e7d6c5b4a'' ''user/../42'')"
proof -
  have "list_all (\<lambda>c. is_digit c \<or> c = CHR ''_'') ''20240229_101500''" "list_all slug_char (take 8 ''9f8e7d6c5b4a'')"
    by code_simp+
  from generated_ids_pass [OF _ this, of "''user/../42''"] show ?thesis by simp
qed

end
