(* ===== verification/Py_Date.thy ===== *)
theory Py_Date
  imports Py_Str
begin

text \<open>
  \<open>datetime.date\<close>: a date is its proleptic Gregorian ordinal (1 January of year 1 is day 1),
  so that \<open>(a - b).days\<close> is the difference of ordinals. \<open>date_fromisoformat\<close> reads the
  formats that \<open>date.fromisoformat\<close> documents; \<open>None\<close> is its \<open>ValueError\<close>.
\<close>

definition is_leap :: "int \<Rightarrow> bool" where
  "is_leap y \<longleftrightarrow> y mod 4 = 0 \<and> (y mod 100 \<noteq> 0 \<or> y mod 400 = 0)"

definition days_before_year :: "int \<Rightarrow> int" where
  "days_before_year y = (y - 1) * 365 + (y - 1) div 4 - (y - 1) div 100 + (y - 1) div 400"

definition days_in_month :: "int \<Rightarrow> int \<Rightarrow> int" where
  "days_in_month y m =
     (if m = 2 then (if is_leap y then 29 else 28) else if m \<in> {4, 6, 9, 11} then 30 else 31)"

definition days_before_month :: "int \<Rightarrow> int \<Rightarrow> int" where
  "days_before_month y m = sum_list (map (days_in_month y) [1..m - 1])"

definition valid_ymd :: "int \<Rightarrow> int \<Rightarrow> int \<Rightarrow> bool" where
  "valid_ymd y m d \<longleftrightarrow> 1 \<le> y \<and> y \<le> 9999 \<and> 1 \<le> m \<and> m \<le> 12 \<and> 1 \<le> d \<and> d \<le> days_in_month y m"

definition ymd_ordinal :: "int \<Rightarrow> int \<Rightarrow> int \<Rightarrow> int" where
  "ymd_ordinal y m d = days_before_year y + days_before_month y m + d"

subsection \<open>ISO weeks\<close>

definition iso_week1_monday :: "int \<Rightarrow> int" where
  "iso_week1_monday y =
     (let first_day = ymd_ordinal y 1 1; first_weekday = (first_day + 6) mod 7;
          monday = first_day - first_weekday
      in if 3 < first_weekday then monday + 7 else monday)"

definition max_ordinal :: int where
  "max_ordinal = 3652059"

definition week_ordinal :: "int \<Rightarrow> int \<Rightarrow> int \<Rightarrow> int option" where
  "week_ordinal y w d =
     (let n = iso_week1_monday y + (w - 1) * 7 + (d - 1);
          weeks = (iso_week1_monday (y + 1) - iso_week1_monday y) div 7
      in if 1 \<le> y \<and> y \<le> 9999 \<and> 1 \<le> w \<and> w \<le> weeks \<and> 1 \<le> d \<and> d \<le> 7 \<and> 1 \<le> n \<and> n \<le> max_ordinal
         then Some n else None)"

subsection \<open>Parsing\<close>

fun digits_onto :: "int \<Rightarrow> string \<Rightarrow> int option" where
  "digits_onto n [] = Some n"
| "digits_onto n (c # cs) =
     (if is_digit c then digits_onto (10 * n + int (ord_of c) - 48) cs else None)"

definition number :: "string \<Rightarrow> int option" where
  "number s = (if s = [] then None else digits_onto 0 s)"

definition ymd_date :: "string \<Rightarrow> string \<Rightarrow> string \<Rightarrow> int option" where
  "ymd_date ys ms ds =
     (case (number ys, number ms, number ds) of
        (Some y, Some m, Some d) \<Rightarrow> if valid_ymd y m d then Some (ymd_ordinal y m d) else None
      | _ \<Rightarrow> None)"

definition week_date :: "string \<Rightarrow> string \<Rightarrow> string \<Rightarrow> int option" where
  "week_date ys ws ds =
     (case (number ys, number ws, number ds) of
        (Some y, Some w, Some d) \<Rightarrow> week_ordinal y w d
      | _ \<Rightarrow> None)"

text \<open>\<open>YYYY-MM-DD\<close>, \<open>YYYYMMDD\<close>, \<open>YYYY-Www-D\<close>, \<open>YYYYWwwD\<close>, \<open>YYYY-Www\<close>, \<open>YYYYWww\<close>.\<close>

definition date_fromisoformat :: "string \<Rightarrow> int option" where
  "date_fromisoformat s =
     (let year = take 4 s; rest = drop 4 s in
      case rest of
        [CHR ''-'', CHR ''W'', w1, w2] \<Rightarrow> week_date year [w1, w2] ''1''
      | [CHR ''-'', CHR ''W'', w1, w2, CHR ''-'', d] \<Rightarrow> week_date year [w1, w2] [d]
      | [CHR ''W'', w1, w2] \<Rightarrow> week_date year [w1, w2] ''1''
      | [CHR ''W'', w1, w2, d] \<Rightarrow> week_date year [w1, w2] [d]
      | [CHR ''-'', m1, m2, CHR ''-'', d1, d2] \<Rightarrow> ymd_date year [m1, m2] [d1, d2]
      | [m1, m2, d1, d2] \<Rightarrow> ymd_date year [m1, m2] [d1, d2]
      | _ \<Rightarrow> None)"

lemma iso_examples:
  "date_fromisoformat ''9999-12-31'' = Some max_ordinal" "date_fromisoformat ''2023-02-29'' = None"
  "date_fromisoformat ''2024-W09-4'' = date_fromisoformat ''20240229''"
  by code_simp+

subsection \<open>Ordinals count days\<close>

lemma days_in_month_pos: "28 \<le> days_in_month y m" "days_in_month y m \<le> 31"
  by (auto simp: days_in_month_def)

lemma days_before_month_Suc: "1 \<le> m \<Longrightarrow> days_before_month y (m + 1) = days_before_month y m + days_in_month y m"
  by (simp add: days_before_month_def upto_rec2)

text \<open>The first of a month follows the last day of the month before, the first of January the
  last of December.\<close>

lemma next_month: "1 \<le> m \<Longrightarrow> ymd_ordinal y (m + 1) 1 = ymd_ordinal y m (days_in_month y m) + 1"
  by (simp add: ymd_ordinal_def days_before_month_Suc)

lemma div_step:
  fixes y k :: int
  assumes k: "0 < k"
  shows "y div k = (y - 1) div k + (if y mod k = 0 then 1 else 0)"
proof -
  have y: "y = k * (y div k) + y mod k" by simp
  have r: "0 \<le> y mod k" "y mod k < k" using k by simp_all
  show ?thesis
  proof (cases "y mod k = 0")
    case True
    then have "y - 1 = k * (y div k - 1) + (k - 1)" using y by (simp add: right_diff_distrib)
    then have "(y - 1) div k = y div k - 1" using k
      by (intro int_div_pos_eq [of _ _ _ "k - 1"]) auto
    then show ?thesis using True by simp
  next
    case False
    then have "(y - 1) div k = y div k"
      using y r by (intro int_div_pos_eq [of _ _ _ "y mod k - 1"]) auto
    then show ?thesis using False by simp
  qed
qed

lemma mod_chain: "y mod 400 = 0 \<Longrightarrow> y mod 100 = 0" "y mod 100 = 0 \<Longrightarrow> y mod 4 = 0" for y :: int
  by presburger+

lemma next_year: "ymd_ordinal (y + 1) 1 1 = ymd_ordinal y 12 31 + 1"
proof -
  have "days_before_month y 12 = (if is_leap y then 335 else 334)"
    by (simp add: days_before_month_def upto.simps days_in_month_def)
  moreover have "days_before_year (y + 1) = days_before_year y + 365 + (if y mod 4 = 0 then 1 else 0)
      - (if y mod 100 = 0 then 1 else 0) + (if y mod 400 = 0 then 1 else 0)"
  proof -
    have e: "y + 1 - 1 = y" by simp
    have lin: "y * 365 + (a + i) - (b + j) + (c + k) = ((y - 1) * 365 + a - b + c) + 365 + i - j + k"
      for a b c i j k :: int
      by simp
    show ?thesis unfolding days_before_year_def e
      by (subst div_step [of 4 y], simp, subst div_step [of 100 y], simp, subst div_step [of 400 y], simp)
        (rule lin)
  qed
  moreover have "(if y mod 4 = 0 then 1 else 0) - (if y mod 100 = 0 then 1 else 0)
      + (if y mod 400 = 0 then 1 else 0) = (if is_leap y then 1 else (0 :: int))"
  proof -
    have rule: "(c \<Longrightarrow> b) \<Longrightarrow> (b \<Longrightarrow> a) \<Longrightarrow> (if a then 1 else 0) - (if b then 1 else 0) +
        (if c then 1 else 0) = (if a \<and> (\<not> b \<or> c) then 1 else (0 :: int))" for a b c
      by auto
    show ?thesis unfolding is_leap_def by (rule rule [OF mod_chain])
  qed
  moreover have "days_before_month (y + 1) 1 = 0" by (simp add: days_before_month_def)
  ultimately show ?thesis unfolding ymd_ordinal_def by (simp split: if_splits)
qed

end
