(* ===== verification/Ranking.thy ===== *)
theory Ranking
  imports Netra_Models Py_Date
begin

text \<open>
  \<open>core/ranking_engine.py\<close> and \<open>models/ranking.py\<close>: the score of an analysis and the
  top-N ranking. The weights are integers, so the float sum of the code is exact (all partial
  sums are integers, far below \<open>2 ^ 53\<close> for any weights in use) and is modelled by \<open>int\<close>.
  \<open>today\<close> is an ordinal.
\<close>

subsection \<open>The rule\<close>

record PriorityWeights =
  pw_Blocker :: int
  pw_Critical :: int
  pw_High :: int
  pw_default :: int

record DaysBlockedWeights =
  dw_per_day :: int
  dw_cap :: int

record DependentIssuesWeights =
  iw_per_issue :: int
  iw_cap :: int

record MilestoneProximityWeights =
  mw_due_within_7d :: int
  mw_due_within_14d :: int

record RankingWeights =
  rw_priority :: PriorityWeights
  rw_days_blocked :: DaysBlockedWeights
  rw_dependent_issues :: DependentIssuesWeights
  rw_milestone_proximity :: MilestoneProximityWeights
  rw_flagged :: int

record RankingRule =
  rr_weights :: RankingWeights
  rr_top_n :: int

definition default_rule :: RankingRule where
  "default_rule = \<lparr>rr_weights = \<lparr>
       rw_priority = \<lparr>pw_Blocker = 40, pw_Critical = 30, pw_High = 15, pw_default = 0\<rparr>,
       rw_days_blocked = \<lparr>dw_per_day = 2, dw_cap = 30\<rparr>,
       rw_dependent_issues = \<lparr>iw_per_issue = 5, iw_cap = 25\<rparr>,
       rw_milestone_proximity = \<lparr>mw_due_within_7d = 20, mw_due_within_14d = 10\<rparr>,
       rw_flagged = 10\<rparr>, rr_top_n = 5\<rparr>"

text \<open>Loading: the result of reading the file, of \<open>json.loads\<close> and of the pydantic validation.\<close>

definition load_ranking_rule :: "string \<Rightarrow> exn + string \<Rightarrow> (string \<Rightarrow> exn + 'j) \<Rightarrow>
    ('j \<Rightarrow> exn + RankingRule) \<Rightarrow> exn + RankingRule" where
  "load_ranking_rule path txt loads validate =
     (case (case txt of Inl e \<Rightarrow> Inl e | Inr t \<Rightarrow> loads t) of
        Inl (OSError m) \<Rightarrow> Inl (ConfigError (path @ '': cannot read ranking rule: '' @ m))
      | Inl (JSONDecodeError m) \<Rightarrow> Inl (ConfigError (path @ '': invalid JSON in ranking rule: '' @ m))
      | Inl e \<Rightarrow> Inl e
      | Inr raw \<Rightarrow>
          (case validate raw of
             Inl e \<Rightarrow> if is_ValueError e
               then Inl (ConfigError (path @ '': ranking rule does not match schema: '' @ exn_str e))
               else Inl e
           | Inr rule \<Rightarrow> Inr rule))"

subsection \<open>Scores\<close>

definition priority_map :: "PriorityWeights \<Rightarrow> (string \<times> int) list" where
  "priority_map w = [(''Blocker'', pw_Blocker w), (''Critical'', pw_Critical w),
     (''High'', pw_High w), (''default'', pw_default w)]"

definition priority_score :: "PriorityWeights \<Rightarrow> string option \<Rightarrow> int" where
  "priority_score w p =
     (case map_of (priority_map w) (or_else p []) of None \<Rightarrow> pw_default w | Some x \<Rightarrow> x)"

definition due_score :: "MilestoneProximityWeights \<Rightarrow> int \<Rightarrow> string option \<Rightarrow> int" where
  "due_score w today due_date =
     (if given due_date then
        (case date_fromisoformat (the due_date) of
           None \<Rightarrow> 0
         | Some due \<Rightarrow>
             let days_until_due = due - today
             in if 0 \<le> days_until_due then
                  if days_until_due \<le> 7 then mw_due_within_7d w
                  else if days_until_due \<le> 14 then mw_due_within_14d w else 0
                else 0)
      else 0)"

definition total_score :: "RankingWeights \<Rightarrow> int \<Rightarrow> BlockerAnalysis \<Rightarrow> int" where
  "total_score w today a =
     priority_score (rw_priority w) (ba_priority a)
     + min (ba_days_blocked a * dw_per_day (rw_days_blocked w)) (dw_cap (rw_days_blocked w))
     + min (int (length (ba_dependent_issues a)) * iw_per_issue (rw_dependent_issues w))
         (iw_cap (rw_dependent_issues w))
     + due_score (rw_milestone_proximity w) today (ba_due_date a)
     + (if ba_flagged a then rw_flagged w else 0)"

definition score_analysis :: "RankingRule \<Rightarrow> int \<Rightarrow> BlockerAnalysis \<Rightarrow> BlockerAnalysis" where
  "score_analysis rule today a = a\<lparr>ba_score := total_score (rr_weights rule) today a\<rparr>"

definition rank :: "RankingRule \<Rightarrow> int \<Rightarrow> BlockerAnalysis list \<Rightarrow> int option \<Rightarrow> BlockerAnalysis list" where
  "rank rule today analyses top_n =
     (let n = (case top_n of Some n \<Rightarrow> n | None \<Rightarrow> rr_top_n rule)
      in py_take n (sort_desc ba_score (map (score_analysis rule today) analyses)))"

subsection \<open>Laws of the score\<close>

lemma score_analysis_simps [simp]:
  "ba_score (score_analysis rule today a) = total_score (rr_weights rule) today a"
  "total_score w today (a\<lparr>ba_score := s\<rparr>) = total_score w today a"
  "total_score w today (score_analysis rule today' a) = total_score w today a"
  "score_analysis rule today (score_analysis rule today a) = score_analysis rule today a"
  by (simp_all add: score_analysis_def total_score_def)

definition sane_weights :: "RankingWeights \<Rightarrow> bool" where
  "sane_weights w \<longleftrightarrow>
     (\<forall>x \<in> {pw_Blocker (rw_priority w), pw_Critical (rw_priority w), pw_High (rw_priority w),
            pw_default (rw_priority w), dw_per_day (rw_days_blocked w), dw_cap (rw_days_blocked w),
            iw_per_issue (rw_dependent_issues w), iw_cap (rw_dependent_issues w),
            mw_due_within_7d (rw_milestone_proximity w), mw_due_within_14d (rw_milestone_proximity w),
            rw_flagged w}. 0 \<le> x)"

definition max_priority :: "PriorityWeights \<Rightarrow> int" where
  "max_priority w = max (max (pw_Blocker w) (pw_Critical w)) (max (pw_High w) (pw_default w))"

definition max_score :: "RankingWeights \<Rightarrow> int" where
  "max_score w = max_priority (rw_priority w) + dw_cap (rw_days_blocked w) + iw_cap (rw_dependent_issues w)
     + max (mw_due_within_7d (rw_milestone_proximity w)) (mw_due_within_14d (rw_milestone_proximity w))
     + rw_flagged w"

lemma priority_score_cases:
  "priority_score w p \<in> {pw_Blocker w, pw_Critical w, pw_High w, pw_default w}"
  by (auto simp: priority_score_def priority_map_def)

lemma due_score_cases:
  "due_score w today d \<in> {0, mw_due_within_7d w, mw_due_within_14d w}"
  by (auto simp: due_score_def Let_def split: option.splits)

lemma total_score_bounds:
  assumes "sane_weights w" "0 \<le> ba_days_blocked a"
  shows "0 \<le> total_score w today a \<and> total_score w today a \<le> max_score w"
proof -
  have p: "0 \<le> priority_score (rw_priority w) (ba_priority a)"
    "priority_score (rw_priority w) (ba_priority a) \<le> max_priority (rw_priority w)"
    using priority_score_cases [of "rw_priority w" "ba_priority a"] assms(1)
    by (auto simp: sane_weights_def max_priority_def)
  have d: "0 \<le> due_score (rw_milestone_proximity w) today (ba_due_date a)"
    "due_score (rw_milestone_proximity w) today (ba_due_date a) \<le>
      max (mw_due_within_7d (rw_milestone_proximity w)) (mw_due_within_14d (rw_milestone_proximity w))"
    using due_score_cases [of "rw_milestone_proximity w" today "ba_due_date a"] assms(1)
    by (auto simp: sane_weights_def)
  have "0 \<le> ba_days_blocked a * dw_per_day (rw_days_blocked w)"
    "0 \<le> int (length (ba_dependent_issues a)) * iw_per_issue (rw_dependent_issues w)"
    "0 \<le> dw_cap (rw_days_blocked w)" "0 \<le> iw_cap (rw_dependent_issues w)" "0 \<le> rw_flagged w"
    using assms by (simp_all add: sane_weights_def)
  with p d show ?thesis by (auto simp: total_score_def max_score_def)
qed

lemma rank_ranks:
  "set (rank rule today xs n) \<subseteq> score_analysis rule today ` set xs"
  unfolding rank_def Let_def using set_py_take by fastforce

lemma rank_full:
  "int (length xs) \<le> n \<Longrightarrow>
     rank rule today xs (Some n) = sort_desc ba_score (map (score_analysis rule today) xs)"
  by (simp add: rank_def py_take_all)

lemma py_take_nonneg: "0 \<le> n \<Longrightarrow> py_take n xs = take (nat n) xs"
  by (simp add: py_take_def)

lemma sorted_wrt_cut:
  assumes "sorted_wrt R (ys @ zs)"
  shows "\<forall>y \<in> set ys. \<forall>z \<in> set zs. R y z"
  using assms by (auto simp: sorted_wrt_append)

subsection \<open>A concrete input\<close>

definition sample_blocker :: "string \<Rightarrow> string option \<Rightarrow> int \<Rightarrow> string option \<Rightarrow> BlockerAnalysis" where
  "sample_blocker key priority days due = \<lparr>ba_issue_key = key, ba_summary = [], ba_blocked_reason = [],
     ba_days_blocked = days, ba_owner = [], ba_priority = priority, ba_dependent_issues = [],
     ba_due_date = due, ba_flagged = False, ba_suggested_resolution = [], ba_mitigation = [],
     ba_risk_note = [], ba_evidence = [], ba_score = 0, ba_confluence_refs = []\<rparr>"

definition sample_blockers :: "BlockerAnalysis list" where
  "sample_blockers = [sample_blocker ''A-1'' None 40 None,
     sample_blocker ''A-2'' (Some ''High'') 3 (Some ''2024-03-05''),
     sample_blocker ''A-3'' (Some ''Critical'') 0 (Some ''soon'')]"

text \<open>On 29 February 2024 the scores are 30 (capped), 15 + 6 + 20 and 30.\<close>

lemma sample_ranking:
  "map (\<lambda>a. (ba_issue_key a, ba_score a)) (rank default_rule 738945 sample_blockers (Some 2)) =
     [(''A-2'', 41), (''A-1'', 30)]"
  by code_simp

subsection \<open>Properties\<close>

text \<open>C36: a ranking is the best of its input: for a non-negative \<open>top_n\<close> it has the smaller of
  \<open>top_n\<close> and the number of analyses, it is sorted by descending score, the analyses left out
  are the rest of the scored input, and none of them scores above one that is kept.\<close>

theorem rank_keeps_the_best:
  assumes "0 \<le> n"
  shows "\<exists>rest. mset (rank rule today xs (Some n)) + mset rest = mset (map (score_analysis rule today) xs)
     \<and> int (length (rank rule today xs (Some n))) = min n (int (length xs))
     \<and> sorted_wrt (\<lambda>a b. ba_score b \<le> ba_score a) (rank rule today xs (Some n))
     \<and> (\<forall>a \<in> set (rank rule today xs (Some n)). \<forall>b \<in> set rest. ba_score b \<le> ba_score a)"
proof -
  let ?s = "sort_desc ba_score (map (score_analysis rule today) xs)"
  have r: "rank rule today xs (Some n) = take (nat n) ?s"
    using assms by (simp add: rank_def py_take_nonneg)
  have sorted: "sorted_wrt (\<lambda>a b. ba_score b \<le> ba_score a) (take (nat n) ?s @ drop (nat n) ?s)"
    using sorted_sort_desc [of ba_score "map (score_analysis rule today) xs"] by simp
  have "mset (take (nat n) ?s) + mset (drop (nat n) ?s) = mset ?s"
    by (metis append_take_drop_id mset_append)
  then show ?thesis
    using sorted sorted_wrt_cut [OF sorted] assms
    by (intro exI [of _ "drop (nat n) ?s"]) (auto simp: r sorted_wrt_append simp del: append_take_drop_id)
qed

theorem rank_keeps_the_best_witness:
  "\<exists>rest. mset (rank default_rule 738945 sample_blockers (Some 2)) + mset rest =
       mset (map (score_analysis default_rule 738945) sample_blockers)
     \<and> length (rank default_rule 738945 sample_blockers (Some 2)) = 2
     \<and> list_all (\<lambda>b. ba_score b \<le> 30) rest"
proof -
  let ?r = "rank default_rule 738945 sample_blockers (Some 2)"
  have "\<exists>a \<in> set ?r. ba_score a = 30"
    using arg_cong [OF sample_ranking, of "\<lambda>ps. 30 \<in> snd ` set ps"] by auto
  moreover have "length ?r = 2" using arg_cong [OF sample_ranking, of length] by simp
  ultimately show ?thesis
    unfolding list_all_iff using rank_keeps_the_best [of 2 default_rule 738945 sample_blockers] by fastforce
qed

text \<open>The ranking is stable: among the analyses of one score the first ones of the input are
  kept, in input order.\<close>

theorem rank_is_stable:
  assumes "0 \<le> n"
  shows "\<exists>k. filter (\<lambda>a. ba_score a = s) (rank rule today xs (Some n)) =
     take k (filter (\<lambda>a. ba_score a = s) (map (score_analysis rule today) xs))"
proof -
  let ?ys = "map (score_analysis rule today) xs"
  have "rank rule today xs (Some n) = take (nat n) (sort_desc ba_score ?ys)"
    using assms by (simp add: rank_def py_take_nonneg)
  moreover have "filter (\<lambda>a. ba_score a = s) (sort_desc ba_score ?ys) = filter (\<lambda>a. ba_score a = s) ?ys"
    by (rule sort_desc_stable)
  moreover have "\<exists>k. filter P (take m zs) = take k (filter P zs)" for P m and zs :: "BlockerAnalysis list"
    by (metis append_eq_conv_conj append_take_drop_id filter_append)
  ultimately show ?thesis by metis
qed

theorem rank_is_stable_witness:
  "\<exists>k. filter (\<lambda>a. ba_score a = 30) (rank default_rule 738945 sample_blockers (Some 2)) =
     take k (filter (\<lambda>a. ba_score a = 30) (map (score_analysis default_rule 738945) sample_blockers))"
  by (rule rank_is_stable) simp

text \<open>Every score is within fixed bounds, whatever the issue: with non-negative weights and a
  non-negative number of days blocked it is between 0 and the sum of the caps.\<close>

theorem rank_scores_bounded:
  assumes "sane_weights (rr_weights rule)" "\<forall>a \<in> set xs. 0 \<le> ba_days_blocked a"
  shows "\<forall>a \<in> set (rank rule today xs n). 0 \<le> ba_score a \<and> ba_score a \<le> max_score (rr_weights rule)"
proof
  fix a assume "a \<in> set (rank rule today xs n)"
  then obtain b where "b \<in> set xs" "a = score_analysis rule today b" using rank_ranks by blast
  then show "0 \<le> ba_score a \<and> ba_score a \<le> max_score (rr_weights rule)"
    using total_score_bounds [OF assms(1)] assms(2) by simp
qed

theorem rank_scores_bounded_witness:
  "list_all (\<lambda>a. 0 \<le> ba_score a \<and> ba_score a \<le> 125) (rank default_rule 738945 sample_blockers None)"
proof -
  have w: "sane_weights (rr_weights default_rule)" by (simp add: sane_weights_def default_rule_def)
  have d: "\<forall>a \<in> set sample_blockers. 0 \<le> ba_days_blocked a"
    by (simp add: sample_blockers_def sample_blocker_def)
  have "max_score (rr_weights default_rule) = 125"
    by (simp add: max_score_def max_priority_def default_rule_def)
  with rank_scores_bounded [OF w d, of 738945 None] show ?thesis by (simp add: list_all_iff)
qed

text \<open>Ranking is deterministic and idempotent: the score does not depend on an earlier score,
  so ranking a ranking of the same day again changes nothing.\<close>

theorem rank_idempotent:
  "rank rule today (rank rule today xs (Some n)) (Some (int (length xs))) = rank rule today xs (Some n)"
proof -
  let ?r = "rank rule today xs (Some n)"
  have scored: "map (score_analysis rule today) ?r = ?r"
    using rank_ranks [of rule today xs "Some n"] by (auto intro!: map_idI)
  have "\<exists>k. ?r = take k (sort_desc ba_score (map (score_analysis rule today) xs))"
    unfolding rank_def Let_def option.case using py_take_is_take by blast
  then obtain k where r: "?r = take k (sort_desc ba_score (map (score_analysis rule today) xs))" by blast
  then have len: "int (length ?r) \<le> int (length xs)" by simp
  have "sorted (map (\<lambda>a. - ba_score a) ?r)"
    unfolding r sort_desc_def take_map [symmetric] by (rule sorted_wrt_take) simp
  then have "sort_desc ba_score ?r = ?r" unfolding sort_desc_def by (rule sort_key_id_if_sorted)
  then show ?thesis using rank_full [OF len, of rule today] scored by simp
qed

end
