(* ===== verification/Json.thy ===== *)
theory Json
  imports Netra_Errors
begin

text \<open>
  Decoded JSON (\<open>json.loads\<close>, \<open>response.json()\<close>) and the operations the program applies to
  it. An operation that fits the value returns, another raises what Python raises. A number is
  known by its text and by whether it is nonzero; \<open>repr\<close> is the text of an array or object.
\<close>

datatype json =
    JNull
  | JBool bool
  | JNum string bool
  | JStr string
  | JArr "json list"
  | JObj "(string \<times> json) list"

fun json_truth :: "json \<Rightarrow> bool" where
  "json_truth JNull = False"
| "json_truth (JBool b) = b"
| "json_truth (JNum _ t) = t"
| "json_truth (JStr s) = (s \<noteq> [])"
| "json_truth (JArr xs) = (xs \<noteq> [])"
| "json_truth (JObj d) = (d \<noteq> [])"

fun json_str :: "(json \<Rightarrow> string) \<Rightarrow> json \<Rightarrow> string" where
  "json_str repr JNull = ''None''"
| "json_str repr (JBool b) = (if b then ''True'' else ''False'')"
| "json_str repr (JNum s _) = s"
| "json_str repr (JStr s) = s"
| "json_str repr j = repr j"

text \<open>\<open>j.get(k)\<close>, \<open>j.get(k, d)\<close>, \<open>j[k]\<close> and \<open>for x in j\<close>.\<close>

fun json_get :: "json \<Rightarrow> string \<Rightarrow> json \<Rightarrow> exn + json" where
  "json_get (JObj d) k dflt = Inr (case map_of d k of None \<Rightarrow> dflt | Some v \<Rightarrow> v)"
| "json_get _ k dflt = Inl (AttributeError ''get'')"

fun json_item :: "json \<Rightarrow> string \<Rightarrow> exn + json" where
  "json_item (JObj d) k = (case map_of d k of None \<Rightarrow> Inl (KeyError k) | Some v \<Rightarrow> Inr v)"
| "json_item _ k = Inl (TypeError ''object is not subscriptable by a string'')"

fun json_iter :: "json \<Rightarrow> exn + json list" where
  "json_iter (JArr xs) = Inr xs"
| "json_iter (JObj d) = Inr (map (\<lambda>(k, _). JStr k) d)"
| "json_iter (JStr s) = Inr (map (\<lambda>c. JStr [c]) s)"
| "json_iter _ = Inl (TypeError ''object is not iterable'')"

text \<open>Sequencing: the first exception ends the computation.\<close>

definition andthen :: "exn + 'a \<Rightarrow> ('a \<Rightarrow> exn + 'b) \<Rightarrow> exn + 'b" where
  "andthen x f = (case x of Inl e \<Rightarrow> Inl e | Inr v \<Rightarrow> f v)"

lemma andthen_simps [simp]: "andthen (Inl e) f = Inl e" "andthen (Inr v) f = f v"
  by (simp_all add: andthen_def)

lemma andthen_Inr: "andthen x f = Inr y \<longleftrightarrow> (\<exists>v. x = Inr v \<and> f v = Inr y)"
  by (cases x) simp_all

lemma andthen_Inl: "andthen x f = Inl e \<longleftrightarrow> x = Inl e \<or> (\<exists>v. x = Inr v \<and> f v = Inl e)"
  by (cases x) simp_all

text \<open>A list comprehension whose body may raise.\<close>

fun traverse :: "('a \<Rightarrow> exn + 'b) \<Rightarrow> 'a list \<Rightarrow> exn + 'b list" where
  "traverse f [] = Inr []"
| "traverse f (x # xs) = andthen (f x) (\<lambda>y. andthen (traverse f xs) (\<lambda>ys. Inr (y # ys)))"

lemma traverse_Inl: "traverse f xs = Inl e \<Longrightarrow> \<exists>x \<in> set xs. f x = Inl e"
  by (induction xs) (auto simp: andthen_Inl)

lemma traverse_Inr: "traverse f xs = Inr ys \<Longrightarrow> list_all2 (\<lambda>x y. f x = Inr y) xs ys"
  by (induction xs arbitrary: ys) (auto simp: andthen_Inr)

end
