(* ===== verification/Model_Json.thy ===== *)
theory Model_Json
  imports Json Netra_Models Py_Date "HOL-Library.Countable"
begin

text \<open>
  The JSON form of the models: \<open>model_dump\<close> of what the program writes itself (conventions,
  sessions, briefing sections) and \<open>model_validate\<close> of what it reads, field by field as the model
  classes declare them. pydantic is third-party code: what it makes of a number, a truth value, a
  float or a time is the parameter \<open>coercions\<close>, with the value of a field of type \<open>Any\<close>; the texts of its errors are its own, and a failed
  validation is one \<open>ValidationError\<close>, here of the first field that fails. Unknown keys are
  ignored unless the class forbids them.
\<close>

subsection \<open>Fields\<close>

record coercions =
  co_int :: "json \<Rightarrow> int option"
  co_bool :: "json \<Rightarrow> bool option"
  co_float :: "json \<Rightarrow> int option"
  co_time :: "json \<Rightarrow> int option"
  co_number :: "string \<Rightarrow> bool \<Rightarrow> bool"
  co_any :: "json \<Rightarrow> pyval"
  co_any_json :: "pyval \<Rightarrow> json"
  co_show_float :: "int \<Rightarrow> string"
  co_show_time :: "int \<Rightarrow> string"

text \<open>A value that \<open>json\<close> writes and reads back: the keys of an object are distinct, and a number is
  the text of one, as \<open>co_number\<close> says.\<close>

fun json_ok :: "coercions \<Rightarrow> json \<Rightarrow> bool" where
  "json_ok co (JNum s t) = co_number co s t"
| "json_ok co (JArr xs) = list_all (json_ok co) xs"
| "json_ok co (JObj d) = (distinct (map fst d) \<and> list_all (\<lambda>(k, j). json_ok co j) d)"
| "json_ok co _ = True"

text \<open>An integer, truth value, float, time and value is read back from its own JSON form.\<close>

definition coercions_ok :: "coercions \<Rightarrow> bool" where
  "coercions_ok co \<longleftrightarrow>
     (\<forall>i. co_int co (JNum (show_int i) (i \<noteq> 0)) = Some i \<and> co_number co (show_int i) (i \<noteq> 0)) \<and>
     (\<forall>b. co_bool co (JBool b) = Some b) \<and>
     (\<forall>x. co_float co (JNum (co_show_float co x) (x \<noteq> 0)) = Some x \<and> co_number co (co_show_float co x) (x \<noteq> 0)) \<and>
     (\<forall>t. co_time co (JStr (co_show_time co t)) = Some t) \<and>
     (\<forall>v. co_any co (co_any_json co v) = v \<and> json_ok co (co_any_json co v))"

text \<open>\<open>json.dumps\<close> and \<open>json.loads\<close> as documented.\<close>

definition json_text_ok :: "coercions \<Rightarrow> (json \<Rightarrow> string) \<Rightarrow> (string \<Rightarrow> exn + json) \<Rightarrow> bool" where
  "json_text_ok co dumps loads \<longleftrightarrow> (\<forall>j. json_ok co j \<longrightarrow> loads (dumps j) = Inr j)"

definition invalid :: "string \<Rightarrow> exn + 'a" where
  "invalid msg = Inl (ValidationError msg)"

definition coerced :: "string \<Rightarrow> 'a option \<Rightarrow> exn + 'a" where
  "coerced what x = (case x of None \<Rightarrow> invalid (''Input should be a valid '' @ what) | Some v \<Rightarrow> Inr v)"

definition as_int :: "coercions \<Rightarrow> json \<Rightarrow> exn + int" where
  "as_int co j = coerced ''integer'' (co_int co j)"

definition as_bool :: "coercions \<Rightarrow> json \<Rightarrow> exn + bool" where
  "as_bool co j = coerced ''boolean'' (co_bool co j)"

definition as_float :: "coercions \<Rightarrow> json \<Rightarrow> exn + int" where
  "as_float co j = coerced ''number'' (co_float co j)"

definition as_time :: "coercions \<Rightarrow> json \<Rightarrow> exn + int" where
  "as_time co j = coerced ''datetime'' (co_time co j)"

fun as_str :: "json \<Rightarrow> exn + string" where
  "as_str (JStr s) = Inr s"
| "as_str _ = invalid ''Input should be a valid string''"

fun nullable :: "(json \<Rightarrow> exn + 'a) \<Rightarrow> json \<Rightarrow> exn + 'a option" where
  "nullable f JNull = Inr None"
| "nullable f j = andthen (f j) (\<lambda>v. Inr (Some v))"

fun list_of :: "(json \<Rightarrow> exn + 'a) \<Rightarrow> json \<Rightarrow> exn + 'a list" where
  "list_of f (JArr xs) = traverse f xs"
| "list_of f _ = invalid ''Input should be a valid list''"

fun mapping_of :: "(json \<Rightarrow> exn + 'a) \<Rightarrow> json \<Rightarrow> exn + (string \<times> 'a) list" where
  "mapping_of f (JObj d) = traverse (\<lambda>(k, j). andthen (f j) (\<lambda>v. Inr (k, v))) d"
| "mapping_of f _ = invalid ''Input should be a valid dictionary''"

fun literal :: "(string \<times> 'a) list \<Rightarrow> json \<Rightarrow> exn + 'a" where
  "literal names (JStr s) = coerced ''literal'' (map_of names s)"
| "literal names _ = invalid ''Input should be a literal''"

fun object_of :: "((string \<times> json) list \<Rightarrow> exn + 'a) \<Rightarrow> json \<Rightarrow> exn + 'a" where
  "object_of f (JObj d) = f d"
| "object_of f _ = invalid ''Input should be a valid dictionary or instance''"

text \<open>A required field and one with a default; a default is not validated.\<close>

definition req :: "(string \<times> json) list \<Rightarrow> string \<Rightarrow> (json \<Rightarrow> exn + 'a) \<Rightarrow> ('a \<Rightarrow> exn + 'b) \<Rightarrow> exn + 'b" where
  "req d k f rest = (case map_of d k of None \<Rightarrow> invalid (k @ '': Field required'') | Some j \<Rightarrow> andthen (f j) rest)"

definition dflt :: "(string \<times> json) list \<Rightarrow> string \<Rightarrow> 'a \<Rightarrow> (json \<Rightarrow> exn + 'a) \<Rightarrow> ('a \<Rightarrow> exn + 'b) \<Rightarrow> exn + 'b" where
  "dflt d k v f rest = (case map_of d k of None \<Rightarrow> rest v | Some j \<Rightarrow> andthen (f j) rest)"

text \<open>\<open>extra="forbid"\<close>.\<close>

definition forbid_extra :: "string list \<Rightarrow> (string \<times> json) list \<Rightarrow> exn + 'a \<Rightarrow> exn + 'a" where
  "forbid_extra ks d r = (if set (map fst d) \<subseteq> set ks then r else invalid ''Extra inputs are not permitted'')"

definition of_int_json :: "int \<Rightarrow> json" where
  "of_int_json i = JNum (show_int i) (i \<noteq> 0)"

definition of_float_json :: "coercions \<Rightarrow> int \<Rightarrow> json" where
  "of_float_json co x = JNum (co_show_float co x) (x \<noteq> 0)"

fun of_opt :: "string option \<Rightarrow> json" where
  "of_opt None = JNull"
| "of_opt (Some s) = JStr s"

definition of_strs :: "string list \<Rightarrow> json" where
  "of_strs xs = JArr (map JStr xs)"

subsection \<open>What the program writes and reads back\<close>

definition dump_convention :: "coercions \<Rightarrow> Convention \<Rightarrow> json" where
  "dump_convention co c = JObj [(''project'', JStr (cv_project c)), (''term'', JStr (cv_term c)),
     (''resolution_key'', JStr (cv_resolution_key c)), (''jql_hint'', JStr (cv_jql_hint c)),
     (''learned_at'', JStr (co_show_time co (cv_learned_at c)))]"

definition validate_convention :: "coercions \<Rightarrow> int \<Rightarrow> json \<Rightarrow> exn + Convention" where
  "validate_convention co now = object_of (\<lambda>d.
     req d ''project'' as_str (\<lambda>p. req d ''term'' as_str (\<lambda>t. req d ''resolution_key'' as_str (\<lambda>k.
     req d ''jql_hint'' as_str (\<lambda>h. dflt d ''learned_at'' now (as_time co) (\<lambda>at.
     Inr \<lparr>cv_project = p, cv_term = t, cv_resolution_key = k, cv_jql_hint = h, cv_learned_at = at\<rparr>))))))"

definition source_names :: "(string \<times> resolution_source) list" where
  "source_names = map (\<lambda>s. (source_name s, s)) [FromConvention, FromClarification]"

definition dump_resolution :: "TermResolution \<Rightarrow> json" where
  "dump_resolution r = JObj [(''term'', JStr (tr_term r)), (''resolution_key'', JStr (tr_resolution_key r)),
     (''jql_hint'', JStr (tr_jql_hint r)), (''source'', JStr (source_name (tr_source r)))]"

definition validate_resolution :: "json \<Rightarrow> exn + TermResolution" where
  "validate_resolution = object_of (\<lambda>d.
     req d ''term'' as_str (\<lambda>t. req d ''resolution_key'' as_str (\<lambda>k. req d ''jql_hint'' as_str (\<lambda>h.
     req d ''source'' (literal source_names) (\<lambda>s.
     Inr \<lparr>tr_term = t, tr_resolution_key = k, tr_jql_hint = h, tr_source = s\<rparr>)))))"

definition state_names :: "(string \<times> ClarificationState) list" where
  "state_names = map (\<lambda>s. (state_name s, s)) [IDLE, AWAITING_CLARIFICATION, RESOLVED, DISPATCHED]"

definition dump_session :: "SessionState \<Rightarrow> json" where
  "dump_session s = JObj [(''session_id'', JStr (ss_session_id s)), (''state'', JStr (state_name (ss_state s))),
     (''pending_query'', of_opt (ss_pending_query s)), (''pending_terms'', of_strs (ss_pending_terms s)),
     (''pending_question'', of_opt (ss_pending_question s)),
     (''clarification_rounds'', of_int_json (ss_clarification_rounds s)),
     (''resolutions'', JObj (map (\<lambda>(k, r). (k, dump_resolution r)) (ss_resolutions s)))]"

definition validate_session :: "coercions \<Rightarrow> json \<Rightarrow> exn + SessionState" where
  "validate_session co = object_of (\<lambda>d.
     req d ''session_id'' as_str (\<lambda>sid. dflt d ''state'' IDLE (literal state_names) (\<lambda>st.
     dflt d ''pending_query'' None (nullable as_str) (\<lambda>q. dflt d ''pending_terms'' [] (list_of as_str) (\<lambda>ts.
     dflt d ''pending_question'' None (nullable as_str) (\<lambda>qn.
     dflt d ''clarification_rounds'' 0 (as_int co) (\<lambda>n.
     dflt d ''resolutions'' [] (mapping_of validate_resolution) (\<lambda>rs.
     Inr \<lparr>ss_session_id = sid, ss_state = st, ss_pending_query = q, ss_pending_terms = ts,
       ss_pending_question = qn, ss_clarification_rounds = n, ss_resolutions = rs\<rparr>))))))))"

definition dump_citation :: "Citation \<Rightarrow> json" where
  "dump_citation c = JObj [(''issue_key'', JStr (ct_issue_key c)), (''comment_id'', of_opt (ct_comment_id c))]"

definition validate_citation :: "json \<Rightarrow> exn + Citation" where
  "validate_citation = object_of (\<lambda>d. req d ''issue_key'' as_str (\<lambda>k.
     dflt d ''comment_id'' None (nullable as_str) (\<lambda>c. Inr \<lparr>ct_issue_key = k, ct_comment_id = c\<rparr>)))"

definition dump_reference :: "ConfluenceReference \<Rightarrow> json" where
  "dump_reference r = JObj [(''page_id'', JStr (cr_page_id r)), (''page_title'', JStr (cr_page_title r)),
     (''cql_excerpt'', JStr (cr_cql_excerpt r)), (''relevant_passage'', JStr (cr_relevant_passage r))]"

definition validate_reference :: "json \<Rightarrow> exn + ConfluenceReference" where
  "validate_reference = object_of (\<lambda>d. req d ''page_id'' as_str (\<lambda>i. req d ''page_title'' as_str (\<lambda>t.
     dflt d ''cql_excerpt'' [] as_str (\<lambda>x. dflt d ''relevant_passage'' [] as_str (\<lambda>p.
     Inr \<lparr>cr_page_id = i, cr_page_title = t, cr_cql_excerpt = x, cr_relevant_passage = p\<rparr>)))))"

definition dump_analysis :: "coercions \<Rightarrow> BlockerAnalysis \<Rightarrow> json" where
  "dump_analysis co a = JObj [(''issue_key'', JStr (ba_issue_key a)), (''summary'', JStr (ba_summary a)),
     (''blocked_reason'', JStr (ba_blocked_reason a)), (''days_blocked'', of_int_json (ba_days_blocked a)),
     (''owner'', JStr (ba_owner a)), (''priority'', of_opt (ba_priority a)),
     (''dependent_issues'', of_strs (ba_dependent_issues a)), (''due_date'', of_opt (ba_due_date a)),
     (''flagged'', JBool (ba_flagged a)), (''suggested_resolution'', JStr (ba_suggested_resolution a)),
     (''mitigation'', JStr (ba_mitigation a)), (''risk_note'', JStr (ba_risk_note a)),
     (''evidence'', JArr (map dump_citation (ba_evidence a))), (''score'', of_float_json co (ba_score a)),
     (''confluence_refs'', JArr (map dump_reference (ba_confluence_refs a)))]"

definition validate_analysis :: "coercions \<Rightarrow> json \<Rightarrow> exn + BlockerAnalysis" where
  "validate_analysis co = object_of (\<lambda>d.
     req d ''issue_key'' as_str (\<lambda>key. req d ''summary'' as_str (\<lambda>summary.
     req d ''blocked_reason'' as_str (\<lambda>reason. req d ''days_blocked'' (as_int co) (\<lambda>days.
     req d ''owner'' as_str (\<lambda>owner. dflt d ''priority'' None (nullable as_str) (\<lambda>prio.
     dflt d ''dependent_issues'' [] (list_of as_str) (\<lambda>deps. dflt d ''due_date'' None (nullable as_str) (\<lambda>due.
     dflt d ''flagged'' False (as_bool co) (\<lambda>flagged. req d ''suggested_resolution'' as_str (\<lambda>res.
     req d ''mitigation'' as_str (\<lambda>mit. req d ''risk_note'' as_str (\<lambda>risk.
     dflt d ''evidence'' [] (list_of validate_citation) (\<lambda>ev. dflt d ''score'' 0 (as_float co) (\<lambda>score.
     dflt d ''confluence_refs'' [] (list_of validate_reference) (\<lambda>refs.
     Inr \<lparr>ba_issue_key = key, ba_summary = summary, ba_blocked_reason = reason, ba_days_blocked = days,
       ba_owner = owner, ba_priority = prio, ba_dependent_issues = deps, ba_due_date = due, ba_flagged = flagged,
       ba_suggested_resolution = res, ba_mitigation = mit, ba_risk_note = risk, ba_evidence = ev,
       ba_score = score, ba_confluence_refs = refs\<rparr>))))))))))))))))"

definition dump_section :: "coercions \<Rightarrow> BriefingSection \<Rightarrow> json" where
  "dump_section co s = JObj [(''topic_id'', JStr (bs_topic_id s)), (''description'', JStr (bs_description s)),
     (''query_used'', of_opt (bs_query_used s)), (''jql'', of_opt (bs_jql s)),
     (''top_issues'', JArr (map (dump_analysis co) (bs_top_issues s))),
     (''total_found'', of_int_json (bs_total_found s)), (''errors'', of_strs (bs_errors s))]"

definition validate_section :: "coercions \<Rightarrow> json \<Rightarrow> exn + BriefingSection" where
  "validate_section co = object_of (\<lambda>d.
     req d ''topic_id'' as_str (\<lambda>t. req d ''description'' as_str (\<lambda>desc.
     dflt d ''query_used'' None (nullable as_str) (\<lambda>q. dflt d ''jql'' None (nullable as_str) (\<lambda>jql.
     dflt d ''top_issues'' [] (list_of (validate_analysis co)) (\<lambda>top. dflt d ''total_found'' 0 (as_int co) (\<lambda>n.
     dflt d ''errors'' [] (list_of as_str) (\<lambda>es.
     Inr \<lparr>bs_topic_id = t, bs_description = desc, bs_query_used = q, bs_jql = jql, bs_top_issues = top,
       bs_total_found = n, bs_errors = es\<rparr>))))))))"

definition dump_chart :: "ChartSpec \<Rightarrow> json" where
  "dump_chart c = JObj [(''type'', JStr (ch_type c)), (''x_field'', of_opt (ch_x_field c)),
     (''y_field'', of_opt (ch_y_field c)), (''title'', of_opt (ch_title c)), (''color_field'', of_opt (ch_color_field c))]"

definition validate_chart :: "json \<Rightarrow> exn + ChartSpec" where
  "validate_chart = object_of (\<lambda>d.
     req d ''type'' as_str (\<lambda>t. dflt d ''x_field'' None (nullable as_str) (\<lambda>x.
     dflt d ''y_field'' None (nullable as_str) (\<lambda>y. dflt d ''title'' None (nullable as_str) (\<lambda>title.
     dflt d ''color_field'' None (nullable as_str) (\<lambda>c.
     Inr \<lparr>ch_type = t, ch_x_field = x, ch_y_field = y, ch_title = title, ch_color_field = c\<rparr>))))))"

definition dump_topic :: "AgendaTopic \<Rightarrow> json" where
  "dump_topic t = JObj [(''topic_id'', JStr (at_topic_id t)), (''description'', JStr (at_description t)),
     (''suggested_query'', JStr (at_suggested_query t)), (''projects'', of_strs (at_projects t))]"

definition validate_topic :: "json \<Rightarrow> exn + AgendaTopic" where
  "validate_topic = object_of (\<lambda>d. req d ''topic_id'' as_str (\<lambda>i. req d ''description'' as_str (\<lambda>t.
     req d ''suggested_query'' as_str (\<lambda>q. dflt d ''projects'' [] (list_of as_str) (\<lambda>ps.
     Inr \<lparr>at_topic_id = i, at_description = t, at_suggested_query = q, at_projects = ps\<rparr>)))))"

definition dump_applied :: "AppliedConvention \<Rightarrow> json" where
  "dump_applied c = JObj [(''term'', JStr (ac_term c)), (''jql_hint'', JStr (ac_jql_hint c)),
     (''source'', JStr (source_name (ac_source c)))]"

definition validate_applied :: "json \<Rightarrow> exn + AppliedConvention" where
  "validate_applied = object_of (\<lambda>d. req d ''term'' as_str (\<lambda>t. req d ''jql_hint'' as_str (\<lambda>h.
     req d ''source'' (literal source_names) (\<lambda>s. Inr \<lparr>ac_term = t, ac_jql_hint = h, ac_source = s\<rparr>))))"

definition dump_issue :: "coercions \<Rightarrow> issue \<Rightarrow> json" where
  "dump_issue co i = JObj (map (\<lambda>(k, v). (k, co_any_json co v)) i)"

definition validate_any_dict :: "coercions \<Rightarrow> json \<Rightarrow> exn + issue" where
  "validate_any_dict co = mapping_of (\<lambda>j. Inr (co_any co j))"

definition dump_query_response :: "coercions \<Rightarrow> QueryResponse \<Rightarrow> json" where
  "dump_query_response co r = JObj [(''session_id'', JStr (qr_session_id r)),
     (''requires_user_input'', JBool (qr_requires_user_input r)),
     (''clarification_question'', of_opt (qr_clarification_question r)), (''answer'', of_opt (qr_answer r)),
     (''jql'', of_opt (qr_jql r)), (''total'', of_int_json (qr_total r)), (''shown'', of_int_json (qr_shown r)),
     (''display_fields'', of_strs (qr_display_fields r)), (''issues'', JArr (map (dump_issue co) (qr_issues r))),
     (''chart_spec'', (case qr_chart_spec r of None \<Rightarrow> JNull | Some c \<Rightarrow> dump_chart c)),
     (''ui_injected'', JBool (qr_ui_injected r)), (''report_path'', of_opt (qr_report_path r)),
     (''view_url'', of_opt (qr_view_url r)),
     (''applied_conventions'', JArr (map dump_applied (qr_applied_conventions r))),
     (''errors'', of_strs (qr_errors r)), (''data_scope'', JStr (qr_data_scope r))]"

definition validate_query_response :: "coercions \<Rightarrow> json \<Rightarrow> exn + QueryResponse" where
  "validate_query_response co = object_of (\<lambda>d.
     req d ''session_id'' as_str (\<lambda>sid. dflt d ''requires_user_input'' False (as_bool co) (\<lambda>asks.
     dflt d ''clarification_question'' None (nullable as_str) (\<lambda>q. dflt d ''answer'' None (nullable as_str) (\<lambda>ans.
     dflt d ''jql'' None (nullable as_str) (\<lambda>jql. dflt d ''total'' 0 (as_int co) (\<lambda>total.
     dflt d ''shown'' 0 (as_int co) (\<lambda>shown. dflt d ''display_fields'' [] (list_of as_str) (\<lambda>fs.
     dflt d ''issues'' [] (list_of (validate_any_dict co)) (\<lambda>issues.
     dflt d ''chart_spec'' None (nullable validate_chart) (\<lambda>chart. dflt d ''ui_injected'' False (as_bool co) (\<lambda>ui.
     dflt d ''report_path'' None (nullable as_str) (\<lambda>path. dflt d ''view_url'' None (nullable as_str) (\<lambda>url.
     dflt d ''applied_conventions'' [] (list_of validate_applied) (\<lambda>cs. dflt d ''errors'' [] (list_of as_str) (\<lambda>es.
     dflt d ''data_scope'' QUERY_DATA_SCOPE as_str (\<lambda>scope.
     Inr \<lparr>qr_session_id = sid, qr_requires_user_input = asks, qr_clarification_question = q, qr_answer = ans,
       qr_jql = jql, qr_total = total, qr_shown = shown, qr_display_fields = fs, qr_issues = issues,
       qr_chart_spec = chart, qr_ui_injected = ui, qr_report_path = path, qr_view_url = url,
       qr_applied_conventions = cs, qr_errors = es, qr_data_scope = scope\<rparr>)))))))))))))))))"

subsection \<open>Round trips\<close>

named_theorems codec_simps

declare list_of.simps [simp del] mapping_of.simps [simp del] literal.simps [simp del]

lemma req_simps [codec_simps]:
  "req ((k, j) # d) k f rest = andthen (f j) rest"
  "k' \<noteq> k \<Longrightarrow> req ((k', j) # d) k f rest = req d k f rest"
  by (simp_all add: req_def)

lemma dflt_simps [codec_simps]:
  "dflt [] k v f rest = rest v"
  "dflt ((k, j) # d) k v f rest = andthen (f j) rest"
  "k' \<noteq> k \<Longrightarrow> dflt ((k', j) # d) k v f rest = dflt d k v f rest"
  by (simp_all add: dflt_def)

lemma traverse_map: "(\<And>x. x \<in> set xs \<Longrightarrow> f (g x) = Inr x) \<Longrightarrow> traverse f (map g xs) = Inr xs"
  by (induction xs) simp_all

lemma nullable_of_opt [codec_simps]: "nullable as_str (of_opt x) = Inr x"
  by (cases x) simp_all

lemma list_of_strs [codec_simps]: "list_of as_str (of_strs xs) = Inr xs"
  by (simp add: of_strs_def list_of.simps traverse_map)

lemma list_of_dumps: "(\<And>x. v (g x) = Inr x) \<Longrightarrow> list_of v (JArr (map g xs)) = Inr xs"
  by (simp add: list_of.simps traverse_map)

lemma mapping_of_dumps: "(\<And>x. v (g x) = Inr x) \<Longrightarrow> mapping_of v (JObj (map (\<lambda>(k, x). (k, g x)) d)) = Inr d"
  by (simp add: mapping_of.simps traverse_map case_prod_beta)

lemma coerced_numbers:
  assumes "coercions_ok co"
  shows "as_int co (of_int_json i) = Inr i" "as_bool co (JBool b) = Inr b"
    "as_float co (of_float_json co x) = Inr x" "as_time co (JStr (co_show_time co t)) = Inr t"
    "co_any co (co_any_json co v) = v"
  using assms by (simp_all add: coercions_ok_def as_int_def as_bool_def as_float_def as_time_def coerced_def
      of_int_json_def of_float_json_def)

lemma literal_names [codec_simps]:
  "literal source_names (JStr (source_name s)) = Inr s" "literal state_names (JStr (state_name st)) = Inr st"
  by (cases s; simp add: source_names_def coerced_def literal.simps) (cases st; simp add: state_names_def coerced_def literal.simps)

lemma convention_codec:
  "coercions_ok co \<Longrightarrow> validate_convention co now (dump_convention co c) = Inr c"
  by (simp add: validate_convention_def dump_convention_def codec_simps coerced_numbers)

lemma resolution_codec: "validate_resolution (dump_resolution r) = Inr r"
  by (simp add: validate_resolution_def dump_resolution_def codec_simps)

lemma session_codec: "coercions_ok co \<Longrightarrow> validate_session co (dump_session s) = Inr s"
  by (simp add: validate_session_def dump_session_def codec_simps coerced_numbers
      mapping_of_dumps [of validate_resolution dump_resolution, OF resolution_codec])

lemma citation_codec: "validate_citation (dump_citation c) = Inr c"
  by (simp add: validate_citation_def dump_citation_def codec_simps)

lemma reference_codec: "validate_reference (dump_reference r) = Inr r"
  by (simp add: validate_reference_def dump_reference_def codec_simps)

lemma analysis_codec: "coercions_ok co \<Longrightarrow> validate_analysis co (dump_analysis co a) = Inr a"
  by (simp add: validate_analysis_def dump_analysis_def codec_simps coerced_numbers
      list_of_dumps [OF citation_codec] list_of_dumps [OF reference_codec])

lemma section_codec: "coercions_ok co \<Longrightarrow> validate_section co (dump_section co s) = Inr s"
  by (simp add: validate_section_def dump_section_def codec_simps coerced_numbers
      list_of_dumps [OF analysis_codec])

lemma chart_codec: "validate_chart (dump_chart c) = Inr c"
  by (simp add: validate_chart_def dump_chart_def codec_simps)

lemma optional_chart_codec:
  "nullable validate_chart (case x of None \<Rightarrow> JNull | Some c \<Rightarrow> dump_chart c) = Inr x"
  using chart_codec by (cases x) (simp_all add: dump_chart_def)

lemma topic_codec: "validate_topic (dump_topic t) = Inr t"
  by (simp add: validate_topic_def dump_topic_def codec_simps)

lemma applied_codec: "validate_applied (dump_applied c) = Inr c"
  by (simp add: validate_applied_def dump_applied_def codec_simps)

lemma issue_codec: "coercions_ok co \<Longrightarrow> validate_any_dict co (dump_issue co i) = Inr i"
  unfolding validate_any_dict_def dump_issue_def by (rule mapping_of_dumps) (simp add: coerced_numbers)

lemma query_response_codec: "coercions_ok co \<Longrightarrow> validate_query_response co (dump_query_response co r) = Inr r"
  by (simp add: validate_query_response_def dump_query_response_def codec_simps coerced_numbers
      list_of_dumps [OF issue_codec] list_of_dumps [OF applied_codec] optional_chart_codec)

subsection \<open>What is written can be read\<close>

named_theorems writable

lemma writable_basic [writable]:
  "json_ok co (of_opt x)" "json_ok co (of_strs xs)"
  by (cases x) (simp_all add: of_strs_def list_all_iff)

lemma writable_numbers:
  assumes "coercions_ok co"
  shows "json_ok co (of_int_json i)" "json_ok co (of_float_json co x)" "json_ok co (co_any_json co v)"
  using assms by (simp_all add: coercions_ok_def of_int_json_def of_float_json_def)

lemma convention_writable: "json_ok co (dump_convention co c)"
  by (simp add: dump_convention_def)

lemma resolution_writable [writable]: "json_ok co (dump_resolution r)"
  by (simp add: dump_resolution_def)

lemma session_writable:
  assumes "coercions_ok co" "distinct (map fst (ss_resolutions s))"
  shows "json_ok co (dump_session s)"
  using assms by (simp add: dump_session_def writable writable_numbers list_all_iff case_prod_beta comp_def)

lemma citation_writable [writable]: "json_ok co (dump_citation c)"
  by (simp add: dump_citation_def writable)

lemma reference_writable [writable]: "json_ok co (dump_reference r)"
  by (simp add: dump_reference_def)

lemma analysis_writable: "coercions_ok co \<Longrightarrow> json_ok co (dump_analysis co a)"
  by (simp add: dump_analysis_def writable writable_numbers list_all_iff)

lemma section_writable: "coercions_ok co \<Longrightarrow> json_ok co (dump_section co s)"
  by (simp add: dump_section_def writable writable_numbers analysis_writable list_all_iff)

lemma chart_writable [writable]: "json_ok co (dump_chart c)"
  by (simp add: dump_chart_def writable)

lemma topic_writable [writable]: "json_ok co (dump_topic t)"
  by (simp add: dump_topic_def writable)

lemma applied_writable [writable]: "json_ok co (dump_applied c)"
  by (simp add: dump_applied_def)

lemma issue_writable: "coercions_ok co \<Longrightarrow> distinct (map fst i) \<Longrightarrow> json_ok co (dump_issue co i)"
  by (simp add: dump_issue_def list_all_iff case_prod_beta comp_def writable_numbers)

lemma query_response_writable:
  assumes "coercions_ok co" "list_all (\<lambda>i. distinct (map fst i)) (qr_issues r)"
  shows "json_ok co (dump_query_response co r)"
  using assms by (simp add: dump_query_response_def writable writable_numbers issue_writable list_all_iff split: option.split)

subsection \<open>Instances\<close>

text \<open>Coercions that read decimal texts only, and a text form of JSON values: its number in an
  enumeration of them, in unary. They satisfy what the laws assume of pydantic and \<open>json\<close>.\<close>

definition read_int :: "string \<Rightarrow> int option" where
  "read_int s = (case s of c # t \<Rightarrow> if c = CHR ''-'' then map_option uminus (number t) else number s | [] \<Rightarrow> None)"

lemma digits_onto_snoc:
  "digits_onto n (xs @ [c]) = (case digits_onto n xs of None \<Rightarrow> None
     | Some k \<Rightarrow> if is_digit c then Some (10 * k + int (ord_of c) - 48) else None)"
  by (induction n xs rule: digits_onto.induct) simp_all

lemma number_show_nat: "number (show_nat n) = Some (int n)"
proof -
  have digit: "is_digit (char_of (48 + k) :: char) \<and> ord_of (char_of (48 + k) :: char) = 48 + k" if "k < 10" for k
    using that by (simp add: is_digit_def ord_of_char_of)
  have "digits_onto 0 (show_nat n) = Some (int n)"
  proof (induction n rule: show_nat.induct)
    case (1 n)
    show ?case
    proof (cases "n < 10")
      case True
      then show ?thesis using digit [of n] by (simp add: show_nat.simps [of n])
    next
      case False
      have "digits_onto 0 (show_nat (n div 10)) = Some (int (n div 10))" using 1 False by simp
      moreover have "10 * int (n div 10) + int (48 + n mod 10) - 48 = int n" by presburger
      ultimately show ?thesis using False digit [of "n mod 10"]
        by (simp add: show_nat.simps [of n] digits_onto_snoc)
    qed
  qed
  moreover have "show_nat n \<noteq> []" by (simp add: show_nat.simps [of n])
  ultimately show ?thesis by (simp add: number_def)
qed

lemma read_int_show: "read_int (show_int i) = Some i"
proof (cases "i < 0")
  case True
  then show ?thesis by (simp add: read_int_def show_int_def number_show_nat)
next
  case False
  obtain c t where s: "show_nat (nat i) = c # t" by (cases "show_nat (nat i)") (simp_all add: show_nat.simps [of "nat i"] split: if_splits)
  then have "is_digit c" using show_nat_digits [of c "nat i"] by simp
  moreover have "\<not> is_digit (CHR ''-'')" by code_simp
  ultimately have "c \<noteq> CHR ''-''" by metis
  then show ?thesis using False s number_show_nat [of "nat i"] by (simp add: read_int_def show_int_def)
qed

definition sample_coercions :: coercions where
  "sample_coercions =
     (let num = (\<lambda>j. case j of JNum s _ \<Rightarrow> read_int s | _ \<Rightarrow> None)
      in \<lparr>co_int = num, co_bool = (\<lambda>j. case j of JBool b \<Rightarrow> Some b | _ \<Rightarrow> None), co_float = num,
          co_time = (\<lambda>j. case j of JStr s \<Rightarrow> read_int s | _ \<Rightarrow> None), co_number = (\<lambda>_ _. True), 
          co_any = (\<lambda>j. case j of JNull \<Rightarrow> PNone | JBool b \<Rightarrow> PBool b | JNum s _ \<Rightarrow> PInt (the (read_int s)) | JStr s \<Rightarrow> PStr s
            | JArr xs \<Rightarrow> (case xs of [JStr s, JBool b] \<Rightarrow> PObj s b | _ \<Rightarrow> PObj [] (xs \<noteq> [])) | JObj d \<Rightarrow> PObj [] (d \<noteq> [])),
          co_any_json = (\<lambda>v. case v of PNone \<Rightarrow> JNull | PBool b \<Rightarrow> JBool b | PInt i \<Rightarrow> JNum (show_int i) (i \<noteq> 0)
            | PStr s \<Rightarrow> JStr s | PObj s b \<Rightarrow> JArr [JStr s, JBool b]),
          co_show_float = show_int, co_show_time = show_int\<rparr>)"

lemma sample_coercions_ok: "coercions_ok sample_coercions"
  by (auto simp: coercions_ok_def sample_coercions_def Let_def read_int_show split: pyval.split)

instance json :: countable
  by countable_datatype

definition sample_dumps :: "json \<Rightarrow> string" where
  "sample_dumps j = replicate (to_nat j) (CHR ''|'')"

definition sample_loads :: "string \<Rightarrow> exn + json" where
  "sample_loads t = Inr (from_nat (length t))"

lemma sample_json_text: "json_text_ok co sample_dumps sample_loads"
  by (simp add: json_text_ok_def sample_loads_def sample_dumps_def)

end
