(* ===== verification/Briefing.thy ===== *)
theory Briefing
  imports Report_Ids Ranking Model_Json
begin

text \<open>
  \<open>core/briefing_orchestrator.py\<close> and \<open>memory/briefing_session_store.py\<close>: the briefing
  pipeline. The query handler is a function over its own state, as the code sees it through the
  \<open>QueryHandler\<close> protocol; the other collaborators of one call (decomposer, issue details,
  analyser, Confluence research, delivery, side file) are functions of what they are given; the clock is read once for the lookup and once
  for the write. Dictionaries are association lists in insertion order.
\<close>

subsection \<open>Pending state and its store\<close>

record BriefingPendingState =
  bp_session_id :: string
  bp_agenda_text :: string
  bp_topics :: "AgendaTopic list"
  bp_current_topic_idx :: nat
  bp_completed_results :: "(string \<times> QueryResponse) list"

definition briefing_get :: "BriefingPendingState ttl_store \<Rightarrow> int \<Rightarrow> string \<Rightarrow>
    BriefingPendingState option \<times> BriefingPendingState ttl_store" where
  "briefing_get st now sid = ttl_get st now sid"

definition briefing_set :: "BriefingPendingState ttl_store \<Rightarrow> int \<Rightarrow> BriefingPendingState \<Rightarrow>
    BriefingPendingState ttl_store" where
  "briefing_set st now b = ttl_set bp_session_id st now b"

definition briefing_delete :: "BriefingPendingState ttl_store \<Rightarrow> string \<Rightarrow> BriefingPendingState ttl_store"
  where "briefing_delete st sid = ttl_delete st sid"

interpretation memory_briefings:
  session_store briefing_get briefing_set briefing_delete live bp_session_id st_ttl
  by unfold_locales
    (simp_all add: briefing_get_def briefing_set_def briefing_delete_def live_ttl_get live_ttl_set
      live_ttl_delete)

subsection \<open>Collaborators and settings\<close>

type_synonym refs = "(string \<times> ConfluenceReference list) list"

record bsettings =
  b_issues_per_topic :: int
  b_top_n :: int
  b_max_analysed_issues :: int
  b_view_url_base :: "string option"
  b_comments_limit :: int
  b_delivery_enabled :: bool
  b_rule :: RankingRule

record benv =
  be_decompose :: "string \<Rightarrow> string list option \<Rightarrow> exn + AgendaTopic list"
  be_details :: "string list \<Rightarrow> int \<Rightarrow> exn + IssueDetailsResponse"
  be_analyse :: "IssueDetailsResponse \<Rightarrow> string list \<Rightarrow> (string \<times> string) list \<Rightarrow> refs \<Rightarrow> bool \<Rightarrow>
                   exn + BlockerAnalysis list"
  be_research :: "(AgendaTopic list \<Rightarrow> string list \<Rightarrow> bool \<Rightarrow> exn + refs) option"
  be_deliver :: "string \<Rightarrow> string \<Rightarrow> exn + string"
  be_store_json :: "string \<Rightarrow> BriefingSection list \<Rightarrow> exn + unit"
  be_clock :: int
  be_clock_later :: int
  be_today :: int
  be_timestamp :: string
  be_stamp :: string
  be_hex :: string

record bargs =
  bg_agenda_text :: string
  bg_session_id :: string
  bg_projects :: "string list option"
  bg_clarification_answer :: "string option"
  bg_force_refresh :: bool

subsection \<open>The topics\<close>

definition topic_session_id :: "string \<Rightarrow> AgendaTopic \<Rightarrow> string" where
  "topic_session_id sid topic = sid @ ''__topic_'' @ at_topic_id topic"

definition topic_query :: "bsettings \<Rightarrow> string \<Rightarrow> AgendaTopic \<Rightarrow> string option \<Rightarrow> qargs" where
  "topic_query cfg sid topic answer = \<lparr>q_query = at_suggested_query topic,
     q_session_id = topic_session_id sid topic, q_clarification_answer = answer,
     q_limit = Some (b_issues_per_topic cfg), q_show_in_ui = False\<rparr>"

definition topic_errors :: "AgendaTopic \<Rightarrow> QueryResponse \<Rightarrow> string list" where
  "topic_errors topic r = map (\<lambda>e. ''['' @ at_topic_id topic @ ''] '' @ e) (qr_errors r)"

datatype topics_outcome =
    TopicsRaised exn
  | TopicsAsk nat AgendaTopic "(string \<times> QueryResponse) list" QueryResponse
  | TopicsDone "(string \<times> QueryResponse) list" "string list"

text \<open>The topics from index \<open>i\<close> on; the answer goes to the first of them only.\<close>

fun dispatch_topics :: "(qargs \<Rightarrow> 'h \<Rightarrow> (exn + QueryResponse) \<times> 'h) \<Rightarrow> bsettings \<Rightarrow> string \<Rightarrow>
    string option \<Rightarrow> nat \<Rightarrow> AgendaTopic list \<Rightarrow> (string \<times> QueryResponse) list \<Rightarrow> string list \<Rightarrow> 'h \<Rightarrow>
    topics_outcome \<times> 'h" where
  "dispatch_topics hq cfg sid answer i [] completed errors h = (TopicsDone completed errors, h)"
| "dispatch_topics hq cfg sid answer i (topic # topics) completed errors h =
     (case hq (topic_query cfg sid topic answer) h of
        (Inl e, h') \<Rightarrow> (TopicsRaised e, h')
      | (Inr result, h') \<Rightarrow>
          if qr_requires_user_input result then (TopicsAsk i topic completed result, h')
          else dispatch_topics hq cfg sid None (Suc i) topics
                 (AList.update (at_topic_id topic) result completed)
                 (errors @ topic_errors topic result) h')"

subsection \<open>The sections\<close>

definition issue_keys_of :: "QueryResponse option \<Rightarrow> string list" where
  "issue_keys_of r =
     (case r of
        None \<Rightarrow> []
      | Some q \<Rightarrow> map (\<lambda>issue. py_str (get_either issue ''key'' ''Key''))
                   (filter (\<lambda>issue. py_truth (get_either issue ''key'' ''Key'')) (qr_issues q)))"

definition issue_summaries_of :: "QueryResponse option \<Rightarrow> (string \<times> string) list" where
  "issue_summaries_of r =
     (case r of
        None \<Rightarrow> []
      | Some q \<Rightarrow> map (\<lambda>issue. (py_str (get_either issue ''key'' ''Key''),
                              py_str (get_either issue ''summary'' ''Summary'')))
                   (filter (\<lambda>issue. py_truth (get_either issue ''key'' ''Key'') \<and>
                      py_truth (get_either issue ''summary'' ''Summary'')) (qr_issues q)))"

definition topic_keys :: "AgendaTopic list \<Rightarrow> (string \<times> QueryResponse) list \<Rightarrow> (string \<times> string list) list"
  where
  "topic_keys topics completed =
     dict_of (map (\<lambda>t. (at_topic_id t, issue_keys_of (map_of completed (at_topic_id t)))) topics)"

definition all_issue_keys :: "AgendaTopic list \<Rightarrow> (string \<times> QueryResponse) list \<Rightarrow> string list" where
  "all_issue_keys topics completed =
     dedup (concat (map (\<lambda>t. issue_keys_of (map_of completed (at_topic_id t))) topics))"

definition all_summaries :: "AgendaTopic list \<Rightarrow> (string \<times> QueryResponse) list \<Rightarrow> (string \<times> string) list"
  where
  "all_summaries topics completed =
     dict_of (concat (map (\<lambda>t. issue_summaries_of (map_of completed (at_topic_id t))) topics))"

definition kept_keys :: "bsettings \<Rightarrow> string list \<Rightarrow> string list" where
  "kept_keys cfg keys =
     (if b_max_analysed_issues cfg < int (length keys) then py_take (b_max_analysed_issues cfg) keys else keys)"

text \<open>\<open>dropped_keys_per_topic\<close>: how many keys of a topic fell to the cap, where any did.\<close>

definition dropped_per_topic :: "string list \<Rightarrow> (string \<times> string list) list \<Rightarrow> (string \<times> nat) list" where
  "dropped_per_topic kept tks =
     filter (\<lambda>(t, n). n \<noteq> 0) (map (\<lambda>(t, ks). (t, length (filter (\<lambda>k. k \<notin> set kept) ks))) tks)"

definition cap_errors :: "bsettings \<Rightarrow> string list \<Rightarrow> (string \<times> string list) list \<Rightarrow> string list" where
  "cap_errors cfg kept tks =
     map (\<lambda>(t, ks). ''['' @ t @ ''] all '' @ show_nat (length ks) @ '' issue(s) skipped - max_analysed_issues cap (''
            @ show_int (b_max_analysed_issues cfg) @ '') reached before this topic.'')
       (filter (\<lambda>(t, ks). ks \<noteq> [] \<and> (\<forall>k \<in> set ks. k \<notin> set kept)) tks)"

definition analysis_map :: "BlockerAnalysis list \<Rightarrow> (string \<times> BlockerAnalysis) list" where
  "analysis_map as = dict_of (map (\<lambda>a. (ba_issue_key a, a)) as)"

definition build_section :: "bsettings \<Rightarrow> int \<Rightarrow> (string \<times> QueryResponse) list \<Rightarrow>
    (string \<times> string list) list \<Rightarrow> (string \<times> nat) list \<Rightarrow> (string \<times> BlockerAnalysis) list \<Rightarrow>
    AgendaTopic \<Rightarrow> BriefingSection" where
  "build_section cfg today completed tks dropped amap topic =
     (let result = map_of completed (at_topic_id topic);
          keys = (case map_of tks (at_topic_id topic) of None \<Rightarrow> [] | Some ks \<Rightarrow> ks);
          found = concat (map (\<lambda>k. case map_of amap k of None \<Rightarrow> [] | Some a \<Rightarrow> [a]) keys)
      in \<lparr>bs_topic_id = at_topic_id topic, bs_description = at_description topic,
          bs_query_used = Some (at_suggested_query topic),
          bs_jql = (case result of None \<Rightarrow> None | Some r \<Rightarrow> qr_jql r),
          bs_top_issues = rank (b_rule cfg) today found (Some (b_top_n cfg)),
          bs_total_found = (case result of None \<Rightarrow> 0 | Some r \<Rightarrow> qr_total r),
          bs_errors = (case result of None \<Rightarrow> [] | Some r \<Rightarrow> qr_errors r)
            @ (case map_of dropped (at_topic_id topic) of
                 None \<Rightarrow> []
               | Some n \<Rightarrow> [show_nat n @ '' issue(s) dropped from this topic due to max_analysed_issues cap (''
                   @ show_int (b_max_analysed_issues cfg) @ ''); results are partial.''])\<rparr>)"

text \<open>\<open>_build_sections\<close>: the sections and the grown list of errors.\<close>

definition fetch_details :: "bsettings \<Rightarrow> benv \<Rightarrow> string list \<Rightarrow> string list \<Rightarrow>
    exn + IssueDetailsResponse \<times> string list" where
  "fetch_details cfg env keys errors =
     (let none = \<lparr>dr_issues = [], dr_not_found = [], dr_error = None\<rparr>
      in if keys = [] then Inr (none, errors)
         else (case be_details env keys (b_comments_limit cfg) of
                 Inr d \<Rightarrow> Inr (d, errors @ (if given (dr_error d)
                            then [''issue_details error: '' @ the (dr_error d)] else []))
               | Inl e \<Rightarrow>
                   if is_LiteBackendError e \<or> is_OSError e
                   then Inr (none, errors @ [''issue_details fetch failed: '' @ exn_str e])
                   else Inl e))"

definition run_analysis :: "benv \<Rightarrow> IssueDetailsResponse \<Rightarrow> string list \<Rightarrow> (string \<times> string) list \<Rightarrow>
    refs \<Rightarrow> bool \<Rightarrow> string list \<Rightarrow> exn + BlockerAnalysis list \<times> string list" where
  "run_analysis env details keys summaries refs force errors =
     (if keys = [] then Inr ([], errors)
      else (case be_analyse env details keys summaries refs force of
              Inr as \<Rightarrow> Inr (as, errors)
            | Inl e \<Rightarrow>
                if is_AnalysisError e then Inr ([], errors @ [''issue analysis failed: '' @ exn_str e])
                else Inl e))"

definition build_sections :: "bsettings \<Rightarrow> benv \<Rightarrow> AgendaTopic list \<Rightarrow> (string \<times> QueryResponse) list \<Rightarrow>
    string list \<Rightarrow> refs \<Rightarrow> bool \<Rightarrow> exn + BriefingSection list \<times> string list" where
  "build_sections cfg env topics completed errors refs force =
     (let tks = topic_keys topics completed;
          all_keys = all_issue_keys topics completed;
          capped = (b_max_analysed_issues cfg < int (length all_keys));
          keys = kept_keys cfg all_keys;
          dropped = (if capped then dropped_per_topic keys tks else []);
          errors1 = errors @ (if capped then cap_errors cfg keys tks else [])
      in case fetch_details cfg env keys errors1 of
           Inl e \<Rightarrow> Inl e
         | Inr (details, errors2) \<Rightarrow>
             (case run_analysis env details keys (all_summaries topics completed) refs force errors2 of
                Inl e \<Rightarrow> Inl e
              | Inr (as, errors3) \<Rightarrow>
                  Inr (map (build_section cfg (be_today env) completed tks dropped (analysis_map as)) topics,
                       errors3)))"

subsection \<open>\<open>generate_briefing\<close>\<close>

definition confluence_refs_of :: "benv \<Rightarrow> AgendaTopic list \<Rightarrow> (string \<times> QueryResponse) list \<Rightarrow> bool \<Rightarrow> refs"
  where
  "confluence_refs_of env topics completed force =
     (case be_research env of
        None \<Rightarrow> []
      | Some research \<Rightarrow>
          (case research topics (concat (map (\<lambda>(_, r). issue_keys_of (Some r)) completed)) force of
             Inl e \<Rightarrow> []
           | Inr refs \<Rightarrow> refs))"

definition briefing_view_url :: "bsettings \<Rightarrow> string \<Rightarrow> string option" where
  "briefing_view_url cfg report_id =
     (if given (b_view_url_base cfg)
      then Some (rstrip_char (CHR ''/'') (the (b_view_url_base cfg)) @ ''/'' @ report_id) else None)"

text \<open>Writing the report and its JSON side file: path, errors, or an exception.\<close>

definition deliver_briefing :: "bsettings \<Rightarrow> benv \<Rightarrow> string \<Rightarrow> string \<Rightarrow> BriefingSection list \<Rightarrow>
    string list \<Rightarrow> exn + string option \<times> string list" where
  "deliver_briefing cfg env report_id content sections errors =
     (if \<not> b_delivery_enabled cfg then Inr (None, errors)
      else
        (case be_deliver env report_id content of
           Inl e \<Rightarrow>
             if is_OSError e \<or> is_NetraError e
             then Inr (None, errors @ [''report not written: '' @ exn_str e]) else Inl e
         | Inr path \<Rightarrow>
             (case be_store_json env report_id sections of
                Inl e \<Rightarrow>
                  if is_OSError e
                  then Inr (Some path, errors @ [''report JSON sidecar not written: '' @ exn_str e])
                  else Inl e
              | Inr _ \<Rightarrow> Inr (Some path, errors))))"

text \<open>The side file; \<open>dumps\<close> is \<open>json.dumps\<close> and \<open>put\<close> writes a file of the report folder.\<close>

definition briefing_json :: "coercions \<Rightarrow> string \<Rightarrow> BriefingSection list \<Rightarrow> json" where
  "briefing_json co report_id sections = JObj [(''report_id'', JStr report_id),
     (''sections'', JArr (map (dump_section co) sections))]"

definition store_briefing_json :: "coercions \<Rightarrow> (json \<Rightarrow> string) \<Rightarrow> (string \<Rightarrow> string \<Rightarrow> exn + unit) \<Rightarrow> string \<Rightarrow>
    BriefingSection list \<Rightarrow> exn + unit" where
  "store_briefing_json co dumps put report_id sections =
     put (report_id @ ''.json'') (dumps (briefing_json co report_id sections))"

definition finish_briefing :: "bsettings \<Rightarrow> benv \<Rightarrow> bargs \<Rightarrow> BriefingPendingState \<Rightarrow>
    (string \<times> QueryResponse) list \<Rightarrow> string list \<Rightarrow> exn + BriefingResponse" where
  "finish_briefing cfg env a pending completed errors =
     (let topics = bp_topics pending; sid = bg_session_id a;
          refs = confluence_refs_of env topics completed (bg_force_refresh a)
      in case build_sections cfg env topics completed errors refs (bg_force_refresh a) of
           Inl e \<Rightarrow> Inl e
         | Inr (sections, errors1) \<Rightarrow>
             let report_id = make_report_id (be_stamp env) (be_hex env) sid;
                 content = build_briefing_report (be_timestamp env) (bp_agenda_text pending) sections sid
             in case deliver_briefing cfg env report_id content sections errors1 of
                  Inl e \<Rightarrow> Inl e
                | Inr (path, errors2) \<Rightarrow>
                    Inr ((briefing_response report_id sid)\<lparr>br_sections := sections,
                       br_report_path := path, br_view_url := briefing_view_url cfg report_id,
                       br_errors := errors2\<rparr>))"

definition pending_response :: "string \<Rightarrow> AgendaTopic \<Rightarrow> QueryResponse \<Rightarrow> BriefingResponse" where
  "pending_response sid topic result =
     (briefing_response (''pending_'' @ sid) sid)\<lparr>br_requires_user_input := True,
        br_clarification_question := qr_clarification_question result,
        br_pending_topic_id := Some (at_topic_id topic)\<rparr>"

definition run_briefing :: "(qargs \<Rightarrow> 'h \<Rightarrow> (exn + QueryResponse) \<times> 'h) \<Rightarrow> bsettings \<Rightarrow> benv \<Rightarrow>
    bargs \<Rightarrow> BriefingPendingState \<Rightarrow> BriefingPendingState ttl_store \<Rightarrow> 'h \<Rightarrow>
    (exn + BriefingResponse) \<times> BriefingPendingState ttl_store \<times> 'h" where
  "run_briefing hq cfg env a pending store h =
     (let i = bp_current_topic_idx pending; sid = bg_session_id a
      in case dispatch_topics hq cfg sid (bg_clarification_answer a) i (drop i (bp_topics pending))
                (bp_completed_results pending) [] h of
           (TopicsRaised e, h') \<Rightarrow> (Inl e, store, h')
         | (TopicsAsk j topic completed result, h') \<Rightarrow>
             (Inr (pending_response sid topic result),
              briefing_set store (be_clock_later env)
                (pending\<lparr>bp_current_topic_idx := j, bp_completed_results := completed\<rparr>), h')
         | (TopicsDone completed errors, h') \<Rightarrow>
             (finish_briefing cfg env a pending completed errors, briefing_delete store sid, h'))"

definition failed_response :: "string \<Rightarrow> exn \<Rightarrow> BriefingResponse" where
  "failed_response sid e =
     (briefing_response (''failed_'' @ sid) sid)\<lparr>br_errors := [''agenda decomposition failed: '' @ exn_str e]\<rparr>"

definition empty_response :: "string \<Rightarrow> BriefingResponse" where
  "empty_response sid =
     (briefing_response (''empty_'' @ sid) sid)\<lparr>br_errors :=
        [''no data questions could be extracted from the agenda'']\<rparr>"

definition generate_briefing :: "(qargs \<Rightarrow> 'h \<Rightarrow> (exn + QueryResponse) \<times> 'h) \<Rightarrow> bsettings \<Rightarrow> benv \<Rightarrow>
    bargs \<Rightarrow> BriefingPendingState ttl_store \<Rightarrow> 'h \<Rightarrow>
    (exn + BriefingResponse) \<times> BriefingPendingState ttl_store \<times> 'h" where
  "generate_briefing hq cfg env a store h =
     (let sid = bg_session_id a; got = briefing_get store (be_clock env) sid
      in case fst got of
           Some pending \<Rightarrow> run_briefing hq cfg env a pending (snd got) h
         | None \<Rightarrow>
             (case be_decompose env (bg_agenda_text a) (bg_projects a) of
                Inl e \<Rightarrow>
                  if is_DecompositionError e
                  then (Inr (failed_response sid e), snd got, h)
                  else (Inl e, snd got, h)
              | Inr topics \<Rightarrow>
                  if topics = []
                  then (Inr (empty_response sid), snd got, h)
                  else run_briefing hq cfg env a
                         \<lparr>bp_session_id = sid, bp_agenda_text = bg_agenda_text a, bp_topics = topics,
                          bp_current_topic_idx = 0, bp_completed_results = []\<rparr> (snd got) h))"

subsection \<open>\<open>get_briefing_report\<close>\<close>

text \<open>
  The files of the report folder, by name; the path of a file as text; reading one may raise.
  \<open>loads\<close> is \<open>json.loads\<close>; \<open>repr\<close> is Python's. Of the decoded side file, \<open>data.get\<close> and the loop
  over the sections raise what Python raises when it has another shape.
\<close>

definition read_sections :: "coercions \<Rightarrow> (string \<Rightarrow> exn + json) \<Rightarrow> string \<Rightarrow> exn + BriefingSection list" where
  "read_sections co loads raw =
     andthen (loads raw) (\<lambda>data. andthen (json_get data ''sections'' (JArr [])) (\<lambda>sections.
     andthen (json_iter sections) (traverse (validate_section co))))"

definition get_briefing_report :: "bsettings \<Rightarrow> (string \<Rightarrow> string) \<Rightarrow> (string \<rightharpoonup> exn + string) \<Rightarrow> (string \<Rightarrow> string) \<Rightarrow>
    coercions \<Rightarrow> (string \<Rightarrow> exn + json) \<Rightarrow> string \<Rightarrow> exn + ReportResponse" where
  "get_briefing_report cfg repr files path_of co loads report_id =
     (if \<not> is_safe_report_id report_id
      then Inl (ValueError (''report_id contains unsafe characters: '' @ repr report_id))
      else
        let md = report_id @ ''.md''; md_path = (if files md = None then None else Some (path_of md))
        in case files (report_id @ ''.json'') of
             None \<Rightarrow> Inr ((report_response report_id)\<lparr>rp_report_path := md_path, rp_errors :=
                  [''report JSON not found; this may be a query_jira report, not a briefing'']\<rparr>)
           | Some content \<Rightarrow>
               (case (case content of Inl e \<Rightarrow> Inl e | Inr raw \<Rightarrow> read_sections co loads raw) of
                  Inl e \<Rightarrow>
                    if is_OSError e \<or> is_ValueError e
                    then Inr ((report_response report_id)\<lparr>rp_errors := [''report could not be read: '' @ exn_str e]\<rparr>)
                    else Inl e
                | Inr sections \<Rightarrow>
                    Inr ((report_response report_id)\<lparr>rp_sections := sections, rp_report_path := md_path,
                      rp_view_url := briefing_view_url cfg report_id\<rparr>)))"

end
