(* ===== verification/LLM_Boundary.thy ===== *)
theory LLM_Boundary
  imports Netra_Errors
begin

text \<open>
  The contract every LLM call of the program keeps: one prompt, made from the input alone; an
  answer of the agent becomes the result; an error of the agent (\<open>AgentRunError\<close>,
  \<open>UserError\<close>) becomes the component's own error; anything else passes.
\<close>

text \<open>An agent raises its documented errors only.\<close>

definition agent_ok :: "(string \<Rightarrow> exn + 'a) \<Rightarrow> bool" where
  "agent_ok agent \<longleftrightarrow> (\<forall>prompt. case agent prompt of Inl e \<Rightarrow> is_AgentError e | Inr _ \<Rightarrow> True)"

lemma agent_ok_D: "agent_ok agent \<Longrightarrow> agent prompt = Inl e \<Longrightarrow> is_AgentError e"
  unfolding agent_ok_def by (metis sum.simps(5))

locale llm_boundary =
  fixes run :: "(string \<Rightarrow> exn + 'a) \<Rightarrow> 'i \<Rightarrow> exn + 'b"
    and prompt :: "'i \<Rightarrow> string"
    and result :: "'i \<Rightarrow> 'a \<Rightarrow> 'b"
    and own :: "exn \<Rightarrow> bool"
  assumes answered: "agent (prompt i) = Inr out \<Longrightarrow> run agent i = Inr (result i out)"
    and translated: "agent (prompt i) = Inl e \<Longrightarrow> is_AgentError e \<Longrightarrow> \<exists>e'. run agent i = Inl e' \<and> own e'"
    and passed: "agent (prompt i) = Inl e \<Longrightarrow> \<not> is_AgentError e \<Longrightarrow> run agent i = Inl e"
begin

lemma returns_iff: "(\<exists>r. run agent i = Inr r) \<longleftrightarrow> (\<exists>out. agent (prompt i) = Inr out)"
proof (cases "agent (prompt i)")
  case (Inl e)
  then show ?thesis using translated [of agent i e] passed [of agent i e] by (cases "is_AgentError e") auto
qed (simp add: answered)

lemma raises_own: "agent_ok agent \<Longrightarrow> run agent i = Inl e \<Longrightarrow> own e"
proof (cases "agent (prompt i)")
  case (Inl e')
  assume "agent_ok agent" "run agent i = Inl e"
  then show "own e" using Inl agent_ok_D [of agent "prompt i" e'] translated [of agent i e'] by auto
qed (simp add: answered)

lemma raises_what: "run agent i = Inl e \<Longrightarrow> own e \<or> agent (prompt i) = Inl e \<and> \<not> is_AgentError e"
proof (cases "agent (prompt i)")
  case (Inl e')
  assume "run agent i = Inl e"
  then show ?thesis using Inl translated [of agent i e'] passed [of agent i e'] by (cases "is_AgentError e'") auto
qed (simp add: answered)

lemma one_prompt: "agent (prompt i) = Inr out \<Longrightarrow> agent' (prompt i) = Inr out \<Longrightarrow> run agent i = run agent' i"
  by (simp add: answered)

end

end
