(* ===== verification/Agenda.thy ===== *)
theory Agenda
  imports Briefing LLM_Boundary
begin

text \<open>
  \<open>core/agenda_decomposer.py\<close>: one LLM call turns an agenda into topics. The agent is a function
  from the prompt; the topics it returns carry the ids it chose, possibly empty.
\<close>

definition build_agenda_prompt :: "string \<Rightarrow> string list option \<Rightarrow> string" where
  "build_agenda_prompt agenda_text projects =
     join [CHR 0x0A]
       ([''AGENDA TEXT:'', strip agenda_text] @
        (case projects of
           Some (p # ps) \<Rightarrow> [[], ''PROJECT SCOPE OVERRIDE: '' @ join '', '' (p # ps)]
         | _ \<Rightarrow> []) @
        [[], ''-> Decompose the agenda into data questions per the system prompt.''])"

fun assign_ids :: "nat \<Rightarrow> AgendaTopic list \<Rightarrow> AgendaTopic list" where
  "assign_ids i [] = []"
| "assign_ids i (t # ts) =
     (if at_topic_id t = [] then t\<lparr>at_topic_id := ''topic_'' @ show_nat (i + 1)\<rparr> else t) # assign_ids (Suc i) ts"

definition decompose :: "(string \<Rightarrow> exn + AgendaTopic list) \<Rightarrow> int \<Rightarrow> string \<Rightarrow> string list option \<Rightarrow>
    exn + AgendaTopic list" where
  "decompose agent max_topics agenda_text projects =
     (case agent (build_agenda_prompt agenda_text projects) of
        Inr topics \<Rightarrow> Inr (assign_ids 0 (py_take max_topics topics))
      | Inl e \<Rightarrow>
          Inl (if is_AgentError e then DecompositionError (''agenda decomposition LLM call failed: '' @ exn_str e)
               else e))"

interpretation agenda: llm_boundary
  "\<lambda>agent (max_topics, agenda_text, projects). decompose agent max_topics agenda_text projects"
  "\<lambda>(max_topics, agenda_text, projects). build_agenda_prompt agenda_text projects"
  "\<lambda>(max_topics, agenda_text, projects) topics. assign_ids 0 (py_take max_topics topics)" is_DecompositionError
  by unfold_locales (auto simp: decompose_def)

text \<open>A briefing whose agenda the LLM cannot decompose answers with an error, stores nothing and
  asks the query handler nothing.\<close>

theorem undecomposed_agenda_is_reported:
  assumes "be_decompose env = decompose agent max_topics" and "agent_ok agent"
    and "agent (build_agenda_prompt (bg_agenda_text a) (bg_projects a)) = Inl e"
    and "fst (briefing_get store (be_clock env) (bg_session_id a)) = None"
  shows "\<exists>e'. generate_briefing hq cfg env a store h =
     (Inr (failed_response (bg_session_id a) e'), snd (briefing_get store (be_clock env) (bg_session_id a)), h)"
proof -
  obtain e' where e': "decompose agent max_topics (bg_agenda_text a) (bg_projects a) = Inl e'" "is_DecompositionError e'"
    using agenda.translated [of agent "(max_topics, bg_agenda_text a, bg_projects a)" e]
      agent_ok_D [OF assms(2,3)] assms(3) by auto
  then show ?thesis using assms(1,4) by (auto simp: generate_briefing_def Let_def)
qed

subsection \<open>Assigned ids\<close>

definition numbered :: "nat \<Rightarrow> string" where
  "numbered i = ''topic_'' @ show_nat (i + 1)"

lemma show_nat_value: "foldl (\<lambda>a c. 10 * a + (ord_of c - 48)) 0 (show_nat n) = n"
proof (induction n rule: show_nat.induct)
  case (1 n)
  have d: "ord_of (char_of (48 + k :: nat)) = 48 + k" if "k < 10" for k :: nat
    using that by (intro ord_of_char_of) simp
  show ?case
    using 1 d by (cases "n < 10") (simp_all add: show_nat.simps [of n])
qed

lemma numbered_inj: "numbered i = numbered j \<longleftrightarrow> i = j"
proof
  assume "numbered i = numbered j"
  then have "show_nat (i + 1) = show_nat (j + 1)" by (simp add: numbered_def)
  then show "i = j" using show_nat_value [of "i + 1"] show_nat_value [of "j + 1"] by simp
qed simp

lemma assign_ids_nth:
  "map at_topic_id (assign_ids i ts) =
     map (\<lambda>(k, t). if at_topic_id t = [] then numbered k else at_topic_id t) (zip [i..<i + length ts] ts)"
  by (induction ts arbitrary: i) (simp_all add: numbered_def upt_rec)

lemma length_assign_ids [simp]: "length (assign_ids i ts) = length ts"
  by (induction ts arbitrary: i) simp_all

lemma assign_ids_rest:
  "map (\<lambda>t. (at_description t, at_suggested_query t, at_projects t)) (assign_ids i ts) =
   map (\<lambda>t. (at_description t, at_suggested_query t, at_projects t)) ts"
  by (induction ts arbitrary: i) simp_all

definition own_ids :: "AgendaTopic list \<Rightarrow> string list" where
  "own_ids ts = filter (\<lambda>x. x \<noteq> []) (map at_topic_id ts)"

lemma ids_Cons: "map at_topic_id (assign_ids i (t # ts)) =
    (if at_topic_id t = [] then numbered i else at_topic_id t) # map at_topic_id (assign_ids (Suc i) ts)"
  by (simp add: numbered_def)

lemma own_ids_Cons: "own_ids (t # ts) = (if at_topic_id t = [] then own_ids ts else at_topic_id t # own_ids ts)"
  by (simp add: own_ids_def)

lemma ids_subset:
  "set (map at_topic_id (assign_ids i ts)) \<subseteq> set (own_ids ts) \<union> numbered ` {i..}"
proof (induction ts arbitrary: i)
  case (Cons t ts)
  have "numbered ` {Suc i..} \<subseteq> numbered ` {i..}" by (intro image_mono) auto
  then have "set (map at_topic_id (assign_ids (Suc i) ts)) \<subseteq> set (own_ids ts) \<union> numbered ` {i..}"
    using Cons.IH [of "Suc i"] by blast
  then show ?case unfolding ids_Cons own_ids_Cons by simp blast
qed simp

lemma assign_ids_distinct:
  assumes "distinct (own_ids ts)" and "\<forall>x \<in> set (own_ids ts). \<forall>k. x \<noteq> numbered k"
  shows "distinct (map at_topic_id (assign_ids i ts))"
  using assms
proof (induction ts arbitrary: i)
  case (Cons t ts)
  have own: "distinct (own_ids ts)" "\<forall>x \<in> set (own_ids ts). \<forall>k. x \<noteq> numbered k"
    using Cons.prems by (simp_all add: own_ids_Cons split: if_splits)
  have "numbered i \<notin> numbered ` {Suc i..}" by (auto simp: numbered_inj)
  then have "(if at_topic_id t = [] then numbered i else at_topic_id t) \<notin> set (own_ids ts) \<union> numbered ` {Suc i..}"
    using Cons.prems by (auto simp: own_ids_Cons split: if_splits)
  then show ?case unfolding ids_Cons using Cons.IH [OF own, of "Suc i"] ids_subset [of "Suc i" ts] by auto
qed simp

subsection \<open>Properties\<close>

text \<open>A decomposition keeps the first \<open>max_topics\<close> topics as the LLM gave them, in their
  order, and gives an id to each that has none; the ids of a decomposition are never empty, and
  they are distinct when the LLM's own ones are and none of them looks like an assigned one.\<close>

theorem decomposed_topics:
  assumes "agent (build_agenda_prompt agenda projects) = Inr llm"
    and "distinct (own_ids (py_take max_topics llm))"
    and "\<forall>x \<in> set (own_ids (py_take max_topics llm)). \<forall>k. x \<noteq> numbered k"
  shows "\<exists>ts. decompose agent max_topics agenda projects = Inr ts \<and>
     map (\<lambda>t. (at_description t, at_suggested_query t, at_projects t)) ts =
       map (\<lambda>t. (at_description t, at_suggested_query t, at_projects t)) (py_take max_topics llm) \<and>
     (\<forall>k < length ts. at_topic_id (ts ! k) =
        (let own = at_topic_id (py_take max_topics llm ! k) in if own = [] then numbered k else own)) \<and>
     [] \<notin> set (map at_topic_id ts) \<and> distinct (map at_topic_id ts)"
proof -
  let ?ts = "py_take max_topics llm"
  have "at_topic_id (assign_ids 0 ?ts ! k) = (let own = at_topic_id (?ts ! k) in if own = [] then numbered k else own)"
    if "k < length ?ts" for k
    using arg_cong [OF assign_ids_nth [of 0 ?ts], where f = "\<lambda>xs. xs ! k"] that by (simp add: Let_def)
  moreover have "[] \<notin> set (map at_topic_id (assign_ids 0 ?ts))"
    unfolding assign_ids_nth by (auto simp: numbered_def split: if_splits)
  ultimately show ?thesis
    using assms assign_ids_distinct [of ?ts 0]
    by (intro exI [of _ "assign_ids 0 ?ts"]) (simp add: decompose_def assign_ids_rest)
qed

definition sample_topic :: "string \<Rightarrow> string \<Rightarrow> AgendaTopic" where
  "sample_topic i d = \<lparr>at_topic_id = i, at_description = d, at_suggested_query = d, at_projects = []\<rparr>"

theorem decomposed_topics_witness:
  "\<exists>ts. decompose (\<lambda>_. Inr [sample_topic ''risk'' ''a'', sample_topic [] ''b'', sample_topic [] ''c'']) 2 ''x'' None = Inr ts \<and>
     map at_topic_id ts = [''risk'', numbered 1] \<and> distinct (map at_topic_id ts)"
proof -
  have "\<forall>k. ''risk'' \<noteq> numbered k" by (simp add: numbered_def)
  then show ?thesis
    using decomposed_topics [of "\<lambda>_. Inr [sample_topic ''risk'' ''a'', sample_topic [] ''b'', sample_topic [] ''c'']"
        "''x''" None "[sample_topic ''risk'' ''a'', sample_topic [] ''b'', sample_topic [] ''c'']" 2]
    by (simp add: own_ids_def sample_topic_def decompose_def numbered_def)
qed

text \<open>An assigned id can collide with one the LLM chose; the briefing then keeps the result of
  the later topic only, for both sections.\<close>

theorem colliding_ids_lose_a_result:
  "\<exists>ts. decompose (\<lambda>_. Inr [sample_topic ''topic_2'' ''a'', sample_topic [] ''b'']) 10 ''x'' None = Inr ts \<and>
     dispatch_topics (\<lambda>q n. (Inr ((query_response sid)\<lparr>qr_jql := Some (show_nat n)\<rparr>), Suc n)) cfg sid None 0 ts [] [] 0 =
       (TopicsDone [(''topic_2'', (query_response sid)\<lparr>qr_jql := Some (show_nat 1)\<rparr>)] [], 2)"
proof -
  have "''topic_'' @ show_nat 2 = ''topic_2''" by code_simp
  then show ?thesis
    by (simp add: decompose_def sample_topic_def query_response_def topic_errors_def numeral_2_eq_2)
qed

end
