(* ===== verification/Clarifier.thy ===== *)
theory Clarifier
  imports Vocabulary Netra_Models LLM_Boundary
begin

text \<open>
  \<open>core/clarifier.py\<close>: the prompts of the two LLM calls and the translation of their errors. The
  two agents are functions from the prompt, one to a \<open>ClarificationNeeded\<close>, one to a
  \<open>ResolvedTerms\<close>; the system prompt, the model and the retries are the agents' own.
\<close>

record ClarificationNeeded =
  cn_question :: string
  cn_terms :: "string list"

definition fields_block :: "JiraField list \<Rightarrow> string" where
  "fields_block jira_fields =
     (if jira_fields = []
      then ''JIRA FIELDS AVAILABLE: (metadata unavailable - use standard Jira field names)''
      else ''JIRA FIELDS AVAILABLE:'' @ [CHR 0x0A] @
           join [CHR 0x0A] (map (\<lambda>f. ''- '' @ jf_name f @ '' ('' @ jf_id f @ '')'') jira_fields))"

definition conventions_block :: "Convention list \<Rightarrow> string" where
  "conventions_block convs =
     (if convs = [] then ''KNOWN TEAM CONVENTIONS (skip these): none''
      else ''KNOWN TEAM CONVENTIONS (skip these):'' @ [CHR 0x0A] @
           join [CHR 0x0A] (map (\<lambda>c. ''- '' @ cv_term c @ '' -> '' @ cv_jql_hint c @ '' (project: '' @
             cv_project c @ '')'') convs))"

definition vocab_line :: "string \<times> VocabEntry \<Rightarrow> string" where
  "vocab_line e =
     (let patterns = join ''; '' (map (\<lambda>(key, jql). key @ '': '' @ jql) (ve_jql_patterns (snd e)))
      in ''- '' @ fst e @ '': '' @ ve_ambiguity (snd e) @
         (if patterns \<noteq> [] then '' | patterns: '' @ patterns else []))"

definition vocab_block :: "vocab \<Rightarrow> string" where
  "vocab_block v =
     (if v = [] then ''DISAMBIGUATION VOCAB: none''
      else ''DISAMBIGUATION VOCAB:'' @ [CHR 0x0A] @ join [CHR 0x0A] (map vocab_line v))"

definition question_prompt :: "string \<Rightarrow> string list \<Rightarrow> vocab \<Rightarrow> Convention list \<Rightarrow> JiraField list \<Rightarrow> string" where
  "question_prompt query terms v convs jira_fields =
     join [CHR 0x0A]
       [''OPERATION: FORMULATE QUESTION'', fields_block jira_fields, conventions_block convs,
        ''AMBIGUOUS TERMS DETECTED: '' @ join '', '' terms, vocab_block v, ''USER QUERY: '' @ query,
        ''-> Ask one targeted question covering all detected terms.'']"

definition formulate_question :: "(string \<Rightarrow> exn + ClarificationNeeded) \<Rightarrow> string \<Rightarrow> string list \<Rightarrow> vocab \<Rightarrow>
    Convention list \<Rightarrow> JiraField list \<Rightarrow> exn + ClarificationNeeded" where
  "formulate_question agent query terms v convs jira_fields =
     (case agent (question_prompt query terms v convs jira_fields) of
        Inr out \<Rightarrow> Inr out
      | Inl e \<Rightarrow> Inl (if is_AgentError e then ClarificationError (''failed to formulate question: '' @ exn_str e)
                      else e))"

definition answer_prompt :: "string \<Rightarrow> string list \<Rightarrow> string \<Rightarrow> vocab \<Rightarrow> string" where
  "answer_prompt query terms answer v =
     join [CHR 0x0A]
       [''OPERATION: RESOLVE ANSWER'', ''AMBIGUOUS TERMS: '' @ join '', '' terms, vocab_block v,
        ''ORIGINAL QUERY: '' @ query, ''USER ANSWER: '' @ answer,
        ''-> Resolve every listed term to a resolution_key and a JQL fragment.'']"

definition resolve_answer :: "(string \<Rightarrow> exn + TermResolutionOutput list) \<Rightarrow> string \<Rightarrow> string list \<Rightarrow> string \<Rightarrow>
    vocab \<Rightarrow> exn + TermResolutionOutput list" where
  "resolve_answer agent query terms answer v =
     (case agent (answer_prompt query terms answer v) of
        Inr out \<Rightarrow> Inr out
      | Inl e \<Rightarrow> Inl (if is_AgentError e then ClarificationError (''failed to resolve answer: '' @ exn_str e)
                      else e))"

subsection \<open>Both calls keep the contract of an LLM call\<close>

interpretation questions: llm_boundary
  "\<lambda>agent (query, terms, v, convs, fs). formulate_question agent query terms v convs fs"
  "\<lambda>(query, terms, v, convs, fs). question_prompt query terms v convs fs" "\<lambda>_ out. out" is_ClarificationError
  by unfold_locales (auto simp: formulate_question_def)

interpretation answers: llm_boundary
  "\<lambda>agent (query, terms, answer, v). resolve_answer agent query terms answer v"
  "\<lambda>(query, terms, answer, v). answer_prompt query terms answer v" "\<lambda>_ out. out" is_ClarificationError
  by unfold_locales (auto simp: resolve_answer_def)

lemma clarifier_errors:
  "agent_ok agent \<Longrightarrow> formulate_question agent query terms v convs fs = Inl e \<Longrightarrow> is_ClarificationError e"
  "agent_ok agent2 \<Longrightarrow> resolve_answer agent2 query terms answer v = Inl e \<Longrightarrow> is_ClarificationError e"
  using questions.raises_own [of agent "(query, terms, v, convs, fs)" e]
    answers.raises_own [of agent2 "(query, terms, answer, v)" e] by simp_all

end
