(* ===== verification/Netra_Settings.thy ===== *)
theory Netra_Settings
  imports Json
begin

text \<open>
  \<open>config/settings.py\<close>: the sections of the settings with their defaults, and the two
  validators that run before pydantic's own. Durations, floats in the code, are in
  milliseconds; a secret is its value; a path is its text. Where an option comes from (the
  environment, a \<open>.env\<close> file, the default) is decided by \<open>pydantic-settings\<close> and not modelled.
\<close>

subsection \<open>Sections\<close>

record LLMSettings =
  lm_model :: string
  lm_base_url :: "string option"
  lm_api_key :: "string option"
  lm_retries :: int

definition default_llm :: LLMSettings where
  "default_llm = \<lparr>lm_model = ''groq:llama-3.3-70b-versatile'', lm_base_url = None, lm_api_key = None,
     lm_retries = 2\<rparr>"

record BackendSettings =
  bk_base_url :: string
  bk_query_path :: string
  bk_health_path :: string
  bk_api_key :: "string option"
  bk_timeout :: int
  bk_max_retries :: int
  bk_retry_initial :: int
  bk_retry_max :: int
  bk_default_limit :: "int option"
  bk_issue_details_path :: string
  bk_comments_limit_default :: int

definition default_lite :: BackendSettings where
  "default_lite = \<lparr>bk_base_url = ''http://localhost:8000'', bk_query_path = ''/query'',
     bk_health_path = ''/health'', bk_api_key = None, bk_timeout = 300000, bk_max_retries = 3,
     bk_retry_initial = 500, bk_retry_max = 8000, bk_default_limit = Some 50,
     bk_issue_details_path = ''/issue_details'', bk_comments_limit_default = 20\<rparr>"

record FrontendSettings =
  fr_base_url :: string
  fr_inject_path :: string
  fr_timeout :: int
  fr_api_key :: "string option"

definition default_frontend :: FrontendSettings where
  "default_frontend = \<lparr>fr_base_url = ''http://localhost:8001'', fr_inject_path = ''/api/mcp/inject'',
     fr_timeout = 10000, fr_api_key = None\<rparr>"

record SessionSettings =
  sn_ttl :: int

definition default_session :: SessionSettings where
  "default_session = \<lparr>sn_ttl = 1800000\<rparr>"

record ClarificationSettings =
  cl_vocab_path :: string
  cl_prompt_path :: string
  cl_conventions_path :: string
  cl_jira_fields_path :: "string option"
  cl_allowed_values_path :: "string option"
  cl_jira_fields_url :: "string option"
  cl_allowed_values_url :: "string option"
  cl_max_rounds :: int
  cl_max_fields_in_prompt :: int

definition default_clarification :: ClarificationSettings where
  "default_clarification = \<lparr>cl_vocab_path = ''config/clarification_vocab.json'',
     cl_prompt_path = ''prompts/clarification_prompt.md'', cl_conventions_path = ''data/conventions.json'',
     cl_jira_fields_path = None, cl_allowed_values_path = None, cl_jira_fields_url = None,
     cl_allowed_values_url = None, cl_max_rounds = 3, cl_max_fields_in_prompt = 30\<rparr>"

record AnalysisSettings =
  an_prompt_path :: string
  an_agenda_prompt_path :: string
  an_max_concurrency :: int
  an_blocked_statuses :: "string list"
  an_ranking_rule_path :: string
  an_cache_max_size :: int

definition default_analysis :: AnalysisSettings where
  "default_analysis = \<lparr>an_prompt_path = ''prompts/issue_analysis_prompt.md'',
     an_agenda_prompt_path = ''prompts/agenda_decomposition_prompt.md'', an_max_concurrency = 2,
     an_blocked_statuses = [''Blocked'', ''Stalled'', ''On Hold'', ''Waiting''],
     an_ranking_rule_path = ''config/ranking_default.json'', an_cache_max_size = 1000\<rparr>"

record BriefingSettings =
  br_top_n :: int
  br_issues_per_topic :: int
  br_max_topics :: int
  br_max_analysed_issues :: int
  br_view_url_base :: "string option"

definition default_briefing :: BriefingSettings where
  "default_briefing = \<lparr>br_top_n = 5, br_issues_per_topic = 50, br_max_topics = 10,
     br_max_analysed_issues = 30, br_view_url_base = None\<rparr>"

text \<open>The literal types admit these values only.\<close>

datatype channel = Markdown_file
datatype transport = Stdio | Streamable_http
datatype backend = Memory | Valkey_backend

record DeliverySettings =
  dl_enabled :: bool
  dl_channel :: channel
  dl_output_dir :: string
  dl_max_issues :: int

definition default_delivery :: DeliverySettings where
  "default_delivery = \<lparr>dl_enabled = True, dl_channel = Markdown_file, dl_output_dir = ''data/reports'',
     dl_max_issues = 50\<rparr>"

record ValkeySettings =
  vs_url :: string
  vs_password :: "string option"

definition default_valkey :: ValkeySettings where
  "default_valkey = \<lparr>vs_url = ''redis://localhost:6379/0'', vs_password = None\<rparr>"

record ServerSettings =
  sv_transport :: transport
  sv_host :: string
  sv_port :: int
  sv_session_backend :: backend
  sv_public_url :: "string option"

definition default_server :: ServerSettings where
  "default_server = \<lparr>sv_transport = Stdio, sv_host = ''127.0.0.1'', sv_port = 8765,
     sv_session_backend = Memory, sv_public_url = None\<rparr>"

record LogSettings =
  lg_level :: string
  lg_json_logs :: bool
  lg_log_file :: "string option"

definition default_log :: LogSettings where
  "default_log = \<lparr>lg_level = ''INFO'', lg_json_logs = False, lg_log_file = Some ''data/logs/netra.log''\<rparr>"

record ConfluenceSettings =
  cn_base_url :: "string option"
  cn_api_token :: "string option"
  cn_email :: "string option"
  cn_default_spaces :: "string list"
  cn_search_limit :: int
  cn_max_pages_total :: int
  cn_concurrency :: int
  cn_content_max_chars :: int
  cn_page_cache_ttl :: int
  cn_recency_days :: int

definition default_confluence :: ConfluenceSettings where
  "default_confluence = \<lparr>cn_base_url = None, cn_api_token = None, cn_email = None, cn_default_spaces = [],
     cn_search_limit = 10, cn_max_pages_total = 8, cn_concurrency = 3, cn_content_max_chars = 10000,
     cn_page_cache_ttl = 300, cn_recency_days = 30\<rparr>"

record Settings =
  st_llm :: LLMSettings
  st_lite :: BackendSettings
  st_frontend :: FrontendSettings
  st_session :: SessionSettings
  st_clarification :: ClarificationSettings
  st_analysis :: AnalysisSettings
  st_briefing :: BriefingSettings
  st_delivery :: DeliverySettings
  st_server :: ServerSettings
  st_valkey :: ValkeySettings
  st_log :: LogSettings
  st_confluence :: ConfluenceSettings

definition default_settings :: Settings where
  "default_settings = \<lparr>st_llm = default_llm, st_lite = default_lite, st_frontend = default_frontend,
     st_session = default_session, st_clarification = default_clarification, st_analysis = default_analysis,
     st_briefing = default_briefing, st_delivery = default_delivery, st_server = default_server,
     st_valkey = default_valkey, st_log = default_log, st_confluence = default_confluence\<rparr>"

subsection \<open>Validators\<close>

text \<open>
  \<open>_parse_csv_or_json_list\<close>. A raw value is a JSON value: a string from the environment, a list
  from a caller. \<open>decode\<close> is \<open>json.loads\<close>, without a value where it raises.
\<close>

definition clean_items :: "(json \<Rightarrow> string) \<Rightarrow> json list \<Rightarrow> string list" where
  "clean_items repr items = filter (\<lambda>s. s \<noteq> []) (map (\<lambda>j. strip (json_str repr j)) items)"

definition unquoted :: "string \<Rightarrow> string" where
  "unquoted part = strip_where (\<lambda>c. c = CHR 0x27) (strip_where (\<lambda>c. c = CHR 0x22) (strip part))"

definition csv_items :: "string \<Rightarrow> string list" where
  "csv_items v = filter (\<lambda>s. s \<noteq> []) (map unquoted (split_char (CHR '','') v))"

definition parse_csv_or_json_list :: "(json \<Rightarrow> string) \<Rightarrow> (string \<Rightarrow> json option) \<Rightarrow> json \<Rightarrow> json" where
  "parse_csv_or_json_list repr decode v =
     (case v of
        JStr raw \<Rightarrow>
          let s = strip raw
          in if s = [] then JArr []
             else (case (if startswith s ''['' then decode s else None) of
                     Some (JArr items) \<Rightarrow> JArr (map JStr (clean_items repr items))
                   | _ \<Rightarrow> JArr (map JStr (csv_items raw)))
      | JArr items \<Rightarrow> JArr (map JStr (clean_items repr items))
      | _ \<Rightarrow> v)"

text \<open>The validator, then pydantic's own check of \<open>list[str]\<close>.\<close>

fun str_list :: "json list \<Rightarrow> exn + string list" where
  "str_list [] = Inr []"
| "str_list (JStr s # js) = andthen (str_list js) (\<lambda>ss. Inr (s # ss))"
| "str_list (_ # js) = Inl (ValidationError ''Input should be a valid string'')"

definition list_field :: "(json \<Rightarrow> string) \<Rightarrow> (string \<Rightarrow> json option) \<Rightarrow> json \<Rightarrow> exn + string list" where
  "list_field repr decode v =
     (case parse_csv_or_json_list repr decode v of
        JArr js \<Rightarrow> str_list js
      | _ \<Rightarrow> Inl (ValidationError ''Input should be a valid list''))"

text \<open>\<open>_empty_str_to_none\<close> of the log file.\<close>

definition empty_str_to_none :: "json \<Rightarrow> json" where
  "empty_str_to_none v = (case v of JStr s \<Rightarrow> if strip s = [] then JNull else v | _ \<Rightarrow> v)"

subsection \<open>Stripping and joining\<close>

lemma dropWhile_all: "dropWhile p s = s \<longleftrightarrow> s = [] \<or> \<not> p (hd s)"
  by (rule dropWhile_eq_self_iff)

lemma strip_where_id: "s \<noteq> [] \<Longrightarrow> strip_where p s = s \<longleftrightarrow> \<not> p (hd s) \<and> \<not> p (last s)"
proof
  assume ne: "s \<noteq> []" and eq: "strip_where p s = s"
  then have "length s \<le> length (dropWhile p s)"
    by (metis length_dropWhile_le length_rev strip_where_def)
  then have d: "dropWhile p s = s"
    by (metis append_same_eq append_self_conv2 length_append le_add2 le_antisym length_0_conv
        add_cancel_left_left takeWhile_dropWhile_id)
  then have "dropWhile p (rev s) = rev s" using eq by (simp add: strip_where_def rev_swap)
  then show "\<not> p (hd s) \<and> \<not> p (last s)" using d ne by (simp add: dropWhile_all hd_rev)
next
  assume "s \<noteq> []" "\<not> p (hd s) \<and> \<not> p (last s)"
  then show "strip_where p s = s" by (simp add: strip_where_def dropWhile_all [THEN iffD2] hd_rev)
qed

lemma strip_where_same: "s \<noteq> [] \<Longrightarrow> \<not> p (hd s) \<Longrightarrow> \<not> p (last s) \<Longrightarrow> strip_where p s = s"
  by (simp add: strip_where_id)

lemma strip_where_ends:
  assumes "strip_where p s \<noteq> []"
  shows "\<not> p (hd (strip_where p s))" "\<not> p (last (strip_where p s))"
proof -
  let ?t = "dropWhile p s"
  have ne: "dropWhile p (rev ?t) \<noteq> []" using assms by (simp add: strip_where_def)
  then show "\<not> p (last (strip_where p s))"
    unfolding strip_where_def by (simp add: last_rev hd_dropWhile)
  obtain u where u: "?t = strip_where p s @ u"
    by (metis rev_append rev_rev_ident strip_where_def takeWhile_dropWhile_id)
  then have "?t \<noteq> []" using assms by auto
  then have "\<not> p (hd ?t)" by (rule hd_dropWhile)
  then show "\<not> p (hd (strip_where p s))" using u assms by simp
qed

lemma strip_idem: "strip (strip s) = strip s"
proof (cases "strip s = []")
  case False
  then show ?thesis using strip_where_ends [of is_space s] by (simp add: strip_def strip_where_id)
qed simp

lemma split_join: "xs \<noteq> [] \<Longrightarrow> \<forall>x \<in> set xs. c \<notin> set x \<Longrightarrow> split_char c (join [c] xs) = xs"
proof (induction "[c]" xs rule: join.induct)
  case (2 x)
  then have "c \<notin> set x" by simp
  then show ?case by (induction x) auto
next
  case (3 x y xs)
  then have "c \<notin> set x" and IH: "split_char c (join [c] (y # xs)) = y # xs" by simp_all
  then have "split_char c (x @ c # join [c] (y # xs)) = x # y # xs" by (induction x) auto
  then show ?case by simp
qed simp

lemma str_list_map [simp]: "str_list (map JStr xs) = Inr xs"
  by (induction xs) simp_all

lemma list_field_JArr: "list_field repr decode (JArr items) = Inr (clean_items repr items)"
  by (simp add: list_field_def parse_csv_or_json_list_def)

lemma list_field_csv:
  assumes "strip raw \<noteq> []" and "\<not> startswith (strip raw) ''[''"
  shows "list_field repr decode (JStr raw) = Inr (csv_items raw)"
  using assms by (simp add: list_field_def parse_csv_or_json_list_def Let_def)

lemma csv_items_nonempty: "[] \<notin> set (csv_items v)"
  by (simp add: csv_items_def)

lemma clean_items_clean: "x \<in> set (clean_items repr items) \<Longrightarrow> x \<noteq> [] \<and> strip x = x"
  by (auto simp: clean_items_def strip_idem)

subsection \<open>Properties\<close>

text \<open>A list setting is a list of non-empty texts: every text and every list is accepted, a
  text never raises even when it is not the JSON it looks like, the items of a list are stripped,
  and any other value is a ValidationError.\<close>

theorem list_settings_are_texts:
  "case v of
     JStr raw \<Rightarrow> (\<exists>xs. list_field repr decode v = Inr xs \<and> [] \<notin> set xs)
   | JArr items \<Rightarrow> (\<exists>xs. list_field repr decode v = Inr xs \<and> [] \<notin> set xs \<and> map strip xs = xs)
   | _ \<Rightarrow> (\<exists>m. list_field repr decode v = Inl (ValidationError m))"
proof (cases v)
  case (JStr raw)
  consider "strip raw = []" | items where "strip raw \<noteq> []" "startswith (strip raw) ''[''" "decode (strip raw) = Some (JArr items)"
    | "strip raw \<noteq> []" "\<forall>items. (if startswith (strip raw) ''['' then decode (strip raw) else None) \<noteq> Some (JArr items)"
    by (metis option.distinct(1))
  then show ?thesis
  proof cases
    case 2
    then have "list_field repr decode v = Inr (clean_items repr items)"
      by (simp add: list_field_def parse_csv_or_json_list_def JStr)
    then show ?thesis using JStr clean_items_clean [of "[]" repr items] by auto
  next
    case 3
    then have "parse_csv_or_json_list repr decode v = JArr (map JStr (csv_items raw))"
      unfolding parse_csv_or_json_list_def Let_def JStr by (auto split: option.split json.split)
    then show ?thesis by (simp add: list_field_def csv_items_nonempty JStr)
  qed (simp add: JStr list_field_def parse_csv_or_json_list_def)
next
  case (JArr items)
  then show ?thesis using clean_items_clean [of _ repr items]
    by (auto simp: list_field_JArr intro: map_idI)
qed (simp_all add: list_field_def parse_csv_or_json_list_def)

text \<open>An item that the two documented forms can both carry.\<close>

definition plain_item :: "string \<Rightarrow> bool" where
  "plain_item x \<longleftrightarrow> x \<noteq> [] \<and> CHR '','' \<notin> set x \<and>
     list_all (\<lambda>c. \<not> is_space c \<and> c \<noteq> CHR 0x22 \<and> c \<noteq> CHR 0x27 \<and> c \<noteq> CHR ''['') [hd x, last x]"

lemma plain_item_D:
  assumes "plain_item x"
  shows "strip x = x" "unquoted x = x" "x \<noteq> []" "CHR '','' \<notin> set x"
  using assms by (auto simp: plain_item_def strip_def strip_where_same unquoted_def)

lemma csv_items_join:
  assumes "list_all plain_item xs" and "xs \<noteq> []"
  shows "csv_items (join '','' xs) = xs"
proof -
  have "split_char (CHR '','') (join '','' xs) = xs"
    using assms by (intro split_join) (auto simp: list_all_iff dest: plain_item_D)
  moreover have "map unquoted xs = xs" "filter (\<lambda>s. s \<noteq> []) xs = xs"
    using assms(1) by (auto simp: list_all_iff plain_item_D intro: map_idI filter_True)
  ultimately show ?thesis by (simp add: csv_items_def)
qed

lemma strip_join_plain:
  assumes "plain_item x"
  shows "strip (join '','' (x # xs)) \<noteq> [] \<and> \<not> startswith (strip (join '','' (x # xs))) ''[''"
proof -
  let ?s = "join '','' (x # xs)"
  obtain c t where s: "?s = c # t" and c: "\<not> is_space c" "c \<noteq> CHR ''[''"
    using assms by (cases x; cases xs) (auto simp: plain_item_def)
  then have "strip ?s = rev (dropWhile is_space (rev (c # t)))" by (simp add: strip_def strip_where_def)
  moreover have "\<exists>u. rev (dropWhile is_space (rev (c # t))) = c # u"
    using c(1) by (auto simp: dropWhile_append intro: exI [of _ "rev (dropWhile is_space (rev t))"])
  ultimately obtain u where "strip ?s = c # u" by auto
  then show ?thesis using c(2) by (simp add: startswith_def)
qed

text \<open>The two documented forms agree and read back: a list of plain items, written as
  comma-separated text or as a list, comes out as it is.\<close>

theorem list_settings_read_back:
  assumes "list_all plain_item xs"
  shows "list_field repr decode (JStr (join '','' xs)) = Inr xs \<and>
     list_field repr decode (JArr (map JStr xs)) = Inr xs"
proof
  show "list_field repr decode (JStr (join '','' xs)) = Inr xs"
  proof (cases xs)
    case Nil
    then show ?thesis by (simp add: list_field_def parse_csv_or_json_list_def)
  next
    case (Cons x ys)
    then show ?thesis using assms strip_join_plain [of x ys] list_field_csv [of "join '','' xs" repr decode] csv_items_join [of xs]
      by simp
  qed
  have "map strip xs = xs" "filter (\<lambda>s. s \<noteq> []) xs = xs"
    using assms by (auto simp: list_all_iff plain_item_D intro: map_idI filter_True)
  then show "list_field repr decode (JArr (map JStr xs)) = Inr xs"
    by (simp add: list_field_JArr clean_items_def comp_def)
qed

theorem list_settings_read_back_witness:
  "join '','' [''On Hold'', ''Blocked''] = ''On Hold,Blocked'' \<and>
   list_field (\<lambda>_. []) (\<lambda>_. None) (JStr ''On Hold,Blocked'') = Inr [''On Hold'', ''Blocked'']"
  using list_settings_read_back [of "[''On Hold'', ''Blocked'']" "\<lambda>_. []" "\<lambda>_. None"]
  by (simp add: plain_item_def is_space_def ord_of_def)

text \<open>A quoted item of comma-separated text keeps the blanks inside its quotes, so that it can be
  blank: it is then a status that no issue has, or a space key that no search accepts.\<close>

theorem csv_item_may_be_blank:
  "list_field repr decode (JStr ([CHR 0x22] @ '' '' @ [CHR 0x22] @ '',ENG'')) = Inr ['' '', ''ENG'']"
  by (simp add: list_field_def parse_csv_or_json_list_def csv_items_def unquoted_def strip_def strip_where_def
      startswith_def is_space_def ord_of_def Let_def)

end
