(* ===== verification/Clients.thy ===== *)
theory Clients
  imports Netra_Settings
begin

text \<open>
  The clients of the outside services and the session stores built on them (\<open>server.py\<close>,
  \<open>memory/store_factory.py\<close>, \<open>make_valkey_client\<close> of \<open>memory/valkey_stores.py\<close>, the constructor of
  \<open>confluence/client/client.py\<close>). A client is the data it is built from; whether its library
  accepts them (an address it cannot parse) is the parameter \<open>mk\<close>.
\<close>

text \<open>Timeouts are in milliseconds. A Valkey client decodes the responses to strings.\<close>

datatype client_spec =
    Http_client string int
  | Valkey_client string "string option"
  | Confluence_with_password string string string
  | Confluence_with_token string string

definition open_client :: "(client_spec \<Rightarrow> exn + unit) \<Rightarrow> client_spec \<Rightarrow> exn + client_spec" where
  "open_client mk c = andthen (mk c) (\<lambda>_. Inr c)"

definition lite_http :: "Settings \<Rightarrow> client_spec" where
  "lite_http s = Http_client (bk_base_url (st_lite s)) (bk_timeout (st_lite s))"

definition frontend_http :: "Settings \<Rightarrow> client_spec" where
  "frontend_http s = Http_client (fr_base_url (st_frontend s)) (fr_timeout (st_frontend s))"

definition confluence_api :: "string \<Rightarrow> string \<Rightarrow> string option \<Rightarrow> client_spec" where
  "confluence_api base_url api_token email =
     (case email of
        Some (c # cs) \<Rightarrow> Confluence_with_password base_url (c # cs) api_token
      | _ \<Rightarrow> Confluence_with_token base_url api_token)"

definition make_valkey_client :: "(client_spec \<Rightarrow> exn + unit) \<Rightarrow> ValkeySettings \<Rightarrow> exn + client_spec" where
  "make_valkey_client mk v = open_client mk (Valkey_client (vs_url v) (vs_password v))"

text \<open>The store factory. Durations are in milliseconds; the constructor of the Valkey stores cuts
  the seconds off.\<close>

datatype store =
    InMemoryStore int
  | ValkeyStore client_spec int

definition int_seconds :: "int \<Rightarrow> int" where
  "int_seconds ms = (if 0 \<le> ms then ms div 1000 else - (- ms div 1000))"

definition create_session_store :: "(client_spec \<Rightarrow> exn + unit) \<Rightarrow> Settings \<Rightarrow> exn + store" where
  "create_session_store mk s =
     (case sv_session_backend (st_server s) of
        Valkey_backend \<Rightarrow> andthen (make_valkey_client mk (st_valkey s)) (\<lambda>client.
          Inr (ValkeyStore client (int_seconds (sn_ttl (st_session s)))))
      | Memory \<Rightarrow> Inr (InMemoryStore (sn_ttl (st_session s))))"

definition create_briefing_session_store :: "(client_spec \<Rightarrow> exn + unit) \<Rightarrow> Settings \<Rightarrow> exn + store" where
  "create_briefing_session_store mk s =
     (case sv_session_backend (st_server s) of
        Valkey_backend \<Rightarrow> andthen (make_valkey_client mk (st_valkey s)) (\<lambda>client.
          Inr (ValkeyStore client (int_seconds (sn_ttl (st_session s)))))
      | Memory \<Rightarrow> Inr (InMemoryStore (sn_ttl (st_session s))))"

lemma open_client_simps:
  "open_client mk c = Inl e \<longleftrightarrow> mk c = Inl e"
  "open_client mk c = Inr d \<longleftrightarrow> d = c \<and> mk c = Inr ()"
  by (auto simp: open_client_def andthen_Inl andthen_Inr)

text \<open>Both factories agree: the two kinds of session live in the same place for the same time.\<close>

lemma session_stores_agree: "create_briefing_session_store mk s = create_session_store mk s"
  by (simp add: create_briefing_session_store_def create_session_store_def)

lemma session_store_errors:
  "create_session_store mk s = Inl e \<Longrightarrow> \<exists>c. mk c = Inl e"
  by (auto simp: create_session_store_def make_valkey_client_def open_client_simps andthen_Inl split: backend.splits)

text \<open>A lifetime below one second, legal for the memory store, becomes a lifetime of zero seconds
  with Valkey, which refuses it.\<close>

theorem short_lifetime_on_valkey:
  "create_session_store (\<lambda>_. Inr ()) (default_settings\<lparr>st_session := \<lparr>sn_ttl = 500\<rparr>,
     st_server := default_server\<lparr>sv_session_backend := Valkey_backend\<rparr>\<rparr>) =
   Inr (ValkeyStore (Valkey_client ''redis://localhost:6379/0'' None) 0)"
  by (simp add: create_session_store_def make_valkey_client_def open_client_def int_seconds_def
      default_settings_def default_server_def default_valkey_def)

end
