(* ===== verification/Fields_Loader.thy ===== *)
theory Fields_Loader
  imports Json Netra_Models
begin

text \<open>
  \<open>core/jira_fields_loader.py\<close>: the Jira metadata files, read once. The disk is what
  \<open>path.is_file\<close> and \<open>path.read_text\<close> answer; \<open>decode\<close> is \<open>json.loads\<close> and \<open>validate\<close>
  pydantic's \<open>JiraField.model_validate\<close>.
\<close>

record disk =
  dk_is_file :: "string \<Rightarrow> bool"
  dk_read :: "string \<Rightarrow> exn + string"

record loader =
  fl_fields_path :: "string option"
  fl_allowed_values_path :: "string option"
  fl_fields :: "JiraField list option"
  fl_allowed_values :: "(string \<times> string list) list option"

fun is_JSONDecodeError :: "exn \<Rightarrow> bool" where
  "is_JSONDecodeError (JSONDecodeError _) = True"
| "is_JSONDecodeError _ = False"

fun fields_unreadable :: "exn \<Rightarrow> bool" where
  "fields_unreadable (OSError _) = True"
| "fields_unreadable (JSONDecodeError _) = True"
| "fields_unreadable (ValidationError _) = True"
| "fields_unreadable (AttributeError _) = True"
| "fields_unreadable _ = False"

fun values_unreadable :: "exn \<Rightarrow> bool" where
  "values_unreadable (OSError _) = True"
| "values_unreadable (JSONDecodeError _) = True"
| "values_unreadable (TypeError _) = True"
| "values_unreadable _ = False"

definition degrade :: "(exn \<Rightarrow> bool) \<Rightarrow> exn + 'a list \<Rightarrow> exn + 'a list" where
  "degrade caught r = (case r of Inl e \<Rightarrow> if caught e then Inr [] else Inl e | Inr xs \<Rightarrow> Inr xs)"

definition field_entries :: "json \<Rightarrow> exn + json list" where
  "field_entries raw =
     (case raw of
        JObj d \<Rightarrow> (case map_of d ''fields'' of Some v \<Rightarrow> json_iter v | None \<Rightarrow> Inr (map snd d))
      | _ \<Rightarrow> json_iter raw)"

definition read_fields :: "disk \<Rightarrow> (string \<Rightarrow> exn + json) \<Rightarrow> (json \<Rightarrow> exn + JiraField) \<Rightarrow> string option \<Rightarrow>
    exn + JiraField list" where
  "read_fields disk decode validate path =
     (case path of
        None \<Rightarrow> Inr []
      | Some p \<Rightarrow>
          if \<not> dk_is_file disk p then Inr []
          else degrade fields_unreadable
            (andthen (dk_read disk p) (\<lambda>content. andthen (decode content) (\<lambda>raw.
             andthen (field_entries raw) (traverse validate)))))"

definition allowed_entries :: "(json \<Rightarrow> string) \<Rightarrow> json \<Rightarrow> exn + (string \<times> string list) list" where
  "allowed_entries repr raw =
     (case raw of
        JObj d \<Rightarrow> traverse (\<lambda>(k, values). andthen (json_iter values) (\<lambda>vs. Inr (k, map (json_str repr) vs))) d
      | _ \<Rightarrow> Inl (TypeError ''expected a JSON object of field id -> values''))"

definition read_allowed_values :: "(json \<Rightarrow> string) \<Rightarrow> disk \<Rightarrow> (string \<Rightarrow> exn + json) \<Rightarrow> string option \<Rightarrow>
    exn + (string \<times> string list) list" where
  "read_allowed_values repr disk decode path =
     (case path of
        None \<Rightarrow> Inr []
      | Some p \<Rightarrow>
          if \<not> dk_is_file disk p then Inr []
          else degrade values_unreadable
            (andthen (dk_read disk p) (\<lambda>content. andthen (decode content) (allowed_entries repr))))"

definition load_fields :: "disk \<Rightarrow> (string \<Rightarrow> exn + json) \<Rightarrow> (json \<Rightarrow> exn + JiraField) \<Rightarrow> loader \<Rightarrow>
    (exn + JiraField list) \<times> loader" where
  "load_fields disk decode validate fl =
     (case fl_fields fl of
        Some fs \<Rightarrow> (Inr fs, fl)
      | None \<Rightarrow>
          (case read_fields disk decode validate (fl_fields_path fl) of
             Inl e \<Rightarrow> (Inl e, fl)
           | Inr fs \<Rightarrow> (Inr fs, fl\<lparr>fl_fields := Some fs\<rparr>)))"

definition load_allowed_values :: "(json \<Rightarrow> string) \<Rightarrow> disk \<Rightarrow> (string \<Rightarrow> exn + json) \<Rightarrow> loader \<Rightarrow>
    (exn + (string \<times> string list) list) \<times> loader" where
  "load_allowed_values repr disk decode fl =
     (case fl_allowed_values fl of
        Some vs \<Rightarrow> (Inr vs, fl)
      | None \<Rightarrow>
          (case read_allowed_values repr disk decode (fl_allowed_values_path fl) of
             Inl e \<Rightarrow> (Inl e, fl)
           | Inr vs \<Rightarrow> (Inr vs, fl\<lparr>fl_allowed_values := Some vs\<rparr>)))"

subsection \<open>Laws\<close>

text \<open>What the parameters do as documented: reading raises OSError or UnicodeDecodeError, decoding
  JSONDecodeError, validating ValidationError.\<close>

fun is_TypeError :: "exn \<Rightarrow> bool" where
  "is_TypeError (TypeError _) = True"
| "is_TypeError _ = False"

fun is_UnicodeDecodeError :: "exn \<Rightarrow> bool" where
  "is_UnicodeDecodeError (UnicodeDecodeError _) = True"
| "is_UnicodeDecodeError _ = False"

definition reads_ok :: "disk \<Rightarrow> (string \<Rightarrow> exn + json) \<Rightarrow> bool" where
  "reads_ok disk decode \<longleftrightarrow>
     (\<forall>p e. dk_read disk p = Inl e \<longrightarrow> is_OSError e \<or> is_UnicodeDecodeError e) \<and>
     (\<forall>s e. decode s = Inl e \<longrightarrow> is_JSONDecodeError e)"

definition validates_ok :: "(json \<Rightarrow> exn + JiraField) \<Rightarrow> bool" where
  "validates_ok validate \<longleftrightarrow> (\<forall>j e. validate j = Inl e \<longrightarrow> (\<exists>m. e = ValidationError m))"

lemma is_OSError_caught: "is_OSError e \<Longrightarrow> fields_unreadable e" "is_OSError e \<Longrightarrow> values_unreadable e"
  by (cases e; simp)+

lemma is_JSONDecodeError_caught:
  "is_JSONDecodeError e \<Longrightarrow> fields_unreadable e" "is_JSONDecodeError e \<Longrightarrow> values_unreadable e"
  by (cases e; simp)+

lemma field_entries_error: "field_entries raw = Inl e \<Longrightarrow> is_TypeError e"
proof -
  have "json_iter j = Inl e \<Longrightarrow> is_TypeError e" for j by (cases j) auto
  then show "field_entries raw = Inl e \<Longrightarrow> is_TypeError e"
    by (auto simp: field_entries_def split: json.splits option.splits)
qed

lemma degrade_Inl: "degrade caught r = Inl e \<longleftrightarrow> r = Inl e \<and> \<not> caught e"
  by (auto simp: degrade_def split: sum.splits if_splits)

lemma read_fields_error:
  assumes "read_fields disk decode validate p = Inl e"
  obtains "p \<noteq> None" "\<not> fields_unreadable e" "\<exists>q. dk_read disk q = Inl e"
  | "p \<noteq> None" "\<not> fields_unreadable e" "\<exists>s. decode s = Inl e"
  | "p \<noteq> None" "is_TypeError e"
  | "p \<noteq> None" "\<not> fields_unreadable e" "\<exists>j. validate j = Inl e"
proof (cases p)
  case (Some q)
  then have "\<not> fields_unreadable e" and "andthen (dk_read disk q) (\<lambda>content. andthen (decode content) (\<lambda>raw.
      andthen (field_entries raw) (traverse validate))) = Inl e"
    using assms by (simp_all add: read_fields_def degrade_Inl split: if_splits)
  then show thesis
    using Some that field_entries_error traverse_Inl [of validate _ e] unfolding andthen_Inl by blast
qed (use assms in \<open>simp add: read_fields_def\<close>)

lemma read_allowed_values_error:
  assumes "read_allowed_values repr disk decode p = Inl e"
  obtains "p \<noteq> None" "\<not> values_unreadable e" "\<exists>q. dk_read disk q = Inl e"
  | "p \<noteq> None" "\<not> values_unreadable e" "\<exists>s. decode s = Inl e"
proof (cases p)
  case (Some q)
  then have n: "\<not> values_unreadable e" and "andthen (dk_read disk q) (\<lambda>content. andthen (decode content)
      (allowed_entries repr)) = Inl e"
    using assms by (simp_all add: read_allowed_values_def degrade_Inl split: if_splits)
  moreover have "json_iter j = Inl e \<Longrightarrow> values_unreadable e" for j by (cases j) auto
  then have "allowed_entries repr raw = Inl e \<Longrightarrow> values_unreadable e" for raw
    by (cases raw) (auto simp: allowed_entries_def andthen_Inl dest!: traverse_Inl)
  ultimately show thesis using Some that unfolding andthen_Inl by blast
qed (use assms in \<open>simp add: read_allowed_values_def\<close>)

lemma read_fields_raises:
  assumes "reads_ok disk decode" "validates_ok validate" "read_fields disk decode validate p = Inl e"
  shows "p \<noteq> None \<and> (is_UnicodeDecodeError e \<or> is_TypeError e)"
  using assms(3)
proof (cases rule: read_fields_error)
  case 1
  then show ?thesis using assms(1) is_OSError_caught(1) by (auto simp: reads_ok_def)
next
  case 2
  then show ?thesis using assms(1) is_JSONDecodeError_caught(1) by (auto simp: reads_ok_def)
next
  case 4
  then show ?thesis using assms(2) by (fastforce simp: validates_ok_def)
qed simp

subsection \<open>Properties\<close>

text \<open>Missing or broken metadata degrade to no metadata, with two exceptions: a fields file
  that is not UTF-8, and one that decodes to something that cannot be iterated over; what a load
  returned is what every later load returns, whatever happened to the file.\<close>

theorem fields_load_degrades:
  assumes "reads_ok disk decode" and "validates_ok validate"
  shows "(case fst (load_fields disk decode validate fl) of
       Inl e \<Rightarrow> fl_fields fl = None \<and> fl_fields_path fl \<noteq> None \<and> (is_UnicodeDecodeError e \<or> is_TypeError e)
     | Inr fs \<Rightarrow> fst (load_fields disk' decode' validate' (snd (load_fields disk decode validate fl))) = Inr fs) \<and>
     (case fst (load_allowed_values repr disk decode fl) of
       Inl e \<Rightarrow> fl_allowed_values fl = None \<and> fl_allowed_values_path fl \<noteq> None \<and> is_UnicodeDecodeError e
     | Inr vs \<Rightarrow> fst (load_allowed_values repr disk' decode' (snd (load_allowed_values repr disk decode fl))) = Inr vs)"
proof -
  have f: "p \<noteq> None \<and> (is_UnicodeDecodeError e \<or> is_TypeError e)" if "read_fields disk decode validate p = Inl e" for p e
    using assms that by (rule read_fields_raises)
  have v: "p \<noteq> None \<and> is_UnicodeDecodeError e" if "read_allowed_values repr disk decode p = Inl e" for p e
    using that
  proof (cases rule: read_allowed_values_error)
    case 1
    then show ?thesis using assms(1) is_OSError_caught(2) by (auto simp: reads_ok_def)
  next
    case 2
    then show ?thesis using assms(1) is_JSONDecodeError_caught(2) by (auto simp: reads_ok_def)
  qed
  show ?thesis
    using f [of "fl_fields_path fl"] v [of "fl_allowed_values_path fl"]
    by (auto simp: load_fields_def load_allowed_values_def split: option.split sum.split)
qed

definition sample_disk :: disk where
  "sample_disk = \<lparr>dk_is_file = (\<lambda>_. True), dk_read = (\<lambda>_. Inr ''5'')\<rparr>"

theorem fields_load_degrades_witness:
  "fst (load_fields sample_disk (\<lambda>_. Inr (JArr [JNull])) (\<lambda>_. Inl (ValidationError ''x''))
     \<lparr>fl_fields_path = Some ''f'', fl_allowed_values_path = None, fl_fields = None, fl_allowed_values = None\<rparr>) = Inr [] \<and>
   reads_ok sample_disk (\<lambda>_. Inr (JArr [JNull])) \<and> validates_ok (\<lambda>_. Inl (ValidationError ''x''))"
proof -
  have ok: "reads_ok sample_disk (\<lambda>_. Inr (JArr [JNull]))" "validates_ok (\<lambda>_. Inl (ValidationError ''x''))"
    by (simp_all add: reads_ok_def validates_ok_def sample_disk_def)
  show ?thesis
    using fields_load_degrades [OF ok, of "\<lparr>fl_fields_path = Some ''f'', fl_allowed_values_path = None,
        fl_fields = None, fl_allowed_values = None\<rparr>"] ok
    by (simp add: load_fields_def read_fields_def sample_disk_def degrade_def field_entries_def)
qed

text \<open>A file that holds a number, valid JSON, is not degraded: the TypeError reaches the caller.\<close>

theorem number_in_fields_file_raises:
  "\<exists>m. fst (load_fields sample_disk (\<lambda>s. Inr (JNum s True)) validate
     \<lparr>fl_fields_path = Some p, fl_allowed_values_path = None, fl_fields = None, fl_allowed_values = None\<rparr>) = Inl (TypeError m)"
  by (simp add: load_fields_def read_fields_def sample_disk_def degrade_def field_entries_def)

end
