(* ===== verification/Frontend_Bridge.thy ===== *)
theory Frontend_Bridge
  imports Netra_Settings Netra_Models
begin

text \<open>
  \<open>core/frontend_bridge_client.py\<close>: showing a query in the user's browser. \<open>post\<close> is one HTTP
  call, given the path, the request and the headers; a response carries its status and what pydantic
  makes of its decoded body.
\<close>

record bridge_response =
  bg_status :: int
  bg_ack :: "exn + InjectAck"

definition bridge_headers :: "FrontendSettings \<Rightarrow> (string \<times> string) list" where
  "bridge_headers cfg = (case fr_api_key cfg of Some k \<Rightarrow> [(''X-API-Key'', k)] | None \<Rightarrow> [])"

definition inject :: "(string \<Rightarrow> InjectRequest \<Rightarrow> (string \<times> string) list \<Rightarrow> exn + bridge_response) \<Rightarrow>
    FrontendSettings \<Rightarrow> string \<Rightarrow> string \<Rightarrow> string option \<Rightarrow> exn + InjectAck" where
  "inject post cfg uuid query request_id =
     (case post (fr_inject_path cfg) \<lparr>ir_query = query, ir_request_id = Some (or_else request_id uuid)\<rparr> (bridge_headers cfg) of
        Inl e \<Rightarrow>
          if is_HTTPError e
          then Inr ((inject_ack False)\<lparr>ia_detail := Some (''bridge unreachable: '' @ exn_str e)\<rparr>)
          else Inl e
      | Inr r \<Rightarrow>
          if bg_status r \<in> {202, 200, 409, 503}
          then (case bg_ack r of
                  Inr ack \<Rightarrow> Inr ack
                | Inl e \<Rightarrow>
                    if is_ValueError e
                    then Inr (inject_ack (bg_status r \<in> {200, 202}))
                    else Inl e)
          else Inr ((inject_ack False)\<lparr>ia_detail := Some (''bridge returned HTTP '' @ show_int (bg_status r))\<rparr>))"

definition bridge_ok :: "(string \<Rightarrow> InjectRequest \<Rightarrow> (string \<times> string) list \<Rightarrow> exn + bridge_response) \<Rightarrow> bool" where
  "bridge_ok post \<longleftrightarrow> (\<forall>path payload headers.
     case post path payload headers of
       Inl e \<Rightarrow> is_HTTPError e
     | Inr r \<Rightarrow> (case bg_ack r of Inl e \<Rightarrow> is_ValueError e | Inr _ \<Rightarrow> True))"

text \<open>Showing a query never raises, whatever the bridge does; a query counts as shown only if
  the bridge answered, with one of the four documented statuses, and what it answered says so or,
  unreadable, came with a status of success.\<close>

theorem inject_never_raises:
  assumes "bridge_ok post"
  shows "\<exists>ack. inject post cfg uuid query request_id = Inr ack \<and>
     ia_accepted ack =
       (case post (fr_inject_path cfg) \<lparr>ir_query = query, ir_request_id = Some (or_else request_id uuid)\<rparr> (bridge_headers cfg) of
          Inl _ \<Rightarrow> False
        | Inr r \<Rightarrow> bg_status r \<in> {202, 200, 409, 503} \<and>
            (case bg_ack r of Inr a \<Rightarrow> ia_accepted a | Inl _ \<Rightarrow> bg_status r \<in> {200, 202}))"
proof -
  have "case post (fr_inject_path cfg) \<lparr>ir_query = query, ir_request_id = Some (or_else request_id uuid)\<rparr> (bridge_headers cfg) of
      Inl e \<Rightarrow> is_HTTPError e
    | Inr r \<Rightarrow> (case bg_ack r of Inl e \<Rightarrow> is_ValueError e | Inr _ \<Rightarrow> True)"
    using assms unfolding bridge_ok_def by blast
  then show ?thesis by (auto simp: inject_def split: sum.splits)
qed

theorem inject_never_raises_witness:
  "\<exists>ack. inject (\<lambda>_ _ _. Inr \<lparr>bg_status = 202, bg_ack = Inl (JSONDecodeError ''x'')\<rparr>) default_frontend ''u'' ''q'' None = Inr ack \<and>
     ia_accepted ack"
  using inject_never_raises [of "\<lambda>_ _ _. Inr \<lparr>bg_status = 202, bg_ack = Inl (JSONDecodeError ''x'')\<rparr>" default_frontend "''u''" "''q''" None]
  by (simp add: bridge_ok_def)

end
