(* ===== verification/Report_Files.thy ===== *)
theory Report_Files
  imports Report_Ids Netra_Settings
begin

text \<open>
  Reports as files: \<open>briefings/delivery.py\<close> writes them, \<open>ReportRenderer.render_html\<close>
  (\<open>core/report_renderer.py\<close>) turns one into a page and the route \<open>/report/{report_id}\<close> of
  \<open>server.py\<close> serves it. The files are what reading them gives, by path; directories are not
  modelled. A path is the text of a normalised POSIX path. \<open>md\<close> is the markdown library.
\<close>

subsection \<open>Paths\<close>

definition is_absolute :: "string \<Rightarrow> bool" where
  "is_absolute p \<longleftrightarrow> startswith p ''/''"

definition path_join :: "string \<Rightarrow> string \<Rightarrow> string" where
  "path_join dir name =
     (if is_absolute name \<or> dir = ''.'' then name
      else if dir = ''/'' then ''/'' @ name else dir @ ''/'' @ name)"

subsection \<open>Delivery\<close>

type_synonym files = "string \<Rightarrow> (exn + string) option"

text \<open>What can go wrong with a write: no directory, the file cannot be opened, or it breaks off
  after some characters.\<close>

datatype write_fault = Written | No_dir exn | Not_opened exn | Broken_off exn nat

fun write_file :: "write_fault \<Rightarrow> string \<Rightarrow> string \<Rightarrow> files \<Rightarrow> (exn + unit) \<times> files" where
  "write_file Written path content fs = (Inr (), fs(path := Some (Inr content)))"
| "write_file (No_dir e) path content fs = (Inl e, fs)"
| "write_file (Not_opened e) path content fs = (Inl e, fs)"
| "write_file (Broken_off e n) path content fs = (Inl e, fs(path := Some (Inr (take n content))))"

definition report_file :: "string \<Rightarrow> string \<Rightarrow> string" where
  "report_file dir report_id = path_join dir (report_id @ ''.md'')"

definition deliver :: "write_fault \<Rightarrow> string \<Rightarrow> string \<Rightarrow> string \<Rightarrow> files \<Rightarrow> (exn + string) \<times> files" where
  "deliver fault dir report_id content fs =
     (case write_file fault (report_file dir report_id) content fs of
        (Inl e, fs') \<Rightarrow> (Inl e, fs')
      | (Inr _, fs') \<Rightarrow> (Inr (report_file dir report_id), fs'))"

definition build_delivery_channel :: "DeliverySettings \<Rightarrow> write_fault \<Rightarrow> string \<Rightarrow> string \<Rightarrow> files \<Rightarrow>
    (exn + string) \<times> files" where
  "build_delivery_channel cfg fault = (case dl_channel cfg of Markdown_file \<Rightarrow> deliver fault (dl_output_dir cfg))"

subsection \<open>Rendering\<close>

text \<open>\<open>str.format\<close> with named fields and no conversion or format specification.\<close>

function py_format :: "(string \<Rightarrow> string option) \<Rightarrow> string \<Rightarrow> exn + string" where
  "py_format args [] = Inr []"
| "py_format args (c # s) =
     (if c = CHR ''{'' then
        (if startswith s ''{'' then map_sum id ((#) (CHR ''{'')) (py_format args (tl s))
         else
           let name = takeWhile (\<lambda>d. d \<noteq> CHR ''}'') s; rest = dropWhile (\<lambda>d. d \<noteq> CHR ''}'') s
           in if rest = [] then Inl (ValueError ''expected } before end of string'')
              else (case args name of
                      None \<Rightarrow> Inl (KeyError name)
                    | Some v \<Rightarrow> map_sum id ((@) v) (py_format args (tl rest))))
      else if c = CHR ''}'' then
        (if startswith s ''}'' then map_sum id ((#) (CHR ''}'')) (py_format args (tl s))
         else Inl (ValueError ''Single } encountered in format string''))
      else map_sum id ((#) c) (py_format args s))"
  by pat_completeness auto
termination
  by (relation "measure (\<lambda>(_, s). length s)")
    (auto simp: less_Suc_eq_le intro: le_trans [OF diff_le_self length_dropWhile_le])

definition REPORT_TEMPLATE :: string where \<open>REPORT_TEMPLATE = join LF [
     ''<!doctype html>'',
     ''<html lang="en">'',
     ''<head>'',
     ''  <meta charset="utf-8">'',
     ''  <meta name="viewport" content="width=device-width,initial-scale=1">'',
     ''  <title>Report {report_id}</title>'',
     ''  <style>'',
     ''    body {{ font-family: system-ui, -apple-system, sans-serif; max-width: 960px;'',
     ''            margin: 2rem auto; padding: 0 1.5rem; line-height: 1.6; color: #1f2328; }}'',
     ''    h1, h2, h3 {{ border-bottom: 1px solid #d0d7de; padding-bottom: .3rem; }}'',
     ''    pre {{ background: #f6f8fa; padding: 1rem; border-radius: 6px;'',
     ''           overflow-x: auto; font-size: .9em; }}'',
     ''    code {{ background: #f6f8fa; padding: .2em .4em; border-radius: 3px; font-size: .9em; }}'',
     ''    pre code {{ background: none; padding: 0; }}'',
     ''    table {{ border-collapse: collapse; width: 100%; margin: 1rem 0; }}'',
     ''    th, td {{ border: 1px solid #d0d7de; padding: .5rem .75rem; text-align: left; }}'',
     ''    th {{ background: #f6f8fa; font-weight: 600; }}'',
     ''    tr:nth-child(even) {{ background: #f6f8fa; }}'',
     ''  </style>'',
     ''</head>'',
     ''<body>'',
     ''{body}'',
     ''</body>'',
     ''</html>'']\<close>

definition render_html :: "(string \<Rightarrow> string) \<Rightarrow> string \<Rightarrow> string \<Rightarrow> exn + string" where
  "render_html md report_id content =
     py_format (\<lambda>name. if name = ''body'' then Some (md content)
                       else if name = ''report_id'' then Some report_id else None) REPORT_TEMPLATE"

subsection \<open>Serving\<close>

text \<open>Text mode reads every line end as a line feed.\<close>

fun universal_newlines :: "string \<Rightarrow> string" where
  "universal_newlines [] = []"
| "universal_newlines (c # s) =
     (if c = CHR 0x0D
      then CHR 0x0A # (case s of d # t \<Rightarrow> if d = CHR 0x0A then universal_newlines t else universal_newlines s | [] \<Rightarrow> [])
      else c # universal_newlines s)"

datatype reply =
    Plain nat string
  | Page string
  | Failed exn

definition page_of :: "(string \<Rightarrow> string) \<Rightarrow> string \<Rightarrow> string \<Rightarrow> reply" where
  "page_of md report_id content =
     (case render_html md report_id (universal_newlines content) of Inl e \<Rightarrow> Failed e | Inr html \<Rightarrow> Page html)"

definition serve_report :: "(string \<Rightarrow> string) \<Rightarrow> string \<Rightarrow> files \<Rightarrow> string \<Rightarrow> reply" where
  "serve_report md dir fs report_id =
     (if \<not> served_report_id report_id then Plain 404 ''Not found''
      else (case fs (report_file dir report_id) of
              None \<Rightarrow> Plain 404 ''Report not found''
            | Some (Inl e) \<Rightarrow> Failed e
            | Some (Inr content) \<Rightarrow> page_of md report_id content))"

subsection \<open>The template\<close>

text \<open>What a format string is made of, without the values.\<close>

datatype part = Chr char | Field string

function parts :: "string \<Rightarrow> part list option" where
  "parts [] = Some []"
| "parts (c # s) =
     (if c = CHR ''{'' then
        (if startswith s ''{'' then map_option ((#) (Chr (CHR ''{''))) (parts (tl s))
         else
           let rest = dropWhile (\<lambda>d. d \<noteq> CHR ''}'') s
           in if rest = [] then None
              else map_option ((#) (Field (takeWhile (\<lambda>d. d \<noteq> CHR ''}'') s))) (parts (tl rest)))
      else if c = CHR ''}'' then
        (if startswith s ''}'' then map_option ((#) (Chr (CHR ''}''))) (parts (tl s)) else None)
      else map_option ((#) (Chr c)) (parts s))"
  by pat_completeness auto
termination
  by (relation "measure length") (auto simp: less_Suc_eq_le intro: le_trans [OF diff_le_self length_dropWhile_le])

fun part_text :: "(string \<Rightarrow> string) \<Rightarrow> part \<Rightarrow> string" where
  "part_text args (Chr c) = [c]"
| "part_text args (Field f) = args f"

fun field_names :: "part list \<Rightarrow> string list" where
  "field_names [] = []"
| "field_names (Chr c # ps) = field_names ps"
| "field_names (Field f # ps) = f # field_names ps"

lemma format_parts:
  assumes "parts s = Some ps" and "\<forall>f \<in> set (field_names ps). args f = Some (g f)"
  shows "py_format args s = Inr (concat (map (part_text g) ps))"
  using assms
  by (induction s arbitrary: ps rule: parts.induct)
    (fastforce simp: Let_def simp del: parts.simps(2) py_format.simps(2) simp add: parts.simps(2) py_format.simps(2) split: if_splits)+

lemma field_names_split:
  "field_names ps = f # fs \<Longrightarrow> \<exists>before rest. ps = map Chr before @ Field f # rest \<and> field_names rest = fs"
proof (induction ps rule: field_names.induct)
  case (2 c ps)
  then obtain before rest where "ps = map Chr before @ Field f # rest \<and> field_names rest = fs" by auto
  then show ?case by (intro exI [of _ "c # before"]) auto
qed auto

lemma field_names_Nil: "field_names ps = [] \<Longrightarrow> \<exists>t. ps = map Chr t"
proof (induction ps rule: field_names.induct)
  case (2 c ps)
  then obtain t where "ps = map Chr t" by auto
  then show ?case by (intro exI [of _ "c # t"]) simp
qed auto

lemma concat_map_Chr [simp]: "concat (map (part_text g) (map Chr t)) = t"
  by (induction t) simp_all

lemma template_fields:
  "map_option field_names (parts REPORT_TEMPLATE) = Some [''report_id'', ''body'']"
  by code_simp

subsection \<open>Properties\<close>

text \<open>The page template is well formed: rendering never raises, and the page holds the report
  id and the rendered report once each, as they are, in a fixed frame; braces in a report are not
  taken for fields.\<close>

theorem page_frame:
  "\<exists>before between after. \<forall>md report_id content.
     render_html md report_id content = Inr (before @ report_id @ between @ md content @ after)"
proof -
  obtain ps where ps: "parts REPORT_TEMPLATE = Some ps" "field_names ps = [''report_id'', ''body'']"
    using template_fields by auto
  obtain a rest where a: "ps = map Chr a @ Field ''report_id'' # rest" "field_names rest = [''body'']"
    using field_names_split [OF ps(2)] by blast
  obtain b rest' where b: "rest = map Chr b @ Field ''body'' # rest'" "field_names rest' = []"
    using field_names_split [OF a(2)] by blast
  obtain c where c: "rest' = map Chr c" using field_names_Nil [OF b(2)] by blast
  have "render_html md report_id content = Inr (a @ report_id @ b @ md content @ c)" for md report_id content
  proof -
    let ?g = "\<lambda>f. if f = ''body'' then md content else report_id"
    have "render_html md report_id content = Inr (concat (map (part_text ?g) ps))"
      unfolding render_html_def by (rule format_parts [OF ps(1)]) (simp add: ps(2))
    also have "concat (map (part_text ?g) ps) = a @ report_id @ b @ md content @ c"
      unfolding a(1) b(1) c by (simp del: map_map)
    finally show ?thesis .
  qed
  then show ?thesis by blast
qed

lemma served_not_absolute: "served_report_id a \<Longrightarrow> \<not> is_absolute (a @ t)"
  by (cases a) (auto simp: served_iff is_absolute_def startswith_def)

lemma report_file_inj: "served_report_id a \<Longrightarrow> served_report_id b \<Longrightarrow> report_file dir a = report_file dir b \<longleftrightarrow> a = b"
  by (simp add: report_file_def path_join_def served_not_absolute)

lemma write_file_local: "q \<noteq> path \<Longrightarrow> snd (write_file fault path content fs) q = fs q"
  by (cases fault) simp_all

text \<open>C28: a delivered report is what its page shows, a delivery that broke off shows what was
  written, and a delivery, failed or not, changes no other page: served ids name distinct files.\<close>

theorem delivered_report_is_served:
  assumes "served_report_id report_id"
  shows "(fst (deliver fault dir report_id content fs) = Inr (report_file dir report_id)) = (fault = Written) \<and>
     serve_report md dir (snd (deliver fault dir report_id content fs)) other =
       (if other \<noteq> report_id then serve_report md dir fs other
        else case fault of
          Written \<Rightarrow> page_of md report_id content
        | Broken_off e n \<Rightarrow> page_of md report_id (take n content)
        | _ \<Rightarrow> serve_report md dir fs report_id)"
proof (cases "other = report_id")
  case True
  then show ?thesis
    using assms by (cases fault) (simp_all add: deliver_def serve_report_def)
next
  case False
  have "snd (deliver fault dir report_id content fs) = snd (write_file fault (report_file dir report_id) content fs)"
    by (auto simp: deliver_def split: prod.split sum.split)
  then have "snd (deliver fault dir report_id content fs) (report_file dir other) = fs (report_file dir other)"
    if "served_report_id other"
    using write_file_local report_file_inj [OF that assms, of dir] False by simp
  then have "serve_report md dir (snd (deliver fault dir report_id content fs)) other = serve_report md dir fs other"
    by (simp add: serve_report_def)
  then show ?thesis using False by (cases fault) (simp_all add: deliver_def)
qed

theorem delivered_report_is_served_witness:
  "served_report_id ''r1'' \<and>
   serve_report id ''data/reports'' (snd (deliver Written ''data/reports'' ''r1'' ''# Report'' (\<lambda>_. None))) ''r1'' =
     page_of id ''r1'' ''# Report''"
proof -
  have "served_report_id ''r1''" by code_simp
  then show ?thesis
    using delivered_report_is_served [of "''r1''" Written "''data/reports''" "''# Report''" "\<lambda>_. None" id "''r1''"] by simp
qed

end
