(* ===== verification/LLM_Provider.thy ===== *)
theory LLM_Provider
  imports Netra_Settings
begin

text \<open>
  \<open>core/llm_provider.py\<close>: which provider serves a model string, what model it makes and which
  credentials it checks at startup. \<open>environ\<close> is the process environment. The model objects
  of PydanticAI are the data they are built from.
\<close>

datatype provider =
    GroqLLMProvider string
  | AnthropicLLMProvider string
  | OpenAICompatibleLLMProvider string string "string option"
  | BedrockLLMProvider string "string option"
  | GoogleGeminiLLMProvider string
  | UnknownLLMProvider string

datatype llm_model =
    ModelString string
  | OpenAIChatModel string string "string option"
  | BedrockConverseModel string "string option"

fun make_model :: "provider \<Rightarrow> llm_model" where
  "make_model (GroqLLMProvider m) = ModelString m"
| "make_model (AnthropicLLMProvider m) = ModelString m"
| "make_model (OpenAICompatibleLLMProvider name base key) = OpenAIChatModel name base key"
| "make_model (BedrockLLMProvider name endpoint) = BedrockConverseModel name endpoint"
| "make_model (GoogleGeminiLLMProvider m) = ModelString m"
| "make_model (UnknownLLMProvider m) = ModelString m"

definition quote_of :: "string \<Rightarrow> string" where
  "quote_of s = [CHR 0x27] @ s @ [CHR 0x27]"

definition require_key :: "(string \<Rightarrow> string option) \<Rightarrow> string \<Rightarrow> string \<Rightarrow> exn + unit" where
  "require_key environ key model_str =
     (if given (environ key) then Inr ()
      else Inl (LLMProviderError (key @ '' is not set (required for model '' @ quote_of model_str @ '')'')))"

fun validate_credentials :: "(string \<Rightarrow> string option) \<Rightarrow> provider \<Rightarrow> exn + unit" where
  "validate_credentials environ (GroqLLMProvider m) = require_key environ ''GROQ_API_KEY'' m"
| "validate_credentials environ (AnthropicLLMProvider m) = require_key environ ''ANTHROPIC_API_KEY'' m"
| "validate_credentials environ (OpenAICompatibleLLMProvider name base key) =
     (if \<not> given key \<and> \<not> given (environ ''OPENAI_API_KEY'')
      then Inl (LLMProviderError (''No API key for OpenAI-compatible provider '' @ quote_of name @
             '': set NETRA_LLM__API_KEY or OPENAI_API_KEY''))
      else Inr ())"
| "validate_credentials environ (BedrockLLMProvider name endpoint) = Inr ()"
| "validate_credentials environ (GoogleGeminiLLMProvider m) = require_key environ ''GOOGLE_API_KEY'' m"
| "validate_credentials environ (UnknownLLMProvider m) = Inr ()"

text \<open>\<open>model_str.split(":", 1)\<close> of a text with a colon.\<close>

definition split_once :: "string \<Rightarrow> string \<times> string" where
  "split_once s = (takeWhile (\<lambda>c. c \<noteq> CHR '':'') s, tl (dropWhile (\<lambda>c. c \<noteq> CHR '':'') s))"

definition create_llm_provider :: "LLMSettings \<Rightarrow> provider" where
  "create_llm_provider cfg =
     (let model_str = lm_model cfg
      in if CHR '':'' \<notin> set model_str then UnknownLLMProvider model_str
         else
           let (kind, model_name) = split_once model_str
           in if kind = ''groq'' then GroqLLMProvider model_str
              else if kind = ''anthropic'' then AnthropicLLMProvider model_str
              else if kind = ''openai''
              then OpenAICompatibleLLMProvider model_name
                     (or_else (lm_base_url cfg) ''https://api.openai.com/v1'') (lm_api_key cfg)
              else if kind = ''bedrock''
              then BedrockLLMProvider model_name (if given (lm_base_url cfg) then lm_base_url cfg else None)
              else if kind \<in> {''google'', ''google-vertex''} then GoogleGeminiLLMProvider model_str
              else UnknownLLMProvider model_str)"

text \<open>What \<open>create_server\<close> does with it before anything else is built.\<close>

definition startup_model :: "(string \<Rightarrow> string option) \<Rightarrow> LLMSettings \<Rightarrow> exn + llm_model" where
  "startup_model environ cfg =
     (let p = create_llm_provider cfg
      in andthen (validate_credentials environ p) (\<lambda>_. Inr (make_model p)))"

subsection \<open>Properties\<close>

text \<open>The key each kind needs, and where it may come from, as the documentation of the factory
  lists them.\<close>

definition key_present :: "(string \<Rightarrow> string option) \<Rightarrow> string option \<Rightarrow> string \<Rightarrow> bool" where
  "key_present environ api_key kind \<longleftrightarrow>
     (if kind = ''groq'' then given (environ ''GROQ_API_KEY'')
      else if kind = ''anthropic'' then given (environ ''ANTHROPIC_API_KEY'')
      else if kind = ''openai'' then given api_key \<or> given (environ ''OPENAI_API_KEY'')
      else if kind = ''google'' \<or> kind = ''google-vertex'' then given (environ ''GOOGLE_API_KEY'')
      else True)"

lemma split_once_prefix: "CHR '':'' \<notin> set p \<Longrightarrow> split_once (p @ CHR '':'' # m) = (p, m)"
  by (induction p) (auto simp: split_once_def)

text \<open>A model \<open>kind:name\<close> (the name may hold further colons) starts exactly when the key of
  its kind is there, and is then passed on unchanged, except that \<open>openai\<close> and \<open>bedrock\<close> models
  are built from the name and the configured endpoint; otherwise startup stops with an
  LLMProviderError.\<close>

theorem startup_needs_the_key:
  assumes "CHR '':'' \<notin> set kind" and "lm_model cfg = kind @ '':'' @ name"
  shows "if key_present environ (lm_api_key cfg) kind
     then startup_model environ cfg = Inr (
       if kind = ''openai''
       then OpenAIChatModel name (or_else (lm_base_url cfg) ''https://api.openai.com/v1'') (lm_api_key cfg)
       else if kind = ''bedrock'' then BedrockConverseModel name (if given (lm_base_url cfg) then lm_base_url cfg else None)
       else ModelString (lm_model cfg))
     else (\<exists>m. startup_model environ cfg = Inl (LLMProviderError m))"
proof -
  have s: "split_once (lm_model cfg) = (kind, name)" "CHR '':'' \<in> set (lm_model cfg)"
    using assms split_once_prefix by simp_all
  consider "kind = ''groq''" | "kind = ''anthropic''" | "kind = ''openai''" | "kind = ''bedrock''"
    | "kind = ''google''" | "kind = ''google-vertex''"
    | "kind \<noteq> ''groq''" "kind \<noteq> ''anthropic''" "kind \<noteq> ''openai''" "kind \<noteq> ''bedrock''"
      "kind \<noteq> ''google''" "kind \<noteq> ''google-vertex''" by blast
  then show ?thesis
    by cases (simp_all add: startup_model_def create_llm_provider_def s key_present_def require_key_def)
qed

theorem startup_needs_the_key_witness:
  "\<exists>m. startup_model (\<lambda>k. if k = ''OPENAI_API_KEY'' then Some ''x'' else None)
     (default_llm\<lparr>lm_model := ''groq:llama''\<rparr>) = Inl (LLMProviderError m)"
  using startup_needs_the_key [of "''groq''" "default_llm\<lparr>lm_model := ''groq:llama''\<rparr>" "''llama''"
      "\<lambda>k. if k = ''OPENAI_API_KEY'' then Some ''x'' else None"]
  by (simp add: key_present_def)

text \<open>A Vertex model is refused without an AI Studio key, although Vertex can authenticate with
  application default credentials.\<close>

theorem vertex_needs_google_key:
  "startup_model (\<lambda>k. if k = ''GOOGLE_APPLICATION_CREDENTIALS'' then Some ''/adc.json'' else None)
     (default_llm\<lparr>lm_model := ''google-vertex:gemini''\<rparr>) =
   Inl (LLMProviderError (''GOOGLE_API_KEY is not set (required for model '' @ quote_of ''google-vertex:gemini'' @ '')''))"
  by (simp add: startup_model_def create_llm_provider_def split_once_def require_key_def default_llm_def)

end
