(* ===== verification/LLM_Agents.thy ===== *)
theory LLM_Agents
  imports LLM_Provider
begin

text \<open>
  The LLM agents and the factories that build them (\<open>core/clarifier.py\<close>,
  \<open>core/agenda_decomposer.py\<close>, \<open>core/issue_analyser.py\<close>, \<open>core/query_intent_analyser.py\<close>,
  \<open>confluence/extraction/extractor.py\<close>): each reads its system prompt and gives the agent its
  model, its output type and its retries. A PydanticAI agent is the data it is built from.
\<close>

datatype agent_output =
    ClarificationNeeded_output
  | ResolvedTerms_output
  | AgendaDecomposition_output
  | IssueAnalysisSuggestions_output
  | QueryIntent_output
  | ContextExtraction_output

record agent_spec =
  ag_model :: llm_model
  ag_output :: agent_output
  ag_system_prompt :: string
  ag_retries :: int
  ag_bedrock_cache_instructions :: bool
  ag_anthropic_cache_instructions :: bool

text \<open>What every factory does: an \<open>OSError\<close> of the prompt file becomes a \<open>ConfigError\<close>.\<close>

definition read_prompt :: "(string \<Rightarrow> exn + string) \<Rightarrow> string \<Rightarrow> string \<Rightarrow> exn + string" where
  "read_prompt read path failure =
     (case read path of
        Inl (OSError m) \<Rightarrow> Inl (ConfigError (failure @ '': '' @ m))
      | r \<Rightarrow> r)"

definition make_agent :: "llm_model \<Rightarrow> agent_output \<Rightarrow> string \<Rightarrow> int \<Rightarrow> agent_spec" where
  "make_agent model out prompt retries = \<lparr>ag_model = model, ag_output = out, ag_system_prompt = prompt,
     ag_retries = retries, ag_bedrock_cache_instructions = True, ag_anthropic_cache_instructions = True\<rparr>"

definition clarifier_agents :: "(string \<Rightarrow> exn + string) \<Rightarrow> llm_model \<Rightarrow> string \<Rightarrow> int \<Rightarrow> exn + agent_spec \<times> agent_spec" where
  "clarifier_agents read model prompt_path retries =
     andthen (read_prompt read prompt_path (prompt_path @ '': cannot read clarification prompt'')) (\<lambda>prompt.
       Inr (make_agent model ClarificationNeeded_output prompt retries, make_agent model ResolvedTerms_output prompt retries))"

definition load_agenda_decomposer :: "(string \<Rightarrow> exn + string) \<Rightarrow> llm_model \<Rightarrow> string \<Rightarrow> int \<Rightarrow> exn + agent_spec" where
  "load_agenda_decomposer read model prompt_path retries =
     andthen (read_prompt read prompt_path (prompt_path @ '': cannot read agenda decomposition prompt'')) (\<lambda>prompt.
       Inr (make_agent model AgendaDecomposition_output prompt retries))"

definition issue_analyser_agent :: "(string \<Rightarrow> exn + string) \<Rightarrow> llm_model \<Rightarrow> string \<Rightarrow> int \<Rightarrow> exn + agent_spec" where
  "issue_analyser_agent read model prompt_path retries =
     andthen (read_prompt read prompt_path (prompt_path @ '': cannot read issue analysis prompt'')) (\<lambda>prompt.
       Inr (make_agent model IssueAnalysisSuggestions_output prompt retries))"

definition build_query_intent_analyser :: "(string \<Rightarrow> exn + string) \<Rightarrow> string \<Rightarrow> llm_model \<Rightarrow> int \<Rightarrow> exn + agent_spec" where
  "build_query_intent_analyser read prompt_path model retries =
     andthen (read_prompt read prompt_path (''cannot read query intent prompt at '' @ prompt_path)) (\<lambda>prompt.
       Inr (make_agent model QueryIntent_output prompt retries))"

definition build_context_extractor :: "(string \<Rightarrow> exn + string) \<Rightarrow> string \<Rightarrow> llm_model \<Rightarrow> int \<Rightarrow> exn + agent_spec" where
  "build_context_extractor read prompt_path model retries =
     andthen (read_prompt read prompt_path ''cannot read Confluence context extraction prompt'') (\<lambda>prompt.
       Inr (make_agent model ContextExtraction_output prompt retries))"

lemmas agent_factories = clarifier_agents_def load_agenda_decomposer_def issue_analyser_agent_def
  build_query_intent_analyser_def build_context_extractor_def

text \<open>An agent runs with the prompt of its file, on the model and with the retries it was built for.\<close>

definition runs_prompt :: "(string \<Rightarrow> exn + string) \<Rightarrow> llm_model \<Rightarrow> int \<Rightarrow> agent_output \<times> string \<Rightarrow> agent_spec \<Rightarrow> bool" where
  "runs_prompt read model retries = (\<lambda>(out, path) ag.
     \<exists>prompt. read path = Inr prompt \<and> ag = make_agent model out prompt retries)"

lemma read_prompt_Inr: "read_prompt read path failure = Inr t \<longleftrightarrow> read path = Inr t"
  by (auto simp: read_prompt_def split: sum.split exn.split)

lemma factories_run_prompts:
  "clarifier_agents read model path retries = Inr (q, a) \<Longrightarrow>
     runs_prompt read model retries (ClarificationNeeded_output, path) q \<and> runs_prompt read model retries (ResolvedTerms_output, path) a"
  "load_agenda_decomposer read model path retries = Inr ag \<Longrightarrow> runs_prompt read model retries (AgendaDecomposition_output, path) ag"
  "issue_analyser_agent read model path retries = Inr ag \<Longrightarrow> runs_prompt read model retries (IssueAnalysisSuggestions_output, path) ag"
  "build_query_intent_analyser read path model retries = Inr ag \<Longrightarrow> runs_prompt read model retries (QueryIntent_output, path) ag"
  "build_context_extractor read path model retries = Inr ag \<Longrightarrow> runs_prompt read model retries (ContextExtraction_output, path) ag"
  by (auto simp: agent_factories runs_prompt_def andthen_Inr read_prompt_Inr)

end
