(* ===== verification/Lite_Client.thy ===== *)
theory Lite_Client
  imports Netra_Models
begin

text \<open>
  \<open>core/atlasmind_lite_client.py\<close>: the HTTP client of the backend. One HTTP attempt is the
  parameter \<open>post\<close>: given path, payload, headers and the number of the attempt, from 1, it
  returns a response or raises. A response carries its status and text, what
  \<open>response.json().get("detail")\<close> gives, and what pydantic makes of the body for the model
  the caller asks for. \<open>tenacity\<close> is modelled by its documented retry rule: attempts are
  numbered from 1, a retryable exception is followed by another attempt unless the attempt
  number has reached the limit, and then re-raised; the waiting times between attempts are not
  modelled. \<open>uuid4\<close> is the parameter \<open>uuid\<close>.
\<close>

subsection \<open>Requests and responses\<close>

definition LITE_ERROR_PREFIX :: string where
  "LITE_ERROR_PREFIX = ''Error: ''"

record LiteSettings =
  ls_query_path :: string
  ls_health_path :: string
  ls_issue_details_path :: string
  ls_api_key :: "string option"
  ls_max_retries :: int
  ls_default_limit :: "int option"
  ls_comments_limit_default :: int

datatype payload =
    QueryPayload LiteQueryRequest
  | DetailsPayload IssueDetailsRequest

text \<open>The decoded body: not JSON, JSON but not an object, or an object with its detail.\<close>

datatype body = No_json | Not_object | Object pyval

record response =
  hr_status :: int
  hr_text :: string
  hr_body :: body
  hr_query_result :: "exn + LiteQueryResult"
  hr_details_result :: "exn + IssueDetailsResponse"

type_synonym headers = "(string \<times> string) list"
type_synonym post = "string \<Rightarrow> payload \<Rightarrow> headers \<Rightarrow> nat \<Rightarrow> exn + response"

definition health :: "(string \<Rightarrow> exn + int) \<Rightarrow> LiteSettings \<Rightarrow> exn + bool" where
  "health get cfg =
     (case get (ls_health_path cfg) of
        Inl e \<Rightarrow> if is_HTTPError e then Inr False else Inl e
      | Inr status \<Rightarrow> Inr (status = 200))"

text \<open>Python's truth of an optional string, applied to the header values.\<close>

definition build_headers :: "LiteSettings \<Rightarrow> (string \<times> string option) list \<Rightarrow> headers" where
  "build_headers cfg extra =
     (case ls_api_key cfg of None \<Rightarrow> [] | Some k \<Rightarrow> if k = [] then [] else [(''X-API-Key'', k)])
     @ map (\<lambda>(n, v). (n, the v)) (filter (\<lambda>(n, v). given v) extra)"

definition error_detail :: "response \<Rightarrow> exn + string" where
  "error_detail r =
     (case hr_body r of
        No_json \<Rightarrow> Inr (take 200 (hr_text r))
      | Not_object \<Rightarrow> Inl (AttributeError ''get'')
      | Object d \<Rightarrow> if py_truth d then Inr (py_str d) else Inr (take 200 (hr_text r)))"

subsection \<open>\<open>_post_with_retry\<close>\<close>

fun retryable :: "exn \<Rightarrow> bool" where
  "retryable (TransportError _) = True"
| "retryable (ServiceUnavailableError _) = True"
| "retryable _ = False"

definition attempt :: "exn + response \<Rightarrow> exn + response" where
  "attempt outcome =
     (case outcome of
        Inl e \<Rightarrow> Inl e
      | Inr r \<Rightarrow>
          if hr_status r = 503 then
            (case error_detail r of
               Inl e \<Rightarrow> Inl e
             | Inr _ \<Rightarrow> Inl (ServiceUnavailableError ''backend model not initialised (HTTP 503)''))
          else Inr r)"

text \<open>The retry loop from attempt \<open>i\<close>: the outcome and the number of the last attempt.\<close>

function retry :: "(nat \<Rightarrow> exn + response) \<Rightarrow> int \<Rightarrow> nat \<Rightarrow> (exn + response) \<times> nat" where
  "retry outcome max_retries i =
     (case attempt (outcome i) of
        Inr r \<Rightarrow> (Inr r, i)
      | Inl e \<Rightarrow>
          if retryable e \<and> int i < max_retries then retry outcome max_retries (Suc i) else (Inl e, i))"
  by pat_completeness auto
termination by (relation "measure (\<lambda>(_, m, i). nat (m - int i))") auto

declare retry.simps [simp del]

definition post_with_retry :: "LiteSettings \<Rightarrow> post \<Rightarrow> string \<Rightarrow> payload \<Rightarrow> headers \<Rightarrow>
    (exn + response) \<times> nat" where
  "post_with_retry cfg post path payload headers =
     retry (post path payload headers) (ls_max_retries cfg) 1"

subsection \<open>\<open>query\<close>\<close>

fun is_ServiceUnavailable :: "exn \<Rightarrow> bool" where
  "is_ServiceUnavailable (ServiceUnavailableError _) = True"
| "is_ServiceUnavailable _ = False"

text \<open>What both endpoints do with the outcome of the retry loop, up to the typed body.\<close>

definition checked :: "exn + response \<Rightarrow> (response \<Rightarrow> exn + 'r) \<Rightarrow> exn + 'r" where
  "checked outcome body_of =
     (case outcome of
        Inl e \<Rightarrow>
          if is_HTTPError e \<or> is_ServiceUnavailable e
          then Inl (LiteBackendError (''backend unreachable after retries: '' @ exn_str e))
          else Inl e
      | Inr r \<Rightarrow>
          if hr_status r \<noteq> 200 then
            (case error_detail r of
               Inl e \<Rightarrow> Inl e
             | Inr detail \<Rightarrow> Inl (LiteBackendError
                 (''backend returned HTTP '' @ show_int (hr_status r) @ '': '' @ detail)))
          else
            (case body_of r of
               Inl e \<Rightarrow>
                 if is_ValueError e
                 then Inl (LiteBackendError (''backend response does not match contract: '' @ exn_str e))
                 else Inl e
             | Inr result \<Rightarrow> Inr result))"

definition in_band :: "string option \<Rightarrow> 'r \<Rightarrow> exn + 'r" where
  "in_band message result =
     (case message of
        Some m \<Rightarrow>
          if startswith m LITE_ERROR_PREFIX then Inl (LiteBackendError (removeprefix m LITE_ERROR_PREFIX))
          else Inr result
      | None \<Rightarrow> Inr result)"

definition jira_headers :: "string option \<Rightarrow> string option \<Rightarrow> string option \<Rightarrow> (string \<times> string option) list"
  where
  "jira_headers token email url =
     [(''X-Jira-Token'', token), (''X-Jira-Email'', email), (''X-Jira-Url'', url)]"

definition lite_query :: "LiteSettings \<Rightarrow> post \<Rightarrow> string \<Rightarrow> string \<Rightarrow> int option \<Rightarrow> string option \<Rightarrow>
    string option \<Rightarrow> string option \<Rightarrow> exn + LiteQueryResult" where
  "lite_query cfg post uuid txt limit token email url =
     (let lim = (case limit of Some n \<Rightarrow> Some n | None \<Rightarrow> ls_default_limit cfg)
      in if (case lim of None \<Rightarrow> False | Some n \<Rightarrow> n < 1)
         then Inl (ValidationError ''limit: Input should be greater than or equal to 1'')
         else
           (case checked (fst (post_with_retry cfg post (ls_query_path cfg) (QueryPayload \<lparr>qq_query = txt, qq_request_id = Some uuid, qq_limit = lim\<rparr>)
                    (build_headers cfg (jira_headers token email url)))) hr_query_result of
              Inl e \<Rightarrow> Inl e
            | Inr result \<Rightarrow> in_band (lq_answer result) result))"

subsection \<open>\<open>get_issue_details\<close>\<close>

definition fetch_batch :: "LiteSettings \<Rightarrow> post \<Rightarrow> string \<Rightarrow> string list \<Rightarrow> int \<Rightarrow> string option \<Rightarrow>
    exn + IssueDetailsResponse" where
  "fetch_batch cfg post uuid keys comments_limit request_id =
     (if comments_limit < 1
      then Inl (ValidationError ''comments_limit: Input should be greater than or equal to 1'')
      else
        (case checked (fst (post_with_retry cfg post (ls_issue_details_path cfg)
                 (DetailsPayload \<lparr>dq_issue_keys = keys, dq_request_id = Some (or_else request_id uuid),
                    dq_comments_limit = Some comments_limit\<rparr>) (build_headers cfg [])))
               hr_details_result of
           Inl e \<Rightarrow> Inl e
         | Inr result \<Rightarrow> in_band (dr_error result) result))"

function chunks :: "nat \<Rightarrow> 'a list \<Rightarrow> 'a list list" where
  "chunks n xs = (if xs = [] \<or> n = 0 then [] else take n xs # chunks n (drop n xs))"
  by pat_completeness auto
termination by (relation "measure (\<lambda>(_, xs). length xs)") auto

declare chunks.simps [simp del]

text \<open>\<open>asyncio.gather\<close> without \<open>return_exceptions\<close>: the results in argument order, or the
  exception raised first in time, which the parameter \<open>first\<close> picks among the exceptions.\<close>

fun gather :: "(exn list \<Rightarrow> exn) \<Rightarrow> (exn + 'r) list \<Rightarrow> exn + 'r list" where
  "gather first rs =
     (let errors = concat (map (\<lambda>r. case r of Inl e \<Rightarrow> [e] | Inr _ \<Rightarrow> []) rs)
      in if errors = [] then Inr (concat (map (\<lambda>r. case r of Inl _ \<Rightarrow> [] | Inr v \<Rightarrow> [v]) rs))
         else Inl (first errors))"

declare gather.simps [simp del]

fun first_some :: "'a option list \<Rightarrow> 'a option" where
  "first_some [] = None"
| "first_some (None # rest) = first_some rest"
| "first_some (Some x # _) = Some x"

definition merge_details :: "IssueDetailsResponse list \<Rightarrow> IssueDetailsResponse" where
  "merge_details rs = \<lparr>dr_issues = concat (map dr_issues rs), dr_not_found = concat (map dr_not_found rs),
     dr_error = first_some (map dr_error rs)\<rparr>"

definition CHUNK_SIZE :: nat where
  "CHUNK_SIZE = 50"

definition get_issue_details :: "LiteSettings \<Rightarrow> post \<Rightarrow> (nat \<Rightarrow> string) \<Rightarrow> (exn list \<Rightarrow> exn) \<Rightarrow>
    string list \<Rightarrow> int option \<Rightarrow> string option \<Rightarrow> exn + IssueDetailsResponse" where
  "get_issue_details cfg post uuids first issue_keys comments_limit request_id =
     (let lim = (case comments_limit of Some n \<Rightarrow> n | None \<Rightarrow> ls_comments_limit_default cfg);
          cs = chunks CHUNK_SIZE issue_keys
      in if length cs \<le> 1
         then fetch_batch cfg post (uuids 0) (if cs = [] then [] else hd cs) lim request_id
         else
           (case gather first (map (\<lambda>(i, c). fetch_batch cfg post (uuids i) c lim None)
                    (zip [0..<length cs] cs)) of
              Inl e \<Rightarrow> Inl e
            | Inr rs \<Rightarrow> Inr (merge_details rs)))"

subsection \<open>Laws of the retry loop\<close>

definition retried :: "exn + response \<Rightarrow> bool" where
  "retried outcome \<longleftrightarrow> (case outcome of Inl e \<Rightarrow> retryable e | Inr _ \<Rightarrow> False)"

lemma retry_step:
  "retry outcome m i =
     (if retried (attempt (outcome i)) \<and> int i < m then retry outcome m (Suc i)
      else (attempt (outcome i), i))"
  by (subst retry.simps) (auto simp: retried_def split: sum.split)

lemma retry_spec:
  assumes "retry outcome m i = (r, n)"
  shows "i \<le> n \<and> int n \<le> max (int i) m \<and> r = attempt (outcome n) \<and>
     (\<forall>j. i \<le> j \<and> j < n \<longrightarrow> retried (attempt (outcome j))) \<and> (retried r \<longrightarrow> m \<le> int n)"
  using assms
proof (induction outcome m i arbitrary: r n rule: retry.induct)
  case (1 outcome m i)
  show ?case
  proof (cases "retried (attempt (outcome i)) \<and> int i < m")
    case True
    then obtain e where e: "attempt (outcome i) = Inl e" "retryable e \<and> int i < m"
      by (auto simp: retried_def split: sum.splits)
    have "retry outcome m (Suc i) = (r, n)"
      using "1.prems" True by (simp add: retry_step [of outcome m i])
    from "1.IH" [OF e this] have IH: "Suc i \<le> n" "int n \<le> max (int (Suc i)) m" "r = attempt (outcome n)"
      "\<forall>j. Suc i \<le> j \<and> j < n \<longrightarrow> retried (attempt (outcome j))" "retried r \<longrightarrow> m \<le> int n"
      by blast+
    have "retried (attempt (outcome j))" if "i \<le> j" "j < n" for j
      using that True IH(4) by (cases "j = i") simp_all
    moreover have "int n \<le> max (int i) m" using IH(2) True by simp
    ultimately show ?thesis using IH by simp
  next
    case False
    have "(attempt (outcome i), i) = (r, n)" using "1.prems" unfolding retry_step [of outcome m i] if_not_P [OF False] .
    then have "r = attempt (outcome i)" "n = i" by blast+
    then show ?thesis using False by auto
  qed
qed

lemma chunks_concat: "0 < n \<Longrightarrow> concat (chunks n xs) = xs"
  by (induction n xs rule: chunks.induct) (subst chunks.simps, auto)

lemma chunks_length: "c \<in> set (chunks n xs) \<Longrightarrow> c \<noteq> [] \<and> length c \<le> n"
  by (induction n xs rule: chunks.induct) (subst (asm) (2) chunks.simps, auto split: if_splits)

lemma chunks_few: "0 < n \<Longrightarrow> length (chunks n xs) \<le> 1 \<Longrightarrow>
    (if chunks n xs = [] then [] else hd (chunks n xs)) = xs"
  using chunks_concat [of n xs] by (cases "chunks n xs") auto

lemma gather_all: "(\<And>r. r \<in> set rs \<Longrightarrow> \<exists>v. r = Inr v) \<Longrightarrow> gather first rs = Inr (map projr rs)"
proof -
  assume a: "\<And>r. r \<in> set rs \<Longrightarrow> \<exists>v. r = Inr v"
  have "concat (map (\<lambda>r. case r of Inl e \<Rightarrow> [e] | Inr _ \<Rightarrow> []) rs) = []"
    using a by (auto split: sum.split)
  moreover have "concat (map (\<lambda>r. case r of Inl _ \<Rightarrow> [] | Inr v \<Rightarrow> [v]) rs) = map projr rs"
    using a by (induction rs) (auto split: sum.split)
  ultimately show ?thesis by (simp add: gather.simps)
qed

lemma map_second: "length is = length cs \<Longrightarrow> map (\<lambda>(i, c). f c) (zip is cs) = map f cs"
  by (induction "is" cs rule: list_induct2) simp_all

lemma first_some_None [simp]: "first_some (map (\<lambda>_. None) xs) = None"
  by (induction xs) auto

lemma in_band_error [simp]: "in_band (Some (LITE_ERROR_PREFIX @ m)) r = Inl (LiteBackendError m)"
  by (simp add: in_band_def)

subsection \<open>Where errors come from\<close>

lemma checked_error:
  assumes "checked r body = Inl e" and "\<And>e'. r = Inl e' \<Longrightarrow> is_HTTPError e' \<or> is_ServiceUnavailable e'"
    and "\<And>x. r = Inr x \<Longrightarrow> hr_body x \<noteq> Not_object \<and> (\<forall>e'. body x = Inl e' \<longrightarrow> is_ValueError e')"
  shows "\<exists>m. e = LiteBackendError m"
  using assms by (auto simp: checked_def error_detail_def split: sum.splits if_splits body.splits)

lemma attempt_Inr: "attempt outcome = Inr x \<Longrightarrow> outcome = Inr x"
  by (auto simp: attempt_def split: sum.splits if_splits)

lemma attempt_Inl:
  "attempt outcome = Inl e \<Longrightarrow> outcome = Inl e \<or> is_ServiceUnavailable e \<or>
     (\<exists>x. outcome = Inr x \<and> hr_body x = Not_object)"
  by (auto simp: attempt_def error_detail_def split: sum.splits if_splits body.splits)

lemma checked_post_error:
  assumes e: "checked (fst (post_with_retry cfg post path p hs)) body = Inl e"
    and raises: "\<And>path p hs i e. post path p hs i = Inl e \<Longrightarrow> is_HTTPError e"
    and bodies: "\<And>path p hs i r. post path p hs i = Inr r \<Longrightarrow> hr_body r \<noteq> Not_object \<and>
                   (\<forall>e. body r = Inl e \<longrightarrow> is_ValueError e)"
  shows "\<exists>m. e = LiteBackendError m"
proof -
  obtain r n where rn: "post_with_retry cfg post path p hs = (r, n)" by fastforce
  have r: "r = attempt (post path p hs n)" using retry_spec [OF rn [unfolded post_with_retry_def]] by simp
  have "checked r body = Inl e" using e rn by simp
  then show ?thesis
  proof (rule checked_error)
    show "is_HTTPError e' \<or> is_ServiceUnavailable e'" if "r = Inl e'" for e'
      using attempt_Inl [of "post path p hs n" e'] r raises bodies that by auto
    show "hr_body x \<noteq> Not_object \<and> (\<forall>e'. body x = Inl e' \<longrightarrow> is_ValueError e')" if "r = Inr x" for x
    proof -
      have "post path p hs n = Inr x" by (rule attempt_Inr) (simp only: r [symmetric] that)
      then show ?thesis using bodies by blast
    qed
  qed
qed

lemma checked_post_result:
  assumes "checked (fst (post_with_retry cfg post path p hs)) body = Inr result"
  shows "\<exists>n x. post path p hs n = Inr x \<and> hr_status x = 200 \<and> body x = Inr result"
proof -
  obtain r n where rn: "post_with_retry cfg post path p hs = (r, n)" by fastforce
  have r: "r = attempt (post path p hs n)" using retry_spec [OF rn [unfolded post_with_retry_def]] by simp
  obtain x where x: "r = Inr x" "hr_status x = 200" "body x = Inr result"
    using assms rn by (auto simp: checked_def split: sum.splits if_splits)
  have "post path p hs n = Inr x" by (rule attempt_Inr) (simp only: r [symmetric] x(1))
  then show ?thesis using x by blast
qed

lemma gather_error:
  assumes "gather first rs = Inl e" and "\<And>es. es \<noteq> [] \<Longrightarrow> first es \<in> set es"
  shows "Inl e \<in> set rs"
proof -
  let ?errors = "concat (map (\<lambda>r. case r of Inl e \<Rightarrow> [e] | Inr _ \<Rightarrow> []) rs)"
  have "?errors \<noteq> []" "e = first ?errors" using assms(1) by (auto simp: gather.simps Let_def split: if_splits)
  then have "e \<in> set ?errors" using assms(2) by blast
  then show ?thesis by (auto split: sum.splits)
qed

text \<open>The errors of the details endpoint.\<close>

lemma fetch_batch_error:
  assumes "fetch_batch cfg post uuid keys lim rid = Inl e"
    and "\<And>path p hs i e. post path p hs i = Inl e \<Longrightarrow> is_HTTPError e"
    and "\<And>path p hs i r. post path p hs i = Inr r \<Longrightarrow> hr_body r \<noteq> Not_object \<and>
           (\<forall>e. hr_details_result r = Inl e \<longrightarrow> is_ValueError e)"
  shows "(\<exists>m. e = LiteBackendError m) \<or> lim < 1 \<and> (\<exists>m. e = ValidationError m)"
proof (cases "lim < 1")
  case True
  then show ?thesis using assms(1) by (auto simp: fetch_batch_def)
next
  case False
  let ?c = "checked (fst (post_with_retry cfg post (ls_issue_details_path cfg)
      (DetailsPayload \<lparr>dq_issue_keys = keys, dq_request_id = Some (or_else rid uuid), dq_comments_limit = Some lim\<rparr>) (build_headers cfg []))) hr_details_result"
  have b: "(case ?c of Inl e \<Rightarrow> Inl e | Inr result \<Rightarrow> in_band (dr_error result) result) = Inl e"
    using assms(1) False by (simp add: fetch_batch_def)
  show ?thesis
  proof (cases ?c)
    case (Inl e')
    then show ?thesis using b checked_post_error [OF Inl assms(2,3)] by auto
  next
    case (Inr result)
    then show ?thesis using b by (auto simp: in_band_def split: option.splits if_splits)
  qed
qed

lemma details_error:
  assumes "get_issue_details cfg post uuids first keys lim rid = Inl e"
    and "\<And>es. es \<noteq> [] \<Longrightarrow> first es \<in> set es"
    and "\<And>path p hs i e. post path p hs i = Inl e \<Longrightarrow> is_HTTPError e"
    and "\<And>path p hs i r. post path p hs i = Inr r \<Longrightarrow> hr_body r \<noteq> Not_object \<and>
           (\<forall>e. hr_details_result r = Inl e \<longrightarrow> is_ValueError e)"
  shows "(\<exists>m. e = LiteBackendError m) \<or>
     (case lim of Some n \<Rightarrow> n | None \<Rightarrow> ls_comments_limit_default cfg) < 1 \<and> (\<exists>m. e = ValidationError m)"
proof -
  let ?lim = "case lim of Some n \<Rightarrow> n | None \<Rightarrow> ls_comments_limit_default cfg"
  have "\<exists>uuid ks rid'. fetch_batch cfg post uuid ks ?lim rid' = Inl e"
  proof (cases "length (chunks CHUNK_SIZE keys) \<le> 1")
    case True
    then show ?thesis using assms(1) by (auto simp: get_issue_details_def Let_def)
  next
    case False
    then have "gather first (map (\<lambda>(i, c). fetch_batch cfg post (uuids i) c ?lim None)
        (zip [0..<length (chunks CHUNK_SIZE keys)] (chunks CHUNK_SIZE keys))) = Inl e"
      using assms(1) by (auto simp: get_issue_details_def Let_def split: sum.splits)
    from gather_error [OF this assms(2)] obtain ic where "(\<lambda>(i, c). fetch_batch cfg post (uuids i) c ?lim None) ic = Inl e"
      by auto
    then show ?thesis by (cases ic) auto
  qed
  then obtain uuid ks rid' where "fetch_batch cfg post uuid ks ?lim rid' = Inl e" by blast
  then show ?thesis by (rule fetch_batch_error) (use assms(3,4) in blast)+
qed

subsection \<open>A concrete backend\<close>

definition sample_lite :: LiteSettings where
  "sample_lite = \<lparr>ls_query_path = ''/query'', ls_health_path = ''/health'',
     ls_issue_details_path = ''/issue_details'', ls_api_key = None, ls_max_retries = 3,
     ls_default_limit = Some 50, ls_comments_limit_default = 20\<rparr>"

definition sample_body :: response where
  "sample_body = \<lparr>hr_status = 200, hr_text = [], hr_body = No_json,
     hr_query_result = Inr (lite_query_result\<lparr>lq_answer := Some ''Error: bad JQL''\<rparr>),
     hr_details_result = Inr \<lparr>dr_issues = [], dr_not_found = [], dr_error = None\<rparr>\<rparr>"

text \<open>A backend that is down for the first two attempts.\<close>

definition sample_post :: post where
  "sample_post path payload headers i =
     (if i \<le> 2 then Inl (TransportError ''connect'')
      else Inr (case payload of
          QueryPayload _ \<Rightarrow> sample_body
        | DetailsPayload rq \<Rightarrow>
            sample_body\<lparr>hr_details_result := Inr \<lparr>dr_issues = [], dr_not_found = dq_issue_keys rq, dr_error = None\<rparr>\<rparr>))"

subsection \<open>Properties\<close>



lemma lite_query_outcome:
  assumes lim: "case (case limit of Some n \<Rightarrow> Some n | None \<Rightarrow> ls_default_limit cfg) of None \<Rightarrow> True | Some n \<Rightarrow> 1 \<le> n"
    and raises: "\<And>path p hs i e. post path p hs i = Inl e \<Longrightarrow> is_HTTPError e"
    and bodies: "\<And>path p hs i r. post path p hs i = Inr r \<Longrightarrow> hr_body r \<noteq> Not_object \<and>
                   (\<forall>e. hr_query_result r = Inl e \<longrightarrow> is_ValueError e)"
  shows "(\<exists>m. lite_query cfg post uuid txt limit token email url = Inl (LiteBackendError m)) \<or>
     (\<exists>result path p hs i r. lite_query cfg post uuid txt limit token email url = Inr result \<and>
        post path p hs i = Inr r \<and> hr_status r = 200 \<and> hr_query_result r = Inr result \<and>
        \<not> (\<exists>m. lq_answer result = Some (LITE_ERROR_PREFIX @ m)))"
proof -
  let ?lim = "case limit of Some n \<Rightarrow> Some n | None \<Rightarrow> ls_default_limit cfg"
  let ?c = "checked (fst (post_with_retry cfg post (ls_query_path cfg) (QueryPayload \<lparr>qq_query = txt, qq_request_id = Some uuid, qq_limit = ?lim\<rparr>)
      (build_headers cfg (jira_headers token email url)))) hr_query_result"
  have q: "lite_query cfg post uuid txt limit token email url =
      (case ?c of Inl e \<Rightarrow> Inl e | Inr result \<Rightarrow> in_band (lq_answer result) result)"
    using lim by (simp add: lite_query_def Let_def split: option.splits)
  show ?thesis
  proof (cases ?c)
    case (Inl e)
    then show ?thesis using q checked_post_error [OF Inl raises bodies] by auto
  next
    case (Inr result)
    moreover have "(in_band (lq_answer result) result = Inr result \<and>
        \<not> (\<exists>m. lq_answer result = Some (LITE_ERROR_PREFIX @ m))) \<or>
      (\<exists>m. in_band (lq_answer result) result = Inl (LiteBackendError m))"
      by (auto simp: in_band_def startswith_def split: option.splits)
    ultimately show ?thesis using q checked_post_result [OF Inr] by fastforce
  qed
qed

text \<open>Error translation: as long as HTTP calls raise \<open>httpx.HTTPError\<close>s, bodies fail to
  validate with \<open>ValueError\<close>s and error bodies are objects or not JSON, every failure of a
  query with a legal limit reaches the caller as a \<open>LiteBackendError\<close>; and a query that returns
  has the validated body of a 200 response whose answer does not start with the error prefix.\<close>

theorem query_errors_translated:
  assumes lim: "case (case limit of Some n \<Rightarrow> Some n | None \<Rightarrow> ls_default_limit cfg) of None \<Rightarrow> True | Some n \<Rightarrow> 1 \<le> n"
    and raises: "\<And>path p hs i e. post path p hs i = Inl e \<Longrightarrow> is_HTTPError e"
    and bodies: "\<And>path p hs i r. post path p hs i = Inr r \<Longrightarrow> hr_body r \<noteq> Not_object \<and>
                   (\<forall>e. hr_query_result r = Inl e \<longrightarrow> is_ValueError e)"
  shows "(\<exists>m. lite_query cfg post uuid txt limit token email url = Inl (LiteBackendError m)) \<or>
     (\<exists>result path p hs i r. lite_query cfg post uuid txt limit token email url = Inr result \<and>
        post path p hs i = Inr r \<and> hr_status r = 200 \<and> hr_query_result r = Inr result \<and>
        \<not> (\<exists>m. lq_answer result = Some (LITE_ERROR_PREFIX @ m)))"
  using lim raises bodies by (rule lite_query_outcome)

theorem query_errors_translated_witness:
  "(\<exists>m. lite_query sample_lite sample_post ''id'' ''q'' None None None None = Inl (LiteBackendError m)) \<or>
     (\<exists>result path p hs i r. lite_query sample_lite sample_post ''id'' ''q'' None None None None = Inr result \<and>
        sample_post path p hs i = Inr r \<and> hr_status r = 200 \<and> hr_query_result r = Inr result \<and>
        \<not> (\<exists>m. lq_answer result = Some (LITE_ERROR_PREFIX @ m)))"
  by (rule query_errors_translated)
    (auto simp: sample_lite_def sample_post_def sample_body_def split: if_splits payload.splits)

text \<open>C35: batching is transparent: if the backend answers every request of up to 50 keys key by
  key (each key yields its issues or is reported missing, independently of the others), then the
  merged answer to any number of keys is the answer key by key, in the order of the keys.\<close>

theorem batching_is_transparent:
  assumes keys: "keys \<noteq> []"
    and batch: "\<And>i ks rid. ks \<noteq> [] \<Longrightarrow> length ks \<le> CHUNK_SIZE \<Longrightarrow>
        fetch_batch cfg post (uuids i) ks (case lim of Some n \<Rightarrow> n | None \<Rightarrow> ls_comments_limit_default cfg) rid =
        Inr \<lparr>dr_issues = concat (map found ks), dr_not_found = filter missing ks, dr_error = None\<rparr>"
  shows "get_issue_details cfg post uuids first keys lim rid =
     Inr \<lparr>dr_issues = concat (map found keys), dr_not_found = filter missing keys, dr_error = None\<rparr>"
proof -
  let ?lim = "case lim of Some n \<Rightarrow> n | None \<Rightarrow> ls_comments_limit_default cfg"
  let ?cs = "chunks CHUNK_SIZE keys"
  let ?answer = "\<lambda>ks. \<lparr>dr_issues = concat (map found ks), dr_not_found = filter missing ks, dr_error = None\<rparr>"
  have size: "0 < CHUNK_SIZE" by (simp add: CHUNK_SIZE_def)
  have ok: "fetch_batch cfg post (uuids i) c ?lim r = Inr (?answer c)" if "c \<in> set ?cs" for i c r
    using batch chunks_length [OF that] by blast
  show ?thesis
  proof (cases "length ?cs \<le> 1")
    case True
    have "?cs \<noteq> []" using keys chunks_concat [OF size, of keys] by auto
    then have "hd ?cs \<in> set ?cs" by (rule hd_in_set)
    moreover have "hd ?cs = keys" using chunks_few [OF size True] \<open>?cs \<noteq> []\<close> by simp
    ultimately show ?thesis using True ok [of "hd ?cs" 0 rid] \<open>?cs \<noteq> []\<close>
      by (simp add: get_issue_details_def Let_def)
  next
    case False
    have "map (\<lambda>(i, c). fetch_batch cfg post (uuids i) c ?lim None) (zip [0..<length ?cs] ?cs) =
        map (\<lambda>(i, c). Inr (?answer c)) (zip [0..<length ?cs] ?cs)"
      using ok by (auto dest: set_zip_rightD)
    also have "\<dots> = map (\<lambda>c. Inr (?answer c)) ?cs"
      by (rule map_second) simp
    finally have "gather first (map (\<lambda>(i, c). fetch_batch cfg post (uuids i) c ?lim None)
        (zip [0..<length ?cs] ?cs)) = Inr (map ?answer ?cs)"
      by (subst gather_all) (auto simp: comp_def)
    moreover have "concat (map (\<lambda>ks. concat (map found ks)) cs) = concat (map found (concat cs))"
      "concat (map (filter missing) cs) = filter missing (concat cs)" for cs
      by (induction cs) simp_all
    then have "merge_details (map ?answer ?cs) = ?answer keys"
      by (simp add: merge_details_def comp_def chunks_concat [OF size])
    ultimately show ?thesis using False by (simp add: get_issue_details_def Let_def)
  qed
qed

theorem batching_is_transparent_witness:
  "get_issue_details sample_lite sample_post (\<lambda>_. ''id'') hd (replicate 120 ''K-1'') None None =
     Inr \<lparr>dr_issues = [], dr_not_found = replicate 120 ''K-1'', dr_error = None\<rparr>"
proof -
  have "fetch_batch sample_lite sample_post ''id'' ks 20 rid =
      Inr \<lparr>dr_issues = [], dr_not_found = ks, dr_error = None\<rparr>" for ks rid
    by (simp add: fetch_batch_def checked_def post_with_retry_def retry_step retried_def attempt_def
        sample_post_def sample_lite_def sample_body_def in_band_def)
  then have "get_issue_details sample_lite sample_post (\<lambda>_. ''id'') hd (replicate 120 ''K-1'') None None =
     Inr \<lparr>dr_issues = concat (map (\<lambda>_. []) (replicate 120 ''K-1'')),
          dr_not_found = filter (\<lambda>_. True) (replicate 120 ''K-1''), dr_error = None\<rparr>"
    by (intro batching_is_transparent) (simp_all add: sample_lite_def)
  then show ?thesis by simp
qed

text \<open>A limit below 1 is not translated: the query raises pydantic's \<open>ValidationError\<close>, and
  no request is made.\<close>

theorem illegal_limit_raises_validation_error:
  "lite_query cfg post uuid txt (Some (- int k)) token email url =
     Inl (ValidationError ''limit: Input should be greater than or equal to 1'')"
  by (simp add: lite_query_def)

end
