(* ===== verification/Server_Logging.thy ===== *)
theory Server_Logging
  imports Netra_Settings
begin

text \<open>
  \<open>configure_logging\<close> of \<open>server.py\<close>: the level, the renderers and the handlers that a start
  installs. The state is what the function changes outside itself, the root logger and the level
  of the structlog loggers. \<open>mkdir\<close> makes the parent directory of a path and \<open>openlog\<close> opens a
  log file; both may raise. The processor chains and the format of a line are those of the
  libraries.
\<close>

datatype log_renderer = Console_renderer | Json_renderer

datatype log_handler =
    Stream_handler log_renderer
  | File_handler string log_renderer

record logging =
  lo_handlers :: "log_handler list"
  lo_root_level :: int
  lo_bound_level :: int

text \<open>The root logger of a fresh process: no handlers, \<open>WARNING\<close>.\<close>

definition root_logging :: logging where
  "root_logging = \<lparr>lo_handlers = [], lo_root_level = 30, lo_bound_level = 0\<rparr>"

text \<open>\<open>logging.getLevelNamesMapping()\<close>, looked up under the name in upper case. The names are
  ASCII, and so are the only names whose upper case is one of them.\<close>

definition upper_char :: "char \<Rightarrow> char" where
  "upper_char c = (if is_ascii_lower c then char_of (ord_of c - 32) else c)"

definition level_names :: "string \<rightharpoonup> int" where
  "level_names = map_of [(''CRITICAL'', 50), (''FATAL'', 50), (''ERROR'', 40), (''WARN'', 30), (''WARNING'', 30),
     (''INFO'', 20), (''DEBUG'', 10), (''NOTSET'', 0)]"

definition log_level :: "LogSettings \<Rightarrow> int" where
  "log_level cfg = (case level_names (map upper_char (lg_level cfg)) of Some n \<Rightarrow> n | None \<Rightarrow> 20)"

definition configure_logging :: "(string \<Rightarrow> exn + unit) \<Rightarrow> (string \<Rightarrow> exn + unit) \<Rightarrow> LogSettings \<Rightarrow>
    logging \<Rightarrow> (exn + unit) \<times> logging" where
  "configure_logging mkdir openlog cfg lo =
     (let level = log_level cfg;
          renderer = (if lg_json_logs cfg then Json_renderer else Console_renderer);
          console = lo\<lparr>lo_bound_level := level, lo_handlers := lo_handlers lo @ [Stream_handler renderer]\<rparr>
      in case lg_log_file cfg of
           None \<Rightarrow> (Inr (), console\<lparr>lo_root_level := level\<rparr>)
         | Some path \<Rightarrow>
             (case andthen (mkdir path) (\<lambda>_. openlog path) of
                Inl e \<Rightarrow> (Inl e, console)
              | Inr _ \<Rightarrow> (Inr (), console\<lparr>lo_handlers := lo_handlers console @ [File_handler path Json_renderer],
                   lo_root_level := level\<rparr>)))"

text \<open>The level of an unknown name is that of \<open>INFO\<close>, and the spelling of a name does not matter.\<close>

lemma log_level_cases: "log_level cfg \<in> {0, 10, 20, 30, 40, 50}"
  by (auto simp: log_level_def level_names_def split: option.splits dest!: map_of_SomeD)

lemma log_level_case_insensitive:
  "map upper_char (lg_level a) = map upper_char (lg_level b) \<Longrightarrow> log_level a = log_level b"
  by (simp add: log_level_def)

text \<open>The console handler is always installed and no handler is removed; the file gets JSON lines,
  whatever the console shows; a failure leaves the root level as it was.\<close>

lemma configure_logging_handlers:
  assumes "configure_logging mkdir openlog cfg lo = (r, lo')"
  shows "lo_handlers lo' = lo_handlers lo
       @ Stream_handler (if lg_json_logs cfg then Json_renderer else Console_renderer)
       # (case (r, lg_log_file cfg) of (Inr _, Some p) \<Rightarrow> [File_handler p Json_renderer] | _ \<Rightarrow> []) \<and>
     lo_root_level lo' = (case r of Inl _ \<Rightarrow> lo_root_level lo | Inr _ \<Rightarrow> log_level cfg)"
  using assms by (auto simp: configure_logging_def Let_def split: option.splits sum.splits)

lemma configure_logging_error:
  assumes "fst (configure_logging mkdir openlog cfg lo) = Inl e"
  shows "\<exists>p. lg_log_file cfg = Some p \<and> (mkdir p = Inl e \<or> openlog p = Inl e)"
  using assms by (auto simp: configure_logging_def Let_def andthen_Inl split: option.splits sum.splits)

end
