(* ===== verification/Wire_Models.thy ===== *)
theory Wire_Models
  imports Model_Json Vocabulary Ranking Lite_Client Frontend_Bridge
begin

text \<open>
  The models of what comes from outside, as the program validates them: the answers of the backend
  and of the browser bridge, the Jira fields file, the vocabulary and the ranking rule; and the
  request bodies as they are sent, without the fields that are \<open>None\<close>. A response of the HTTP
  library is put together from its status and text with \<open>loads\<close>, the decoder of its body.
\<close>

subsection \<open>Backend query results\<close>

definition validate_meta :: "coercions \<Rightarrow> json \<Rightarrow> exn + ServerMeta" where
  "validate_meta co = object_of (\<lambda>d.
     dflt d ''model_name'' None (nullable as_str) (\<lambda>m. dflt d ''llm_backend'' None (nullable as_str) (\<lambda>b.
     dflt d ''llm_timeout'' None (nullable (as_int co)) (\<lambda>t.
     Inr \<lparr>sm_model_name = m, sm_llm_backend = b, sm_llm_timeout = t\<rparr>))))"

definition validate_usage :: "coercions \<Rightarrow> json \<Rightarrow> exn + TokenUsage" where
  "validate_usage co = object_of (\<lambda>d.
     dflt d ''system_tokens'' 0 (as_int co) (\<lambda>s. dflt d ''fields_tokens'' 0 (as_int co) (\<lambda>f.
     dflt d ''examples_tokens'' 0 (as_int co) (\<lambda>e. dflt d ''total_tokens'' 0 (as_int co) (\<lambda>t.
     dflt d ''retry_tokens'' 0 (as_int co) (\<lambda>r.
     Inr \<lparr>tu_system_tokens = s, tu_fields_tokens = f, tu_examples_tokens = e, tu_total_tokens = t,
       tu_retry_tokens = r\<rparr>))))))"

definition answer_types :: "(string \<times> answer_type) list" where
  "answer_types = [(''jql'', Jql), (''general'', General_answer), (''changelog'', Changelog)]"

definition deployments :: "(string \<times> jira_deployment) list" where
  "deployments = [(''cloud'', Cloud), (''server'', Jira_server)]"

definition JIRA_TYPE_PREFIX :: string where
  "JIRA_TYPE_PREFIX = ''JiraAuthType.''"

text \<open>The validator of \<open>jira_type\<close>, before the literal is checked.\<close>

fun normalise_jira_type :: "json \<Rightarrow> exn + json" where
  "normalise_jira_type (JStr s) =
     Inr (JStr (if startswith s JIRA_TYPE_PREFIX then removeprefix s JIRA_TYPE_PREFIX else s))"
| "normalise_jira_type JNull = Inr JNull"
| "normalise_jira_type _ = invalid ''jira_type must be a string or null''"

definition validate_jira_type :: "json \<Rightarrow> exn + jira_deployment option" where
  "validate_jira_type j = andthen (normalise_jira_type j) (nullable (literal deployments))"

definition validate_query_result :: "coercions \<Rightarrow> json \<Rightarrow> exn + LiteQueryResult" where
  "validate_query_result co = object_of (\<lambda>d.
     dflt d ''type'' General_answer (literal answer_types) (\<lambda>t. dflt d ''profile'' None (nullable as_str) (\<lambda>profile.
     dflt d ''jira_base_url'' None (nullable as_str) (\<lambda>url. dflt d ''jira_type'' None validate_jira_type (\<lambda>jira.
     dflt d ''answer'' None (nullable as_str) (\<lambda>answer. dflt d ''jql'' None (nullable as_str) (\<lambda>jql.
     dflt d ''total'' 0 (as_int co) (\<lambda>total. dflt d ''shown'' 0 (as_int co) (\<lambda>shown.
     dflt d ''examined'' 0 (as_int co) (\<lambda>examined. dflt d ''display_fields'' [] (list_of as_str) (\<lambda>fs.
     dflt d ''issues'' [] (list_of (mapping_of (\<lambda>j. Inr (co_any co j)))) (\<lambda>issues.
     dflt d ''chart_spec'' None (nullable validate_chart) (\<lambda>chart.
     dflt d ''filters'' None (nullable (mapping_of (list_of as_str))) (\<lambda>filters.
     dflt d ''meta'' None (nullable (validate_meta co)) (\<lambda>meta.
     dflt d ''token_usage'' None (nullable (validate_usage co)) (\<lambda>usage.
     Inr \<lparr>lq_type = t, lq_profile = profile, lq_jira_base_url = url, lq_jira_type = jira, lq_answer = answer,
       lq_jql = jql, lq_total = total, lq_shown = shown, lq_examined = examined, lq_display_fields = fs,
       lq_issues = issues, lq_chart_spec = chart, lq_filters = filters, lq_meta = meta,
       lq_token_usage = usage\<rparr>))))))))))))))))"

subsection \<open>Issue details\<close>

definition validate_comment :: "json \<Rightarrow> exn + IssueComment" where
  "validate_comment = object_of (\<lambda>d.
     req d ''id'' as_str (\<lambda>i. req d ''author'' as_str (\<lambda>a. req d ''body'' as_str (\<lambda>b.
     req d ''created'' as_str (\<lambda>c. req d ''updated'' as_str (\<lambda>u.
     Inr \<lparr>ic_id = i, ic_author = a, ic_body = b, ic_created = c, ic_updated = u\<rparr>))))))"

definition directions :: "(string \<times> link_direction) list" where
  "directions = [(''outward'', Outward), (''inward'', Inward)]"

definition validate_link :: "json \<Rightarrow> exn + IssueLink" where
  "validate_link = object_of (\<lambda>d.
     req d ''type'' as_str (\<lambda>t. req d ''direction'' (literal directions) (\<lambda>dir.
     req d ''linked_issue_key'' as_str (\<lambda>k. dflt d ''linked_issue_summary'' None (nullable as_str) (\<lambda>s.
     Inr \<lparr>il_type = t, il_direction = dir, il_linked_issue_key = k, il_linked_issue_summary = s\<rparr>)))))"

definition validate_change :: "json \<Rightarrow> exn + ChangelogEntry" where
  "validate_change = object_of (\<lambda>d.
     req d ''field'' as_str (\<lambda>f. dflt d ''from_value'' None (nullable as_str) (\<lambda>a. req d ''to_value'' as_str (\<lambda>b.
     req d ''author'' as_str (\<lambda>who. req d ''timestamp'' as_str (\<lambda>t.
     Inr \<lparr>ce_field = f, ce_from_value = a, ce_to_value = b, ce_author = who, ce_timestamp = t\<rparr>))))))"

definition validate_issue :: "coercions \<Rightarrow> json \<Rightarrow> exn + IssueDetail" where
  "validate_issue co = object_of (\<lambda>d.
     req d ''key'' as_str (\<lambda>k. dflt d ''summary'' None (nullable as_str) (\<lambda>s.
     dflt d ''priority'' None (nullable as_str) (\<lambda>p. dflt d ''assignee'' None (nullable as_str) (\<lambda>a.
     dflt d ''due_date'' None (nullable as_str) (\<lambda>due. dflt d ''fix_versions'' [] (list_of as_str) (\<lambda>vs.
     dflt d ''flagged'' False (as_bool co) (\<lambda>fl. dflt d ''comments'' [] (list_of validate_comment) (\<lambda>cs.
     dflt d ''links'' [] (list_of validate_link) (\<lambda>ls. dflt d ''changelog'' [] (list_of validate_change) (\<lambda>log.
     Inr \<lparr>id_key = k, id_summary = s, id_priority = p, id_assignee = a, id_due_date = due,
       id_fix_versions = vs, id_flagged = fl, id_comments = cs, id_links = ls, id_changelog = log\<rparr>)))))))))))"

definition validate_details :: "coercions \<Rightarrow> json \<Rightarrow> exn + IssueDetailsResponse" where
  "validate_details co = object_of (\<lambda>d.
     dflt d ''issues'' [] (list_of (validate_issue co)) (\<lambda>is. dflt d ''not_found'' [] (list_of as_str) (\<lambda>nf.
     dflt d ''error'' None (nullable as_str) (\<lambda>e.
     Inr \<lparr>dr_issues = is, dr_not_found = nf, dr_error = e\<rparr>))))"

subsection \<open>Bridge, fields file, vocabulary, ranking rule\<close>

definition validate_ack :: "coercions \<Rightarrow> json \<Rightarrow> exn + InjectAck" where
  "validate_ack co = object_of (\<lambda>d.
     req d ''accepted'' (as_bool co) (\<lambda>a. dflt d ''request_id'' None (nullable as_str) (\<lambda>r.
     dflt d ''detail'' None (nullable as_str) (\<lambda>t.
     Inr \<lparr>ia_accepted = a, ia_request_id = r, ia_detail = t\<rparr>))))"

text \<open>\<open>field_schema\<close> is read under its alias \<open>schema\<close> first.\<close>

definition schema_text :: "(json \<Rightarrow> string) \<Rightarrow> json \<Rightarrow> exn + string" where
  "schema_text repr = object_of (\<lambda>d. Inr (repr (JObj d)))"

definition validate_field :: "coercions \<Rightarrow> (json \<Rightarrow> string) \<Rightarrow> json \<Rightarrow> exn + JiraField" where
  "validate_field co repr = object_of (\<lambda>d.
     req d ''id'' as_str (\<lambda>i. req d ''name'' as_str (\<lambda>n. dflt d ''custom'' False (as_bool co) (\<lambda>c.
     dflt d (if map_of d ''schema'' = None then ''field_schema'' else ''schema'') None (nullable (schema_text repr)) (\<lambda>s.
     dflt d ''description'' None (nullable as_str) (\<lambda>t.
     Inr \<lparr>jf_id = i, jf_name = n, jf_custom = c, jf_field_schema = s, jf_description = t\<rparr>))))))"

definition validate_entry :: "json \<Rightarrow> exn + VocabEntry" where
  "validate_entry = object_of (\<lambda>d. forbid_extra [''ambiguity'', ''questions'', ''jql_patterns''] d (
     req d ''ambiguity'' as_str (\<lambda>a. dflt d ''questions'' [] (list_of as_str) (\<lambda>qs.
     dflt d ''jql_patterns'' [] (mapping_of as_str) (\<lambda>ps.
     Inr \<lparr>ve_ambiguity = a, ve_questions = qs, ve_jql_patterns = ps\<rparr>)))))"

text \<open>Every weight is an integer with a default; a group of weights left out is at its defaults.\<close>

definition validate_priority :: "coercions \<Rightarrow> json \<Rightarrow> exn + PriorityWeights" where
  "validate_priority co = object_of (\<lambda>d. dflt d ''Blocker'' 40 (as_int co) (\<lambda>b.
     dflt d ''Critical'' 30 (as_int co) (\<lambda>c. dflt d ''High'' 15 (as_int co) (\<lambda>h. dflt d ''default'' 0 (as_int co) (\<lambda>o'.
     Inr \<lparr>pw_Blocker = b, pw_Critical = c, pw_High = h, pw_default = o'\<rparr>)))))"

definition validate_days :: "coercions \<Rightarrow> json \<Rightarrow> exn + DaysBlockedWeights" where
  "validate_days co = object_of (\<lambda>d. dflt d ''per_day'' 2 (as_int co) (\<lambda>p. dflt d ''cap'' 30 (as_int co) (\<lambda>c.
     Inr \<lparr>dw_per_day = p, dw_cap = c\<rparr>)))"

definition validate_dependents :: "coercions \<Rightarrow> json \<Rightarrow> exn + DependentIssuesWeights" where
  "validate_dependents co = object_of (\<lambda>d. dflt d ''per_issue'' 5 (as_int co) (\<lambda>p. dflt d ''cap'' 25 (as_int co) (\<lambda>c.
     Inr \<lparr>iw_per_issue = p, iw_cap = c\<rparr>)))"

definition validate_milestone :: "coercions \<Rightarrow> json \<Rightarrow> exn + MilestoneProximityWeights" where
  "validate_milestone co = object_of (\<lambda>d. dflt d ''due_within_7d'' 20 (as_int co) (\<lambda>a.
     dflt d ''due_within_14d'' 10 (as_int co) (\<lambda>b. Inr \<lparr>mw_due_within_7d = a, mw_due_within_14d = b\<rparr>)))"

definition validate_weights :: "coercions \<Rightarrow> json \<Rightarrow> exn + RankingWeights" where
  "validate_weights co = (let w = rr_weights default_rule in object_of (\<lambda>d.
     dflt d ''priority'' (rw_priority w) (validate_priority co) (\<lambda>p.
     dflt d ''days_blocked'' (rw_days_blocked w) (validate_days co) (\<lambda>b.
     dflt d ''dependent_issues'' (rw_dependent_issues w) (validate_dependents co) (\<lambda>i.
     dflt d ''milestone_proximity'' (rw_milestone_proximity w) (validate_milestone co) (\<lambda>m.
     dflt d ''flagged'' 10 (as_int co) (\<lambda>f.
     Inr \<lparr>rw_priority = p, rw_days_blocked = b, rw_dependent_issues = i, rw_milestone_proximity = m,
       rw_flagged = f\<rparr>)))))))"

definition validate_rule :: "coercions \<Rightarrow> json \<Rightarrow> exn + RankingRule" where
  "validate_rule co = object_of (\<lambda>d.
     dflt d ''weights'' (rr_weights default_rule) (validate_weights co) (\<lambda>w. dflt d ''top_n'' 5 (as_int co) (\<lambda>n.
     Inr \<lparr>rr_weights = w, rr_top_n = n\<rparr>)))"

subsection \<open>Requests and responses\<close>

text \<open>\<open>model_dump(exclude_none=True)\<close>.\<close>

definition given_field :: "string \<Rightarrow> ('a \<Rightarrow> json) \<Rightarrow> 'a option \<Rightarrow> (string \<times> json) list" where
  "given_field k f x = (case x of None \<Rightarrow> [] | Some v \<Rightarrow> [(k, f v)])"

fun dump_payload :: "payload \<Rightarrow> json" where
  "dump_payload (QueryPayload r) = JObj ((''query'', JStr (qq_query r))
     # given_field ''request_id'' JStr (qq_request_id r) @ given_field ''limit'' of_int_json (qq_limit r))"
| "dump_payload (DetailsPayload r) = JObj ((''issue_keys'', of_strs (dq_issue_keys r))
     # given_field ''request_id'' JStr (dq_request_id r) @ given_field ''comments_limit'' of_int_json (dq_comments_limit r))"

definition dump_inject :: "InjectRequest \<Rightarrow> json" where
  "dump_inject r = JObj ((''query'', JStr (ir_query r)) # given_field ''request_id'' JStr (ir_request_id r))"

definition body_of :: "coercions \<Rightarrow> exn + json \<Rightarrow> body" where
  "body_of co decoded =
     (case decoded of
        Inl _ \<Rightarrow> No_json
      | Inr (JObj d) \<Rightarrow> Object (case map_of d ''detail'' of None \<Rightarrow> PNone | Some j \<Rightarrow> co_any co j)
      | Inr _ \<Rightarrow> Not_object)"

definition wire_response :: "coercions \<Rightarrow> (string \<Rightarrow> exn + json) \<Rightarrow> int \<Rightarrow> string \<Rightarrow> response" where
  "wire_response co loads status txt =
     \<lparr>hr_status = status, hr_text = txt, hr_body = body_of co (loads txt),
      hr_query_result = andthen (loads txt) (validate_query_result co),
      hr_details_result = andthen (loads txt) (validate_details co)\<rparr>"

definition wire_ack :: "coercions \<Rightarrow> (string \<Rightarrow> exn + json) \<Rightarrow> int \<Rightarrow> string \<Rightarrow> bridge_response" where
  "wire_ack co loads status txt = \<lparr>bg_status = status, bg_ack = andthen (loads txt) (validate_ack co)\<rparr>"

subsection \<open>A validation fails with a \<open>ValidationError\<close> only\<close>

definition only_invalid :: "exn + 'a \<Rightarrow> bool" where
  "only_invalid r \<longleftrightarrow> (\<forall>e. r = Inl e \<longrightarrow> (\<exists>m. e = ValidationError m))"

named_theorems validates

lemma only_invalid_basic [validates]:
  "only_invalid (Inr x)" "only_invalid (invalid msg)" "only_invalid (coerced what y)"
  by (simp_all add: only_invalid_def invalid_def coerced_def split: option.split)

lemma only_invalid_andthen [validates]:
  "only_invalid r \<Longrightarrow> (\<And>v. only_invalid (f v)) \<Longrightarrow> only_invalid (andthen r f)"
  by (cases r) (simp_all add: only_invalid_def)

lemma only_invalid_traverse:
  assumes "\<And>x. only_invalid (f x)"
  shows "only_invalid (traverse f xs)"
proof (induction xs)
  case Nil
  show ?case by (simp add: only_invalid_basic)
next
  case (Cons x xs)
  show ?case unfolding traverse.simps
    by (intro only_invalid_andthen assms Cons.IH only_invalid_basic)
qed

lemma only_invalid_fields [validates]:
  "(\<And>j. only_invalid (f j)) \<Longrightarrow> (\<And>v. only_invalid (rest v)) \<Longrightarrow> only_invalid (req d k f rest)"
  "(\<And>j. only_invalid (f j)) \<Longrightarrow> (\<And>v. only_invalid (rest v)) \<Longrightarrow> only_invalid (dflt d k w f rest)"
  "only_invalid r \<Longrightarrow> only_invalid (forbid_extra ks d r)"
  by (simp_all add: req_def dflt_def forbid_extra_def only_invalid_andthen only_invalid_basic split: option.split)

lemma only_invalid_numbers [validates]:
  "only_invalid (as_int co j)" "only_invalid (as_bool co j)" "only_invalid (as_float co j)" "only_invalid (as_time co j)"
  by (simp_all add: as_int_def as_bool_def as_float_def as_time_def only_invalid_basic)

lemma only_invalid_texts [validates]: "only_invalid (as_str j)" "only_invalid (literal names j)"
  by (cases j; simp add: only_invalid_basic literal.simps)+

lemma only_invalid_nullable [validates]: "(\<And>j. only_invalid (f j)) \<Longrightarrow> only_invalid (nullable f j)"
  by (cases j) (simp_all add: only_invalid_basic only_invalid_andthen)

lemma only_invalid_object [validates]: "(\<And>d. only_invalid (g d)) \<Longrightarrow> only_invalid (object_of g j)"
  by (cases j) (simp_all add: only_invalid_basic)

lemma only_invalid_list [validates]: "(\<And>j. only_invalid (f j)) \<Longrightarrow> only_invalid (list_of f j)"
  by (cases j) (simp_all add: only_invalid_basic only_invalid_traverse list_of.simps)

lemma only_invalid_mapping [validates]:
  assumes "\<And>j. only_invalid (f j)"
  shows "only_invalid (mapping_of f j)"
proof -
  have "only_invalid (case x of (k, j) \<Rightarrow> andthen (f j) (\<lambda>v. Inr (k, v)))" for x :: "string \<times> json"
    by (cases x) (simp add: only_invalid_andthen assms only_invalid_basic)
  then show ?thesis by (cases j) (simp_all add: only_invalid_basic only_invalid_traverse mapping_of.simps)
qed

lemma only_invalid_jira_type [validates]: "only_invalid (validate_jira_type j)"
proof -
  have "only_invalid (normalise_jira_type j)" by (cases j) (simp_all add: only_invalid_basic)
  moreover have "only_invalid (nullable (literal deployments) v)" for v by (intro validates)
  ultimately show ?thesis unfolding validate_jira_type_def by (rule only_invalid_andthen)
qed

lemmas validators = validate_chart_def validate_meta_def validate_usage_def validate_comment_def validate_link_def
  validate_change_def schema_text_def validate_priority_def validate_days_def validate_dependents_def
  validate_milestone_def validate_weights_def validate_resolution_def validate_citation_def validate_reference_def
  validate_analysis_def

lemma validations_fail_as_documented:
  "only_invalid (validate_query_result co j)" "only_invalid (validate_details co j)"
  "only_invalid (validate_ack co j)" "only_invalid (validate_field co repr j)" "only_invalid (validate_entry j)"
  "only_invalid (validate_rule co j)" "only_invalid (validate_convention co now j)"
  "only_invalid (validate_session co j)" "only_invalid (validate_section co j)"
  unfolding validate_query_result_def validate_details_def validate_ack_def validate_field_def validate_entry_def
    validate_rule_def validate_convention_def validate_session_def validate_section_def validate_issue_def validators Let_def
  by (intro validates)+

subsection \<open>New fields, spellings and defaults\<close>

lemma fields_of_extended:
  assumes "k \<notin> fst ` set extra"
  shows "req (d @ extra) k f rest = req d k f rest" "dflt (d @ extra) k v g rest' = dflt d k v g rest'"
proof -
  have "map_of extra k = None" using assms by (simp add: map_of_eq_None_iff)
  then have "map_of (d @ extra) k = map_of d k" by (cases "map_of d k") (simp_all add: map_add_def)
  then show "req (d @ extra) k f rest = req d k f rest" "dflt (d @ extra) k v g rest' = dflt d k v g rest'"
    by (simp_all add: req_def dflt_def)
qed

definition QUERY_RESULT_FIELDS :: "string list" where
  "QUERY_RESULT_FIELDS = [''type'', ''profile'', ''jira_base_url'', ''jira_type'', ''answer'', ''jql'', ''total'',
     ''shown'', ''examined'', ''display_fields'', ''issues'', ''chart_spec'', ''filters'', ''meta'', ''token_usage'']"

definition DETAILS_FIELDS :: "string list" where
  "DETAILS_FIELDS = [''issues'', ''not_found'', ''error'']"

definition unknown :: "string list \<Rightarrow> (string \<times> json) list \<Rightarrow> bool" where
  "unknown names extra \<longleftrightarrow> list_all (\<lambda>k. k \<notin> fst ` set extra) names"

lemma query_result_extended:
  "unknown QUERY_RESULT_FIELDS extra \<Longrightarrow>
   validate_query_result co (JObj (d @ extra)) = validate_query_result co (JObj d)"
  by (simp add: validate_query_result_def unknown_def QUERY_RESULT_FIELDS_def fields_of_extended)

lemma details_extended:
  "unknown DETAILS_FIELDS extra \<Longrightarrow> validate_details co (JObj (d @ extra)) = validate_details co (JObj d)"
  by (simp add: validate_details_def unknown_def DETAILS_FIELDS_def fields_of_extended)

lemma jira_type_spellings:
  "validate_jira_type j = Inr t \<longleftrightarrow>
   (case t of None \<Rightarrow> j = JNull
    | Some x \<Rightarrow> (\<exists>name. (name, x) \<in> set deployments \<and> (j = JStr name \<or> j = JStr (JIRA_TYPE_PREFIX @ name))))"
proof (cases j)
  case (JStr s)
  have plain: "\<not> startswith name JIRA_TYPE_PREFIX" if "(name, x) \<in> set deployments" for name x
    using that by (auto simp: deployments_def JIRA_TYPE_PREFIX_def startswith_def)
  have found: "map_of deployments name = Some x \<longleftrightarrow> (name, x) \<in> set deployments" for name x
    by (auto simp: deployments_def)
  have split: "startswith s p \<longleftrightarrow> (\<exists>r. s = p @ r)" for p
    by (metis append_take_drop_id startswith_append startswith_def)
  show ?thesis
  proof (cases "startswith s JIRA_TYPE_PREFIX")
    case True
    then obtain r where "s = JIRA_TYPE_PREFIX @ r" using split by blast
    moreover have "map_of deployments (JIRA_TYPE_PREFIX @ r) = None"
      using plain startswith_append found by (metis option.exhaust)
    ultimately show ?thesis using JStr
      by (cases t) (auto simp: validate_jira_type_def literal.simps coerced_def invalid_def found [symmetric] split: option.splits)
  next
    case False
    then show ?thesis using JStr
      by (cases t) (auto simp: validate_jira_type_def literal.simps coerced_def invalid_def found [symmetric] split: option.splits)
  qed
qed (cases t; auto simp: validate_jira_type_def invalid_def)+

lemma empty_result: "validate_query_result co (JObj []) = Inr lite_query_result"
  by (simp add: validate_query_result_def codec_simps lite_query_result_def)

subsection \<open>The client does not see new fields\<close>

text \<open>Two outcomes of an attempt that a caller cannot tell apart.\<close>

definition agree :: "exn + response \<Rightarrow> exn + response \<Rightarrow> bool" where
  "agree x y \<longleftrightarrow> x = y \<or> (\<exists>r r'. x = Inr r \<and> y = Inr r' \<and> hr_status r = 200 \<and> hr_status r' = 200 \<and>
     hr_query_result r = hr_query_result r' \<and> hr_details_result r = hr_details_result r')"

lemma agree_attempt: "agree x y \<Longrightarrow> agree (attempt x) (attempt y) \<and> retried (attempt x) = retried (attempt y)"
  by (auto simp: agree_def attempt_def retried_def)

lemma agree_retry:
  assumes "\<And>i. agree (f i) (g i)"
  shows "agree (fst (retry f m i)) (fst (retry g m i))"
proof (induction "nat (m - int i)" arbitrary: i rule: less_induct)
  case less
  show ?case
    unfolding retry_step [of f m i] retry_step [of g m i]
    using less [of "Suc i"] agree_attempt [OF assms [of i]] by auto
qed

lemma agree_checked:
  assumes "agree x y"
  shows "checked x hr_query_result = checked y hr_query_result" "checked x hr_details_result = checked y hr_details_result"
  using assms by (auto simp: agree_def checked_def)

definition extended :: "coercions \<Rightarrow> (string \<Rightarrow> exn + json) \<Rightarrow> exn + response \<Rightarrow> exn + response \<Rightarrow> bool" where
  "extended co loads x y \<longleftrightarrow> x = y \<or>
     (\<exists>t t' d extra. x = Inr (wire_response co loads 200 t) \<and> y = Inr (wire_response co loads 200 t') \<and>
        loads t = Inr (JObj d) \<and> loads t' = Inr (JObj (d @ extra)) \<and> unknown (QUERY_RESULT_FIELDS @ DETAILS_FIELDS) extra)"

lemma extended_agree: "extended co loads x y \<Longrightarrow> agree x y"
  by (auto simp: extended_def agree_def wire_response_def query_result_extended details_extended unknown_def)


text \<open>The backend answers with a new field \<open>cost\<close> and the old spelling of the deployment.\<close>

definition grown_loads :: "string \<Rightarrow> exn + json" where
  "grown_loads t = Inr (JObj ([(''jira_type'', JStr ''JiraAuthType.server''), (''jql'', JStr ''a = b'')]
     @ (if t = ''new'' then [(''cost'', JNum ''3'' True)] else [])))"


subsection \<open>The conventions file\<close>

definition conventions_enc :: "coercions \<Rightarrow> (json \<Rightarrow> string) \<Rightarrow> Convention list \<Rightarrow> string" where
  "conventions_enc co dumps cs = dumps (JArr (map (dump_convention co) cs))"

definition conventions_dec :: "coercions \<Rightarrow> int \<Rightarrow> (string \<Rightarrow> exn + json) \<Rightarrow> string \<Rightarrow> exn + Convention list" where
  "conventions_dec co now loads txt =
     andthen (loads txt) (\<lambda>raw. andthen (json_iter raw) (traverse (validate_convention co now)))"

lemma conventions_read_back:
  assumes "coercions_ok co" "json_text_ok co dumps loads"
  shows "conventions_dec co now loads (conventions_enc co dumps cs) = Inr cs"
proof -
  have "json_ok co (JArr (map (dump_convention co) cs))"
    by (simp add: list_all_iff convention_writable)
  then have "loads (dumps (JArr (map (dump_convention co) cs))) = Inr (JArr (map (dump_convention co) cs))"
    using assms(2) by (simp add: json_text_ok_def)
  then show ?thesis
    by (simp add: conventions_dec_def conventions_enc_def traverse_map convention_codec [OF assms(1)])
qed



end
