(* ===== verification/Orchestrator_Laws.thy ===== *)
theory Orchestrator_Laws
  imports Orchestrator
begin

text \<open>
  What the orchestrator's operations do: the effect of each step on the stores and on the
  calls to the outside, a case rule for a whole call, the invariant of the stored sessions,
  and the properties of \<open>handle_query\<close>.
\<close>

subsection \<open>The calls of a run\<close>

text \<open>The queries sent to the backend, and the questions formulated, in order.\<close>

fun queries_of :: "call list \<Rightarrow> (string \<times> int option) list" where
  "queries_of [] = []"
| "queries_of (CQuery text limit # cs) = (text, limit) # queries_of cs"
| "queries_of (_ # cs) = queries_of cs"

text \<open>No question is formulated about a term learned before it, \<open>seen\<close> being learned already.\<close>

fun no_repeat :: "string set \<Rightarrow> call list \<Rightarrow> bool" where
  "no_repeat seen [] = True"
| "no_repeat seen (CLearn t # cs) = no_repeat (insert t seen) cs"
| "no_repeat seen (CFormulate query terms # cs) = (set terms \<inter> seen = {} \<and> no_repeat seen cs)"
| "no_repeat seen (_ # cs) = no_repeat seen cs"

fun learned_of :: "call list \<Rightarrow> string set" where
  "learned_of [] = {}"
| "learned_of (CLearn t # cs) = insert t (learned_of cs)"
| "learned_of (_ # cs) = learned_of cs"

lemma queries_of_append [simp]: "queries_of (xs @ ys) = queries_of xs @ queries_of ys"
  by (induction xs rule: queries_of.induct) auto

lemma learned_of_append [simp]: "learned_of (xs @ ys) = learned_of xs \<union> learned_of ys"
  by (induction xs rule: learned_of.induct) auto

lemma no_repeat_append [simp]:
  "no_repeat seen (xs @ ys) \<longleftrightarrow> no_repeat seen xs \<and> no_repeat (seen \<union> learned_of xs) ys"
  by (induction seen xs rule: no_repeat.induct) auto

abbreviation queries :: "orch \<Rightarrow> (string \<times> int option) list" where
  "queries st \<equiv> queries_of (o_calls st)"

text \<open>A term with a learned interpretation at the instance level.\<close>

definition known :: "conv_store \<Rightarrow> string \<Rightarrow> bool" where
  "known convs t \<longleftrightarrow> conventions_get convs INSTANCE_DEFAULT_PROJECT t \<noteq> None"

lemma known_set: "known convs t \<Longrightarrow> known (snd (conventions_set enc io convs c)) t"
  unfolding known_def by (rule json_conventions.put_keeps_known)

lemma known_learned:
  "cv_project c = INSTANCE_DEFAULT_PROJECT \<Longrightarrow>
     known (snd (conventions_set enc io convs c)) (cv_term c)"
  unfolding known_def by (rule json_conventions.learned_default)

subsection \<open>Effects of the steps\<close>

text \<open>Everything learned so far is known, and nothing learned was asked again.\<close>

definition learn_ok :: "orch \<Rightarrow> bool" where
  "learn_ok st \<longleftrightarrow> (\<forall>t \<in> learned_of (o_calls st). known (o_convs st) t) \<and> no_repeat {} (o_calls st)"

lemma learn_ok_cong:
  "o_convs st' = o_convs st \<Longrightarrow> o_calls st' = o_calls st \<Longrightarrow> learn_ok st' = learn_ok st"
  by (simp add: learn_ok_def)

text \<open>Steps that leave sessions and backend alone and only add conventions.\<close>

definition grows :: "orch \<Rightarrow> orch \<Rightarrow> bool" where
  "grows st st' \<longleftrightarrow> o_sessions st' = o_sessions st \<and> queries st' = queries st \<and>
     (learn_ok st \<longrightarrow> learn_ok st') \<and> (\<forall>t. known (o_convs st) t \<longrightarrow> known (o_convs st') t)"

lemma grows_refl [simp]: "grows st st"
  by (simp add: grows_def)

lemma grows_trans: "grows a b \<Longrightarrow> grows b c \<Longrightarrow> grows a c"
  by (auto simp: grows_def)

lemma grows_simps:
  "grows st st' \<Longrightarrow> o_sessions st' = o_sessions st"
  "grows st st' \<Longrightarrow> queries st' = queries st"
  "grows st st' \<Longrightarrow> learn_ok st \<Longrightarrow> learn_ok st'"
  "grows st st' \<Longrightarrow> known (o_convs st) t \<Longrightarrow> known (o_convs st') t"
  by (auto simp: grows_def)

text \<open>Calls that neither learn nor ask nor query.\<close>

definition plain :: "call \<Rightarrow> bool" where
  "plain c \<longleftrightarrow> queries_of [c] = [] \<and> learned_of [c] = {} \<and> (\<forall>seen. no_repeat seen [c])"

lemma plain_calls [simp]:
  "plain (CElicit q)" "plain (CResolve q ts w)" "plain (CInject q)" "plain (CDeliver i c)"
  by (simp_all add: plain_def)

lemma grows_log: "plain c \<Longrightarrow> grows st (log_call c st)"
  by (simp add: plain_def grows_def learn_ok_def)

lemma grows_formulate:
  "\<forall>t \<in> set terms. \<not> known (o_convs st) t \<Longrightarrow> grows st (log_call (CFormulate query terms) st)"
  by (auto simp: grows_def learn_ok_def)

lemma grows_learned:
  "known (o_convs st') t \<Longrightarrow> o_sessions st' = o_sessions st \<Longrightarrow> o_calls st' = o_calls st \<Longrightarrow>
     \<forall>t. known (o_convs st) t \<longrightarrow> known (o_convs st') t \<Longrightarrow> grows st (log_call (CLearn t) st')"
  by (auto simp: grows_def learn_ok_def)

lemma with_report_state:
  "o_sessions (snd (with_report cfg env q r st)) = o_sessions st"
  "o_convs (snd (with_report cfg env q r st)) = o_convs st"
  "queries (snd (with_report cfg env q r st)) = queries st"
  "learn_ok (snd (with_report cfg env q r st)) = learn_ok st"
  by (auto simp: with_report_def Let_def learn_ok_def split: sum.splits)

lemma with_report_response:
  assumes "fst (with_report cfg env q r st) = Inr r'"
  shows "qr_requires_user_input r' = qr_requires_user_input r"
    and "qr_clarification_question r' = qr_clarification_question r"
    and "qr_applied_conventions r' = qr_applied_conventions r"
    and "qr_total r' = qr_total r" and "qr_issues r' = qr_issues r"
    and "set (qr_errors r) \<subseteq> set (qr_errors r')"
  using assms by (auto simp: with_report_def Let_def split: sum.splits if_splits)

lemma with_report_raises:
  "fst (with_report cfg env q r st) = Inl e \<Longrightarrow>
     \<exists>calls i c. e_deliver env calls i c = Inl e \<and> \<not> is_OSError e \<and> \<not> is_NetraError e"
  by (auto simp: with_report_def Let_def split: sum.splits if_splits)

lemma show_step_state:
  assumes "show_in_ui_step env b res errs st = (shown, errs', st')"
  shows "o_sessions st' = o_sessions st" "o_convs st' = o_convs st" "queries st' = queries st"
    "learn_ok st' = learn_ok st" "set errs \<subseteq> set errs'"
  using assms by (auto simp: show_in_ui_step_def Let_def learn_ok_def split: if_splits)

lemma store_session_simps [simp]:
  "o_convs (store_session env s st) = o_convs st" "o_calls (store_session env s st) = o_calls st"
  "o_sessions (store_session env s st) =
     session_set (o_sessions st) (e_clock env (o_calls st)) s"
  by (simp_all add: store_session_def)

lemma dispatch_state:
  "o_sessions (snd (dispatch cfg env s query active limit errs ui st)) =
     session_set (o_sessions st) (e_clock env (o_calls st))
       (clear_pending (s\<lparr>ss_state := DISPATCHED\<rparr>))"
  "o_convs (snd (dispatch cfg env s query active limit errs ui st)) = o_convs st"
  "queries (snd (dispatch cfg env s query active limit errs ui st)) =
     queries st @ [(enriched query active, limit)]"
  "learn_ok (snd (dispatch cfg env s query active limit errs ui st)) = learn_ok st"
  by (auto simp: dispatch_def Let_def with_report_state split: sum.splits prod.splits
      dest: show_step_state) (auto simp: learn_ok_def dest: show_step_state)

text \<open>A dispatch that returns has reported one response, or raised what the backend raised.\<close>

lemma dispatch_reports:
  obtains (raised) e calls where
      "fst (dispatch cfg env s query active limit errs ui st) = Inl e"
      and "e_query env calls (enriched query active) limit = Inl e" and "\<not> is_LiteBackendError e"
  | (reported) resp st2 where
      "fst (dispatch cfg env s query active limit errs ui st) = fst (with_report cfg env query resp st2)"
      and "set errs \<subseteq> set (qr_errors resp)" and "qr_applied_conventions resp = applied_of active"
proof -
  let ?s2 = "clear_pending (s\<lparr>ss_state := DISPATCHED\<rparr>)"
  let ?st1 = "store_session env ?s2 st"
  let ?text = "enriched query active"
  let ?d = "dispatch cfg env s query active limit errs ui st"
  show thesis
  proof (cases "e_query env (o_calls ?st1) ?text limit")
    case (Inl e)
    show thesis
    proof (cases "is_LiteBackendError e")
      case True
      have "fst ?d = fst (with_report cfg env query (failure_response ?s2 active errs (exn_str e))
          (log_call (CQuery ?text limit) ?st1))"
        using Inl True by (simp add: dispatch_def Let_def)
      then show thesis by (rule reported) (auto simp: failure_response_def Let_def)
    next
      case False
      then have "fst ?d = Inl e" using Inl by (simp add: dispatch_def Let_def)
      then show thesis using Inl False by (rule raised)
    qed
  next
    case (Inr res)
    show thesis
    proof (cases "lq_total res = 0")
      case True
      have "fst ?d = fst (with_report cfg env query (zero_response ?s2 active errs res)
          (log_call (CQuery ?text limit) ?st1))"
        using Inr True by (simp add: dispatch_def Let_def)
      then show thesis by (rule reported) (auto simp: zero_response_def)
    next
      case False
      obtain shown errs' st3 where u: "show_in_ui_step env ui res errs (log_call (CQuery ?text limit) ?st1)
          = (shown, errs', st3)"
        by (metis prod_cases3)
      have "fst ?d = fst (with_report cfg env query (result_response ?s2 active res shown errs') st3)"
        using Inr False u by (simp add: dispatch_def Let_def)
      then show thesis
        by (rule reported) (use show_step_state(5) [OF u] in \<open>auto simp: result_response_def\<close>)
    qed
  qed
qed

lemma dispatch_response:
  assumes "fst (dispatch cfg env s query active limit errs ui st) = Inr r"
  shows "set errs \<subseteq> set (qr_errors r) \<and> qr_applied_conventions r = applied_of active"
proof (cases rule: dispatch_reports [of cfg env s query active limit errs ui st])
  case (reported resp st2)
  then show ?thesis using assms with_report_response(3,6) [of cfg env query resp st2 r] by auto
qed (use assms in simp)

text \<open>Learning: only the resolutions of the session change.\<close>

definition same_but_resolutions :: "SessionState \<Rightarrow> SessionState \<Rightarrow> bool" where
  "same_but_resolutions s s' \<longleftrightarrow> (\<exists>d. s' = s\<lparr>ss_resolutions := d\<rparr>)"

lemma same_but_resolutions_simps:
  assumes "same_but_resolutions s s'"
  shows "ss_session_id s' = ss_session_id s" "ss_state s' = ss_state s"
    "ss_pending_query s' = ss_pending_query s" "ss_pending_terms s' = ss_pending_terms s"
    "ss_pending_question s' = ss_pending_question s"
    "ss_clarification_rounds s' = ss_clarification_rounds s"
  using assms unfolding same_but_resolutions_def by auto

lemma same_but_resolutions_refl [simp]: "same_but_resolutions s s"
  unfolding same_but_resolutions_def by (rule exI [of _ "ss_resolutions s"]) simp

lemma same_but_resolutions_trans:
  "same_but_resolutions a b \<Longrightarrow> same_but_resolutions b c \<Longrightarrow> same_but_resolutions a c"
  unfolding same_but_resolutions_def by auto

definition resolutions_ok :: "(string \<times> TermResolution) list \<Rightarrow> bool" where
  "resolutions_ok d \<longleftrightarrow>
     dict_ok d \<and> (\<forall>(t, r) \<in> set d. tr_term r = t \<and> lower t = t \<and> tr_source r = FromClarification)"

lemma resolutions_ok_Nil [simp]: "resolutions_ok []"
  by (simp add: resolutions_ok_def)

lemma resolutions_ok_update:
  "resolutions_ok d \<Longrightarrow> tr_term r = t \<Longrightarrow> lower t = t \<Longrightarrow> tr_source r = FromClarification \<Longrightarrow>
     resolutions_ok (AList.update t r d)"
  using set_update_subset [of t r d] by (auto simp: resolutions_ok_def)

text \<open>One learned item: the session, the conventions write, the state after it.\<close>

definition learn_session :: "TermResolutionOutput \<Rightarrow> SessionState \<Rightarrow> SessionState" where
  "learn_session item s =
     (let t = lower (to_term item)
      in s\<lparr>ss_resolutions := AList.update t \<lparr>tr_term = t,
           tr_resolution_key = to_resolution_key item, tr_jql_hint = to_jql_hint item,
           tr_source = FromClarification\<rparr> (ss_resolutions s)\<rparr>)"

definition learn_write :: "env \<Rightarrow> TermResolutionOutput \<Rightarrow> orch \<Rightarrow> (exn + unit) \<times> conv_store" where
  "learn_write env item st =
     conventions_set (e_conv_enc env) (e_conv_io env (o_calls st)) (o_convs st)
       \<lparr>cv_project = INSTANCE_DEFAULT_PROJECT, cv_term = lower (to_term item),
        cv_resolution_key = to_resolution_key item, cv_jql_hint = to_jql_hint item,
        cv_learned_at = e_utc env (o_calls st)\<rparr>"

definition learn_state :: "env \<Rightarrow> TermResolutionOutput \<Rightarrow> orch \<Rightarrow> orch" where
  "learn_state env item st =
     log_call (CLearn (lower (to_term item))) (st\<lparr>o_convs := snd (learn_write env item st)\<rparr>)"

lemma learn_items_step:
  "learn_items env (item # items) s st =
     (case fst (learn_write env item st) of
        Inl e \<Rightarrow> (Inl e, learn_session item s, learn_state env item st)
      | Inr _ \<Rightarrow> learn_items env items (learn_session item s) (learn_state env item st))"
  by (simp add: learn_session_def learn_write_def learn_state_def Let_def split: sum.split)

lemma learn_step_laws:
  "grows st (learn_state env item st)"
  "known (o_convs (learn_state env item st)) (lower (to_term item))"
  "same_but_resolutions s (learn_session item s)"
  "resolutions_ok (ss_resolutions s) \<Longrightarrow> resolutions_ok (ss_resolutions (learn_session item s))"
  "map_of (ss_resolutions (learn_session item s)) t =
     (if t = lower (to_term item) then Some \<lparr>tr_term = t, tr_resolution_key = to_resolution_key item,
        tr_jql_hint = to_jql_hint item, tr_source = FromClarification\<rparr>
      else map_of (ss_resolutions s) t)"
proof -
  let ?c = "\<lparr>cv_project = INSTANCE_DEFAULT_PROJECT, cv_term = lower (to_term item),
        cv_resolution_key = to_resolution_key item, cv_jql_hint = to_jql_hint item,
        cv_learned_at = e_utc env (o_calls st)\<rparr>"
  show "known (o_convs (learn_state env item st)) (lower (to_term item))"
    using known_learned [of ?c] by (simp add: learn_state_def learn_write_def)
  then show "grows st (learn_state env item st)"
    unfolding learn_state_def by (intro grows_learned) (auto simp: learn_write_def known_set)
qed (auto simp: learn_session_def Let_def same_but_resolutions_def resolutions_ok_update)

lemma learn_items_effect:
  assumes "learn_items env items s st = (r, s', st')"
  shows "grows st st' \<and> same_but_resolutions s s' \<and>
    (resolutions_ok (ss_resolutions s) \<longrightarrow> resolutions_ok (ss_resolutions s'))"
  using assms
proof (induction items arbitrary: s st)
  case (Cons item items)
  show ?case
  proof (cases "fst (learn_write env item st)")
    case (Inl e)
    then show ?thesis using Cons.prems learn_step_laws(1,3,4)
      by (simp only: learn_items_step sum.case prod.inject) blast
  next
    case (Inr u)
    then have "learn_items env items (learn_session item s) (learn_state env item st) = (r, s', st')"
      using Cons.prems by (simp only: learn_items_step sum.case)
    from Cons.IH [OF this] show ?thesis
      using learn_step_laws(1,3,4) grows_trans same_but_resolutions_trans by blast
  qed
qed simp

lemma learn_items_known:
  assumes "learn_items env items s st = (Inr u, s', st')"
  shows "(\<forall>item \<in> set items. known (o_convs st') (lower (to_term item))) \<and>
    (\<forall>t. map_of (ss_resolutions s') t \<noteq> None \<longleftrightarrow>
        map_of (ss_resolutions s) t \<noteq> None \<or> t \<in> (\<lambda>i. lower (to_term i)) ` set items)"
  using assms
proof (induction items arbitrary: s st)
  case (Cons item items)
  have rest: "learn_items env items (learn_session item s) (learn_state env item st) = (Inr u, s', st')"
    using Cons.prems by (auto simp only: learn_items_step sum.case split: sum.splits)
  have "known (o_convs st') (lower (to_term item))"
    using learn_step_laws(2) learn_items_effect [OF rest] grows_simps(4) by blast
  then show ?case using Cons.IH [OF rest] learn_step_laws(5) [of item s] by auto
qed simp

lemma resolve_and_learn_effect:
  assumes "resolve_and_learn env v s query terms answer st = (r, s', st')"
  shows "grows st st'" and "same_but_resolutions s s'"
    and "resolutions_ok (ss_resolutions s) \<Longrightarrow> resolutions_ok (ss_resolutions s')"
proof -
  have log: "grows st (log_call (CResolve query terms answer) st)" by (rule grows_log) simp
  then show "grows st st'" "same_but_resolutions s s'"
    "resolutions_ok (ss_resolutions s) \<Longrightarrow> resolutions_ok (ss_resolutions s')"
    using assms learn_items_effect [of env _ s "log_call (CResolve query terms answer) st" r s' st']
    by (auto simp: resolve_and_learn_def Let_def split: sum.splits intro: grows_trans)
qed

subsection \<open>The split into active and unresolved terms\<close>

lemma split_onto_unresolved:
  "snd (split_onto convs s act un terms) =
     un @ filter (\<lambda>t. map_of (ss_resolutions s) t = None \<and> \<not> known convs t) terms"
  by (induction terms arbitrary: act un) (auto simp: known_def split: option.split)

lemma split_onto_active:
  "fst ` set (fst (split_onto convs s act un terms)) =
     fst ` set act \<union> {t \<in> set terms. map_of (ss_resolutions s) t \<noteq> None \<or> known convs t}"
  by (induction terms arbitrary: act un) (auto simp: known_def keys_update split: option.split)

lemma split_resolved_spec:
  assumes "split_resolved convs s terms = (act, un)"
  shows "un = filter (\<lambda>t. map_of (ss_resolutions s) t = None \<and> \<not> known convs t) terms"
    and "fst ` set act = {t \<in> set terms. map_of (ss_resolutions s) t \<noteq> None \<or> known convs t}"
  using assms split_onto_unresolved [of convs s "[]" "[]" terms] split_onto_active [of convs s "[]" "[]" terms]
  by (simp_all add: split_resolved_def)

lemma split_resolved_cover:
  "split_resolved convs s terms = (act, un) \<Longrightarrow> fst ` set act \<union> set un = set terms"
  using split_resolved_spec [of convs s terms act un] by auto

lemma activate_keys: "fst ` set act \<subseteq> fst ` set (activate s terms act) \<and>
    fst ` set (activate s terms act) \<subseteq> fst ` set act \<union> set terms"
  unfolding activate_def
proof (induction terms arbitrary: act)
  case (Cons t terms)
  show ?case
    using Cons.IH [of "case map_of (ss_resolutions s) t of None \<Rightarrow> act | Some r \<Rightarrow> AList.update t r act"]
    by (cases "map_of (ss_resolutions s) t") (auto simp: keys_update)
qed simp

subsection \<open>The invariant of the stored sessions\<close>

definition session_ok :: "settings \<Rightarrow> SessionState \<Rightarrow> bool" where
  "session_ok cfg s \<longleftrightarrow>
     0 \<le> ss_clarification_rounds s \<and> ss_clarification_rounds s \<le> max 0 (s_max_rounds cfg) \<and>
     resolutions_ok (ss_resolutions s) \<and>
     (ss_state s = AWAITING_CLARIFICATION \<longrightarrow> 1 \<le> ss_clarification_rounds s \<and>
        ss_pending_query s \<noteq> None \<and> ss_pending_question s \<noteq> None \<and> ss_pending_terms s \<noteq> []) \<and>
     (ss_state s = DISPATCHED \<longrightarrow>
        ss_pending_query s = None \<and> ss_pending_question s = None \<and> ss_pending_terms s = [])"

definition sessions_ok :: "settings \<Rightarrow> SessionState ttl_store \<Rightarrow> bool" where
  "sessions_ok cfg st \<longleftrightarrow> dict_ok (st_entries st) \<and>
     (\<forall>(sid, t, s) \<in> set (st_entries st). ss_session_id s = sid \<and> ss_state s \<noteq> IDLE \<and> session_ok cfg s)"

definition orch_ok :: "settings \<Rightarrow> orch \<Rightarrow> bool" where
  "orch_ok cfg st \<longleftrightarrow> sessions_ok cfg (o_sessions st) \<and> learn_ok st"

lemma session_ok_new [simp]: "session_ok cfg (new_session sid)"
  by (simp add: session_ok_def)

lemma session_ok_clear:
  "session_ok cfg s \<Longrightarrow> session_ok cfg (clear_pending (s\<lparr>ss_state := DISPATCHED\<rparr>))"
  by (auto simp: session_ok_def clear_pending_def)

lemma session_ok_resolved: "session_ok cfg s \<Longrightarrow> session_ok cfg (s\<lparr>ss_state := RESOLVED\<rparr>)"
  by (simp add: session_ok_def)

lemma session_ok_same:
  "session_ok cfg s \<Longrightarrow> same_but_resolutions s s' \<Longrightarrow> resolutions_ok (ss_resolutions s') \<Longrightarrow>
     session_ok cfg s'"
  by (simp add: session_ok_def same_but_resolutions_simps [of s s'])

lemma sessions_ok_set:
  "sessions_ok cfg st \<Longrightarrow> session_ok cfg s \<Longrightarrow> ss_state s \<noteq> IDLE \<Longrightarrow>
     sessions_ok cfg (session_set st now s)"
  using set_update_subset [of "ss_session_id s" "(now + st_ttl st, s)" "st_entries st"]
  by (auto simp: sessions_ok_def session_set_def ttl_set_def)

lemma sessions_ok_alias:
  "sessions_ok cfg st \<Longrightarrow> session_ok cfg s \<Longrightarrow> ss_state s \<noteq> IDLE \<Longrightarrow>
     sessions_ok cfg (session_alias st s)"
  using set_update_subset [of "ss_session_id s" _ "st_entries st"]
  by (fastforce simp: sessions_ok_def session_alias_def split: option.split)

lemma sessions_ok_get:
  assumes "sessions_ok cfg st"
  shows "sessions_ok cfg (snd (session_get st now sid))"
    and "fst (session_get st now sid) = Some s \<Longrightarrow>
           ss_session_id s = sid \<and> ss_state s \<noteq> IDLE \<and> session_ok cfg s"
  using assms set_delete_subset [of sid "st_entries st"]
  by (auto simp: sessions_ok_def session_get_def ttl_get_def split: option.splits prod.splits if_splits
      dest!: map_of_SomeD)

subsection \<open>The ways a call can end\<close>

text \<open>Exceptions that a collaborator lets out to the caller of \<open>handle_query\<close>.\<close>

definition escapes :: "env \<Rightarrow> exn \<Rightarrow> bool" where
  "escapes env e \<longleftrightarrow>
     e_load_fields env = Inl e \<or>
     (\<exists>cs q ts d l k. e_formulate env cs q ts d l k = Inl e \<and> \<not> is_ClarificationError e) \<or>
     (\<exists>cs q ts w d. e_resolve env cs q ts w d = Inl e) \<or>
     ((\<exists>cs. e_conv_io env cs \<noteq> IO_ok) \<and> (\<exists>m. e = OSError m)) \<or>
     (\<exists>cs q l. e_query env cs q l = Inl e \<and> \<not> is_LiteBackendError e) \<or>
     (\<exists>cs i c. e_deliver env cs i c = Inl e \<and> \<not> is_OSError e \<and> \<not> is_NetraError e)"

lemma set_raises: "fst (conventions_set enc io st c) = Inl e \<Longrightarrow> io \<noteq> IO_ok \<and> (\<exists>m. e = OSError m)"
  by (cases io) (auto simp: conventions_set_def)

lemma learn_items_raises:
  "learn_items env items s st = (Inl e, s', st') \<Longrightarrow>
     (\<exists>cs. e_conv_io env cs \<noteq> IO_ok) \<and> (\<exists>m. e = OSError m)"
proof (induction items arbitrary: s st)
  case (Cons item items)
  then show ?case
    by (auto simp only: learn_items_step learn_write_def prod.inject sum.inject split: sum.splits dest!: set_raises)
qed simp

lemma resolve_and_learn_raises:
  "resolve_and_learn env v s query terms answer st = (Inl e, s', st') \<Longrightarrow> escapes env e"
  by (auto simp: resolve_and_learn_def Let_def escapes_def split: sum.splits dest: learn_items_raises)

lemma dispatch_raises:
  "fst (dispatch cfg env s query active limit errs ui st) = Inl e \<Longrightarrow> escapes env e"
  by (cases rule: dispatch_reports [of cfg env s query active limit errs ui st])
    (auto simp: escapes_def dest!: with_report_raises)

text \<open>What happens to a session object between its lookup and the end of the call.\<close>

definition follows :: "settings \<Rightarrow> SessionState \<Rightarrow> SessionState \<Rightarrow> bool" where
  "follows cfg s s' \<longleftrightarrow> ss_session_id s' = ss_session_id s \<and>
     (ss_state s \<noteq> IDLE \<longrightarrow> ss_state s' \<noteq> IDLE) \<and> (session_ok cfg s \<longrightarrow> session_ok cfg s')"

lemma follows_refl [simp]: "follows cfg s s"
  by (simp add: follows_def)

lemma follows_trans: "follows cfg a b \<Longrightarrow> follows cfg b c \<Longrightarrow> follows cfg a c"
  by (simp add: follows_def)

lemma follows_learn:
  assumes "resolve_and_learn env v s query terms answer st = (r, s', st')"
  shows "follows cfg s s'"
  using resolve_and_learn_effect(2,3) [OF assms] session_ok_same [of cfg s s']
  by (auto simp: follows_def same_but_resolutions_simps session_ok_def)

lemma follows_resolved: "transition s RESOLVED = Inr s' \<Longrightarrow> follows cfg s s'"
  by (auto simp: transition_resolved follows_def session_ok_resolved split: if_splits)

lemma follows_round:
  "ss_clarification_rounds s < s_max_rounds cfg \<Longrightarrow>
     follows cfg s (s\<lparr>ss_clarification_rounds := ss_clarification_rounds s + 1\<rparr>)"
  by (auto simp: follows_def session_ok_def)

text \<open>The session stored together with a question.\<close>

definition awaiting :: "string \<Rightarrow> string list \<Rightarrow> string \<Rightarrow> SessionState \<Rightarrow> SessionState" where
  "awaiting query un question s =
     s\<lparr>ss_clarification_rounds := ss_clarification_rounds s + 1, ss_state := AWAITING_CLARIFICATION,
       ss_pending_query := Some query, ss_pending_terms := un, ss_pending_question := Some question\<rparr>"

lemma ask_question_cases:
  assumes rounds: "ss_clarification_rounds s < s_max_rounds cfg"
  obtains (answered) s' st' where
      "ask_question cfg env v a query s aliased active un question st =
         dispatch cfg env s' query (activate s' un active) (q_limit a) [] (q_show_in_ui a) st'"
      and "follows cfg s s'" and "grows st st'" and "e_elicit env \<noteq> None"
  | (asked) st' where
      "ask_question cfg env v a query s aliased active un question st =
         (Inr (question_response (q_session_id a) question),
          store_session env (awaiting query un question s) st')"
      and "grows st st'"
  | (raised) e s' st' where
      "ask_question cfg env v a query s aliased active un question st = raise_with e aliased s' st'"
      and "follows cfg s s'" and "grows st st'"
      and "escapes env e \<or> e_elicit env \<noteq> None \<and> ss_state s = RESOLVED \<and> (\<exists>m. e = StateTransitionError m)"
proof -
  let ?s1 = "s\<lparr>ss_clarification_rounds := ss_clarification_rounds s + 1\<rparr>"
  let ?st1 = "if e_elicit env = None then st else log_call (CElicit question) st"
  let ?ans = "case e_elicit env of None \<Rightarrow> None | Some el \<Rightarrow> el (o_calls st) question"
  let ?r = "ask_question cfg env v a query s aliased active un question st"
  have g1: "grows st ?st1" by (simp add: grows_log)
  have f1: "follows cfg s ?s1" by (rule follows_round [OF rounds])
  show thesis
  proof (cases "given ?ans")
    case False
    have "?r = (Inr (question_response (q_session_id a) question),
        store_session env (awaiting query un question s) ?st1)"
      using False by (simp add: ask_question_def Let_def awaiting_def)
    then show thesis using g1 by (rule asked)
  next
    case True
    then have el: "e_elicit env \<noteq> None" by (auto split: option.splits)
    obtain r s2 st2 where rl: "resolve_and_learn env v ?s1 query un (the ?ans) ?st1 = (r, s2, st2)"
      by (metis prod_cases3)
    have g2: "grows st st2" using g1 resolve_and_learn_effect(1) [OF rl] by (rule grows_trans)
    have f2: "follows cfg s s2" using f1 follows_learn [OF rl] by (rule follows_trans)
    show thesis
    proof (cases r)
      case (Inl e)
      have "?r = raise_with e aliased s2 st2" using True rl Inl by (simp add: ask_question_def Let_def)
      then show thesis using f2 g2 resolve_and_learn_raises [OF rl [unfolded Inl]] by (blast intro: raised)
    next
      case (Inr u)
      have r: "?r = (case transition s2 RESOLVED of Inl e \<Rightarrow> raise_with e aliased s2 st2
          | Inr s3 \<Rightarrow> dispatch cfg env s3 query (activate s2 un active) (q_limit a) [] (q_show_in_ui a) st2)"
        using True rl Inr by (simp add: ask_question_def Let_def)
      show thesis
      proof (cases "transition s2 RESOLVED")
        case (Inl e)
        moreover have "ss_state s2 = ss_state s"
          using resolve_and_learn_effect(2) [OF rl] by (simp add: same_but_resolutions_simps)
        ultimately have "ss_state s = RESOLVED \<and> (\<exists>m. e = StateTransitionError m)"
          by (auto simp: transition_resolved split: if_splits)
        then show thesis using r Inl f2 g2 el by (auto intro: raised)
      next
        case (Inr s3)
        then have "activate s3 un active = activate s2 un active"
          by (auto simp: transition_resolved activate_def split: if_splits)
        moreover have "follows cfg s s3" using f2 follows_resolved [OF Inr] by (rule follows_trans)
        ultimately show thesis using r Inr g2 el answered [of s3 st2] by simp
      qed
    qed
  qed
qed

text \<open>
  The outcome of the part of \<open>handle_query\<close> after the pending question: a dispatch (with the
  terms it covers), a question about terms nobody has resolved, or an exception.
\<close>

definition warned :: "string list \<Rightarrow> bool" where
  "warned errs \<longleftrightarrow> (\<exists>e \<in> set errs. startswith e ''clarification '')"

lemma warned_messages [simp]:
  "warned [exhausted_warning ts]" "warned [''clarification unavailable: '' @ m]" "\<not> warned []"
  by (simp_all add: warned_def exhausted_warning_def startswith_def)

text \<open>What follows the check of the rounds: the question is formulated and asked.\<close>

definition formulated :: "settings \<Rightarrow> env \<Rightarrow> vocab \<Rightarrow> qargs \<Rightarrow> string \<Rightarrow> SessionState \<Rightarrow> bool \<Rightarrow>
    (string \<times> TermResolution) list \<Rightarrow> string list \<Rightarrow> JiraField list \<Rightarrow> orch \<Rightarrow> (exn + QueryResponse) \<times> orch" where
  "formulated cfg env v a query s aliased active un known_fields st =
     (let st1 = log_call (CFormulate query un) st
      in case e_formulate env (o_calls st) query un (entries_for v un)
                (conventions_list_all (o_convs st)) (py_take (s_max_fields_in_prompt cfg) known_fields) of
           Inl e \<Rightarrow>
             if is_ClarificationError e
             then dispatch cfg env s query active (q_limit a)
                    [''clarification unavailable: '' @ exn_str e] (q_show_in_ui a) st1
             else raise_with e aliased s st1
         | Inr question \<Rightarrow> ask_question cfg env v a query s aliased active un question st1)"

lemma formulated_cases:
  assumes less: "ss_clarification_rounds s < s_max_rounds cfg"
    and un: "\<forall>t \<in> set un. t \<in> set (detect v query) \<and> map_of (ss_resolutions s) t = None \<and> \<not> known (o_convs st) t"
  obtains (dispatched) s' active' errs st' where
      "formulated cfg env v a query s aliased active un known_fields st =
         dispatch cfg env s' query active' (q_limit a) errs (q_show_in_ui a) st'"
      and "follows cfg s s'" and "grows st st'" and "e_elicit env = None \<Longrightarrow> warned errs"
  | (asked) question st' where
      "formulated cfg env v a query s aliased active un known_fields st =
         (Inr (question_response (q_session_id a) question), store_session env (awaiting query un question s) st')"
      and "grows st st'"
  | (raised) e s' st' where
      "formulated cfg env v a query s aliased active un known_fields st = raise_with e aliased s' st'"
      and "follows cfg s s'" and "grows st st'"
      and "escapes env e \<or> e_elicit env \<noteq> None \<and> ss_state s = RESOLVED \<and> (\<exists>m. e = StateTransitionError m)"
proof -
  let ?r = "formulated cfg env v a query s aliased active un known_fields st"
  let ?st1 = "log_call (CFormulate query un) st"
  let ?f = "e_formulate env (o_calls st) query un (entries_for v un)
              (conventions_list_all (o_convs st)) (py_take (s_max_fields_in_prompt cfg) known_fields)"
  have g1: "grows st ?st1" using un by (intro grows_formulate) simp
  show thesis
  proof (cases ?f)
    case f: (Inl e)
    show thesis
    proof (cases "is_ClarificationError e")
      case True
      then have "?r = dispatch cfg env s query active (q_limit a)
          [''clarification unavailable: '' @ exn_str e] (q_show_in_ui a) ?st1"
        using f by (simp add: formulated_def)
      then show thesis by (rule dispatched) (use g1 in \<open>simp_all add: warned_def startswith_def\<close>)
    next
      case False
      then have "?r = raise_with e aliased s ?st1" using f by (simp add: formulated_def)
      then show thesis by (rule raised) (use g1 f False in \<open>auto simp: escapes_def\<close>)
    qed
  next
    case (Inr question)
    then have ask: "?r = ask_question cfg env v a query s aliased active un question ?st1" by (simp add: formulated_def)
    show thesis
      using less
    proof (cases rule: ask_question_cases [where cfg = cfg and s = s and env = env and v = v and a = a
          and query = query and aliased = aliased and active = active and un = un
          and question = question and st = ?st1])
      case (answered s' st')
      then show thesis using ask grows_trans [OF g1] by (intro dispatched) auto
    next
      case (asked st')
      then show thesis using ask grows_trans [OF g1] by (intro that(2)) auto
    next
      case (raised e s' st')
      then show thesis using ask grows_trans [OF g1] by (intro that(3)) auto
    qed
  qed
qed

lemma clarify_cases:
  obtains (dispatched) s' active errs st' where
      "clarify_and_dispatch cfg env v a query s aliased st =
         dispatch cfg env s' query active (q_limit a) errs (q_show_in_ui a) st'"
      and "follows cfg s s'" and "grows st st'"
      and "e_elicit env = None \<Longrightarrow> \<not> warned errs \<Longrightarrow> fst ` set active = set (detect v query)"
  | (asked) un question st' where
      "clarify_and_dispatch cfg env v a query s aliased st =
         (Inr (question_response (q_session_id a) question),
          store_session env (awaiting query un question s) st')"
      and "grows st st'" and "un \<noteq> []" and "ss_clarification_rounds s < s_max_rounds cfg"
      and "\<forall>t \<in> set un. t \<in> set (detect v query) \<and> map_of (ss_resolutions s) t = None \<and> \<not> known (o_convs st) t"
  | (raised) e s' st' where
      "clarify_and_dispatch cfg env v a query s aliased st = raise_with e aliased s' st'"
      and "follows cfg s s'" and "grows st st'"
      and "escapes env e \<or> e_elicit env \<noteq> None \<and> ss_state s = RESOLVED \<and> (\<exists>m. e = StateTransitionError m)"
proof -
  let ?r = "clarify_and_dispatch cfg env v a query s aliased st"
  obtain active un where sp: "split_resolved (o_convs st) s (detect v query) = (active, un)"
    by (cases "split_resolved (o_convs st) s (detect v query)")
  have un: "\<forall>t \<in> set un. t \<in> set (detect v query) \<and> map_of (ss_resolutions s) t = None \<and> \<not> known (o_convs st) t"
    using split_resolved_spec(1) [OF sp] by auto
  have cover: "fst ` set active \<union> set un = set (detect v query)" by (rule split_resolved_cover [OF sp])
  note r = clarify_and_dispatch_def [of cfg env v a query s aliased st] sp Let_def
  show thesis
  proof (cases "un = []")
    case True
    then have "?r = dispatch cfg env s query active (q_limit a) [] (q_show_in_ui a) st" by (simp add: r)
    then show thesis by (rule dispatched) (use cover True in simp_all)
  next
    case un_ne: False
    show thesis
    proof (cases "s_max_rounds cfg \<le> ss_clarification_rounds s")
      case True
      then have "?r = dispatch cfg env s query active (q_limit a) [exhausted_warning un] (q_show_in_ui a) st"
        using un_ne by (simp add: r)
      then show thesis by (rule dispatched) simp_all
    next
      case rounds: False
      show thesis
      proof (cases "e_load_fields env")
        case (Inl e)
        then have "?r = raise_with e aliased s st" using un_ne rounds by (simp add: r)
        then show thesis by (rule raised) (use Inl in \<open>simp_all add: escapes_def\<close>)
      next
        case fields: (Inr known_fields)
        then have f: "?r = formulated cfg env v a query s aliased active un known_fields st"
          using un_ne rounds by (simp add: r formulated_def)
        have less: "ss_clarification_rounds s < s_max_rounds cfg" using rounds by simp
        show thesis
          using less un
        proof (cases rule: formulated_cases [where cfg = cfg and s = s and env = env and v = v and a = a and query = query and
              aliased = aliased and active = active and un = un and known_fields = known_fields and st = st])
          case (dispatched s' active' errs st')
          then show thesis using f by (intro that(1)) auto
        next
          case (asked question st')
          then show thesis using f un_ne un less by (intro that(2)) auto
        next
          case (raised e s' st')
          then show thesis using f by (intro that(3)) auto
        qed
      qed
    qed
  qed
qed

text \<open>The state after the lookup at the start of a call, and the session it found or made.\<close>

definition looked_up :: "env \<Rightarrow> qargs \<Rightarrow> orch \<Rightarrow> orch" where
  "looked_up env a st =
     st\<lparr>o_sessions := snd (session_get (o_sessions st) (e_clock env (o_calls st)) (q_session_id a))\<rparr>"

definition current :: "env \<Rightarrow> qargs \<Rightarrow> orch \<Rightarrow> SessionState option" where
  "current env a st = live (o_sessions st) (e_clock env (o_calls st)) (q_session_id a)"

lemma looked_up_simps [simp]:
  "o_convs (looked_up env a st) = o_convs st" "o_calls (looked_up env a st) = o_calls st"
  "learn_ok (looked_up env a st) = learn_ok st"
  by (simp_all add: looked_up_def learn_ok_def)

lemma current_get: "fst (session_get (o_sessions st) (e_clock env (o_calls st)) (q_session_id a)) = current env a st"
  by (simp add: current_def session_get_def)

text \<open>The session a call continues with: the stored one, or a new one.\<close>

definition starts_with :: "env \<Rightarrow> qargs \<Rightarrow> orch \<Rightarrow> bool \<Rightarrow> SessionState \<Rightarrow> bool" where
  "starts_with env a st aliased s \<longleftrightarrow>
     (if aliased then current env a st = Some s else s = new_session (q_session_id a))"

lemma answered_query_cases:
  assumes s: "current env a st = Some s" "ss_state s = AWAITING_CLARIFICATION" "given (q_clarification_answer a)"
  obtains (resolved) query s' st' where
      "handle_query cfg env v a st = clarify_and_dispatch cfg env v a query s' True st'"
      and "follows cfg s s'" and "grows (looked_up env a st) st'"
      and "ss_clarification_rounds s' = ss_clarification_rounds s"
  | (failed) e s' st' where
      "handle_query cfg env v a st = raise_with e True s' st'"
      and "follows cfg s s'" and "grows (looked_up env a st) st'" and "escapes env e"
proof -
  let ?query = "or_else (ss_pending_query s) (q_query a)"
  note h = handle_query_def [of cfg env v a st, unfolded Let_def current_get, folded looked_up_def]
  obtain r s1 st2 where rl: "resolve_and_learn env v s ?query (ss_pending_terms s)
      (the (q_clarification_answer a)) (looked_up env a st) = (r, s1, st2)"
    by (metis prod_cases3)
  note g = resolve_and_learn_effect(1) [OF rl] and f = follows_learn [OF rl]
    and same = resolve_and_learn_effect(2) [OF rl]
  show thesis
  proof (cases r)
    case (Inl e)
    have "handle_query cfg env v a st = raise_with e True s1 st2" using s rl Inl by (simp add: h)
    then show thesis using f g resolve_and_learn_raises [OF rl [unfolded Inl]] by (rule failed)
  next
    case (Inr u)
    have "ss_state s1 = AWAITING_CLARIFICATION" using same s(2) by (simp add: same_but_resolutions_simps)
    then have t: "transition s1 RESOLVED = Inr (s1\<lparr>ss_state := RESOLVED\<rparr>)" by (simp add: transition_resolved)
    then have "handle_query cfg env v a st = clarify_and_dispatch cfg env v a ?query (s1\<lparr>ss_state := RESOLVED\<rparr>) True st2"
      using s rl Inr by (simp add: h)
    then show thesis using follows_trans [OF f follows_resolved [OF t]] g
      by (rule resolved) (use same in \<open>simp add: same_but_resolutions_simps\<close>)
  qed
qed

lemma handle_query_cases:
  obtains (clarified) s0 s query aliased st' where
      "handle_query cfg env v a st = clarify_and_dispatch cfg env v a query s aliased st'"
      and "starts_with env a st aliased s0" and "follows cfg s0 s"
      and "grows (looked_up env a st) st'"
      and "ss_clarification_rounds s = ss_clarification_rounds s0"
      and "aliased \<longleftrightarrow> (\<exists>s'. current env a st = Some s' \<and>
             (ss_state s' = AWAITING_CLARIFICATION \<longrightarrow> given (q_clarification_answer a)))"
  | (reissued) s question where
      "handle_query cfg env v a st =
         (Inr (question_response (q_session_id a) question), store_session env s (looked_up env a st))"
      and "current env a st = Some s" and "ss_state s = AWAITING_CLARIFICATION"
      and "ss_pending_query s = Some (q_query a)" and "ss_pending_question s = Some question"
      and "\<not> given (q_clarification_answer a)"
  | (raised) e s0 s' st' where
      "handle_query cfg env v a st = raise_with e True s' st'"
      and "current env a st = Some s0" and "follows cfg s0 s'"
      and "grows (looked_up env a st) st'" and "escapes env e"
proof -
  let ?st1 = "looked_up env a st"
  let ?h = "handle_query cfg env v a st"
  note h = handle_query_def [of cfg env v a st, unfolded Let_def current_get, folded looked_up_def]
  have fresh: "starts_with env a st False (new_session (q_session_id a))" by (simp add: starts_with_def)
  have stored: "current env a st = Some s \<Longrightarrow> starts_with env a st True s" for s
    by (simp add: starts_with_def)
  show thesis
  proof (cases "current env a st")
    case None
    then have "?h = clarify_and_dispatch cfg env v a (q_query a) (new_session (q_session_id a)) False ?st1"
      by (simp add: h)
    then show thesis using fresh by (rule clarified) (use None in simp_all)
  next
    case (Some s)
    show thesis
    proof (cases "ss_state s = AWAITING_CLARIFICATION")
      case False
      then have "?h = clarify_and_dispatch cfg env v a (q_query a) s True ?st1"
        using Some by (simp add: h)
      then show thesis using stored [OF Some] by (rule clarified) (use Some False in simp_all)
    next
      case awaits: True
      show thesis
      proof (cases "given (q_clarification_answer a)")
        case False
        show thesis
        proof (cases "ss_pending_query s = Some (q_query a) \<and> given (ss_pending_question s)")
          case True
          then obtain question where q: "ss_pending_question s = Some question"
            by (auto elim: given_E)
          then have "?h = (Inr (question_response (q_session_id a) question), store_session env s ?st1)"
            using Some awaits False True by (simp add: h)
          then show thesis by (rule reissued) (use Some awaits False True q in simp_all)
        next
          case moved_on: False
          then have "?h = clarify_and_dispatch cfg env v a (q_query a) (new_session (q_session_id a)) False ?st1"
            using Some awaits False by (auto simp add: h)
          then show thesis using fresh by (rule clarified) (use Some awaits False in simp_all)
        qed
      next
        case True
        show thesis
          using Some awaits True
        proof (cases rule: answered_query_cases [where cfg = cfg and v = v])
          case (resolved query s' st')
          from resolved(1) stored [OF Some] resolved(2,3,4) show thesis
            by (rule clarified) (use Some True in simp)
        next
          case (failed e s' st')
          then show thesis using Some by (intro raised) auto
        qed
      qed
    qed
  qed
qed

lemma starts_with_ok:
  assumes "orch_ok cfg st" "starts_with env a st aliased s"
  shows "ss_session_id s = q_session_id a" "session_ok cfg s" "aliased \<Longrightarrow> ss_state s \<noteq> IDLE"
  using assms sessions_ok_get(2) [of cfg "o_sessions st" "e_clock env (o_calls st)" "q_session_id a" s]
  by (auto simp: starts_with_def orch_ok_def current_get split: if_splits)

lemma orch_ok_looked_up: "orch_ok cfg st \<Longrightarrow> orch_ok cfg (looked_up env a st)"
  by (simp add: orch_ok_def) (simp add: looked_up_def sessions_ok_get(1))

lemma orch_ok_grows: "grows st st' \<Longrightarrow> orch_ok cfg st \<Longrightarrow> orch_ok cfg st'"
  by (simp add: orch_ok_def grows_simps)

lemma orch_ok_dispatch:
  "orch_ok cfg st \<Longrightarrow> session_ok cfg s \<Longrightarrow>
     orch_ok cfg (snd (dispatch cfg env s query active limit errs ui st))"
  by (simp add: orch_ok_def dispatch_state sessions_ok_set session_ok_clear clear_pending_def)
    (simp add: sessions_ok_set session_ok_clear [unfolded clear_pending_def])

lemma orch_ok_store:
  "orch_ok cfg st \<Longrightarrow> session_ok cfg s \<Longrightarrow> ss_state s \<noteq> IDLE \<Longrightarrow> orch_ok cfg (store_session env s st)"
  by (simp add: orch_ok_def sessions_ok_set) (simp add: store_session_def learn_ok_def)

lemma orch_ok_raise:
  "orch_ok cfg st \<Longrightarrow> session_ok cfg s \<Longrightarrow> (aliased \<Longrightarrow> ss_state s \<noteq> IDLE) \<Longrightarrow>
     orch_ok cfg (snd (raise_with e aliased s st))"
  by (auto simp: orch_ok_def raise_with_def sessions_ok_alias learn_ok_def)

lemma session_ok_awaiting:
  "session_ok cfg s \<Longrightarrow> un \<noteq> [] \<Longrightarrow> ss_clarification_rounds s < s_max_rounds cfg \<Longrightarrow>
     session_ok cfg (awaiting query un question s)"
  by (simp add: session_ok_def awaiting_def)

subsection \<open>Runs\<close>

text \<open>
  A run of calls on one server, each with its own environment (a host may or may not support
  elicitation), from a start with no session.
\<close>

definition fresh_orch :: "int \<Rightarrow> conv_store \<Rightarrow> orch" where
  "fresh_orch ttl convs = \<lparr>o_sessions = ttl_new ttl, o_convs = convs, o_calls = []\<rparr>"

fun orch_run :: "settings \<Rightarrow> vocab \<Rightarrow> orch \<Rightarrow> (env \<times> qargs) list \<Rightarrow> orch" where
  "orch_run cfg v st [] = st"
| "orch_run cfg v st ((env, a) # calls) = orch_run cfg v (snd (handle_query cfg env v a st)) calls"

lemma clarify_preserves:
  assumes ok: "orch_ok cfg st" and s: "session_ok cfg s" "aliased \<Longrightarrow> ss_state s \<noteq> IDLE"
  shows "orch_ok cfg (snd (clarify_and_dispatch cfg env v a query s aliased st))"
proof (cases rule: clarify_cases [of cfg env v a query s aliased st])
  case (dispatched s' active errs st')
  then show ?thesis using ok s by (simp add: orch_ok_dispatch orch_ok_grows follows_def)
next
  case (asked un question st')
  have "orch_ok cfg (store_session env (awaiting query un question s) st')"
    using asked(2-4) ok s(1) by (intro orch_ok_store orch_ok_grows [of st st'] session_ok_awaiting)
      (simp_all add: awaiting_def)
  then show ?thesis using asked(1) by simp
next
  case (raised e s' st')
  then show ?thesis using ok s by (simp add: orch_ok_raise orch_ok_grows follows_def)
qed

lemma handle_query_preserves:
  assumes ok: "orch_ok cfg st"
  shows "orch_ok cfg (snd (handle_query cfg env v a st))"
proof (cases rule: handle_query_cases [of cfg env v a st])
  case (clarified s0 s query aliased st')
  note s0 = starts_with_ok [OF ok clarified(2)]
  have "orch_ok cfg st'" using clarified(4) ok by (simp add: orch_ok_grows orch_ok_looked_up)
  then show ?thesis using clarified(1,3) s0 by (simp add: clarify_preserves follows_def)
next
  case (reissued s question)
  then have "session_ok cfg s" using starts_with_ok(2) [OF ok, of env a True s] by (simp add: starts_with_def)
  then show ?thesis using reissued ok by (simp add: orch_ok_store orch_ok_looked_up)
next
  case (raised e s0 s' st')
  have sw: "starts_with env a st True s0" using raised(2) by (simp add: starts_with_def)
  note s0 = starts_with_ok [OF ok sw]
  have "orch_ok cfg st'" using raised(4) ok by (simp add: orch_ok_grows orch_ok_looked_up)
  then show ?thesis using raised(1,3) s0 by (simp add: orch_ok_raise follows_def)
qed

lemma orch_ok_fresh: "orch_ok cfg (fresh_orch ttl convs)"
  by (simp add: orch_ok_def fresh_orch_def sessions_ok_def learn_ok_def ttl_new_def)

lemma orch_ok_run: "orch_ok cfg st \<Longrightarrow> orch_ok cfg (orch_run cfg v st calls)"
  by (induction cfg v st calls rule: orch_run.induct) (simp_all add: handle_query_preserves)

lemma handle_query_raises:
  assumes "fst (handle_query cfg env v a st) = Inl e"
  shows "escapes env e \<or> e_elicit env \<noteq> None \<and> (\<exists>m. e = StateTransitionError m)"
proof (cases rule: handle_query_cases [of cfg env v a st])
  case (clarified s0 s query aliased st1)
  then show ?thesis
  proof (cases rule: clarify_cases [of cfg env v a query s aliased st1])
    case (dispatched s' active errs st2)
    then show ?thesis using assms clarified(1) dispatch_raises by simp
  next
    case (asked un question st2)
    then show ?thesis using assms clarified(1) by simp
  next
    case (raised e' s' st2)
    then show ?thesis using assms clarified(1) by (auto simp: raise_with_def)
  qed
qed (use assms in \<open>simp_all add: raise_with_def\<close>)

subsection \<open>Sessions are separate\<close>

definition entry :: "orch \<Rightarrow> string \<Rightarrow> (int \<times> SessionState) option" where
  "entry st sid = map_of (st_entries (o_sessions st)) sid"

lemma entry_other:
  "sid \<noteq> ss_session_id s \<Longrightarrow> entry (store_session env s st) sid = entry st sid"
  "sid \<noteq> ss_session_id s \<Longrightarrow> entry (snd (raise_with e aliased s st)) sid = entry st sid"
  "sid \<noteq> ss_session_id s \<Longrightarrow> entry (snd (dispatch cfg env s query active limit errs ui st)) sid = entry st sid"
  "sid \<noteq> q_session_id a \<Longrightarrow> entry (looked_up env a st) sid = entry st sid"
  by (simp_all add: entry_def session_set_def ttl_set_def raise_with_def session_alias_def dispatch_state
      clear_pending_def looked_up_def session_get_def ttl_get_def update_conv' delete_conv' split: option.split)

lemma grows_entry: "grows st st' \<Longrightarrow> entry st' sid = entry st sid"
  by (simp add: grows_def entry_def)

lemma clarify_other:
  assumes "sid \<noteq> ss_session_id s"
  shows "entry (snd (clarify_and_dispatch cfg env v a query s aliased st)) sid = entry st sid"
proof (cases rule: clarify_cases [of cfg env v a query s aliased st])
  case (dispatched s' active errs st')
  then show ?thesis using assms by (simp add: entry_other follows_def grows_entry)
next
  case (asked un question st')
  then show ?thesis using assms by (simp add: entry_other awaiting_def grows_entry)
next
  case (raised e s' st')
  then show ?thesis using assms by (simp add: entry_other follows_def grows_entry)
qed

lemma handle_query_other:
  assumes ok: "orch_ok cfg st" and other: "sid \<noteq> q_session_id a"
  shows "entry (snd (handle_query cfg env v a st)) sid = entry st sid"
proof (cases rule: handle_query_cases [of cfg env v a st])
  case (clarified s0 s query aliased st')
  have "ss_session_id s = q_session_id a"
    using starts_with_ok(1) [OF ok clarified(2)] clarified(3) by (simp add: follows_def)
  then show ?thesis
    using clarified(1) other by (simp add: clarify_other grows_entry [OF clarified(4)] entry_other)
next
  case (reissued s question)
  then have "ss_session_id s = q_session_id a"
    using starts_with_ok(1) [OF ok, of env a True s] by (simp add: starts_with_def)
  then show ?thesis using reissued(1) other by (simp add: entry_other)
next
  case (raised e s0 s' st')
  then have "ss_session_id s' = q_session_id a"
    using starts_with_ok(1) [OF ok, of env a True s0] by (simp add: starts_with_def follows_def)
  then show ?thesis using raised(1) other by (simp add: grows_entry [OF raised(4)] entry_other)
qed

lemma orch_run_other:
  "orch_ok cfg st \<Longrightarrow> sid \<notin> q_session_id ` snd ` set calls \<Longrightarrow> entry (orch_run cfg v st calls) sid = entry st sid"
  by (induction cfg v st calls rule: orch_run.induct) (simp_all add: handle_query_other handle_query_preserves)

subsection \<open>A concrete server\<close>

definition sample_result :: LiteQueryResult where
  "sample_result = lite_query_result\<lparr>lq_answer := Some ''1 issue'', lq_jql := Some ''labels = risk'', lq_total := 1,
     lq_shown := 1\<rparr>"

definition sample_env :: "(call list \<Rightarrow> string \<Rightarrow> string option) option \<Rightarrow> string list \<Rightarrow> env" where
  "sample_env host resolves =
     \<lparr>e_formulate = (\<lambda>_ _ _ _ _ _. Inr ''Which one?''),
      e_resolve = (\<lambda>_ _ _ _ _. Inr (map (\<lambda>t. \<lparr>to_term = t, to_resolution_key = ''label'',
         to_jql_hint = ''labels = x''\<rparr>) resolves)),
      e_elicit = host, e_query = (\<lambda>_ _ _. Inr sample_result),
      e_inject = (\<lambda>_ _. inject_ack True),
      e_deliver = (\<lambda>_ _ _. Inr ''report.md''), e_load_fields = Inr [], e_conv_enc = (\<lambda>_. ''[]''),
      e_conv_io = (\<lambda>_. IO_ok), e_clock = (\<lambda>_. 0), e_utc = (\<lambda>_. 0), e_isoformat = (\<lambda>_. []),
      e_stamp = (\<lambda>_. []), e_hex8 = (\<lambda>_. [])\<rparr>"

definition sample_settings :: settings where
  "sample_settings = \<lparr>s_max_rounds = 2, s_max_fields_in_prompt = 10, s_delivery_enabled = False,
     s_max_issues = 10, s_renderer = None\<rparr>"

definition sample_vocab :: vocab where
  "sample_vocab = [(''risk'', \<lparr>ve_ambiguity = [], ve_questions = [], ve_jql_patterns = []\<rparr>),
     (''open'', \<lparr>ve_ambiguity = [], ve_questions = [], ve_jql_patterns = []\<rparr>)]"

definition sample_query :: "string \<Rightarrow> string option \<Rightarrow> qargs" where
  "sample_query text answer = \<lparr>q_query = text, q_session_id = ''s'', q_clarification_answer = answer,
     q_limit = None, q_show_in_ui = False\<rparr>"

definition sample_start :: orch where
  "sample_start = fresh_orch 60 \<lparr>cs_path = ''c.json'', cs_items = [], cs_file = None, cs_tmp = None\<rparr>"

text \<open>A first call that asks, on a host without elicitation.\<close>

definition sample_asked :: orch where
  "sample_asked = snd (handle_query sample_settings (sample_env None []) sample_vocab
     (sample_query ''open risks'' None) sample_start)"

lemma sample_start_ok: "orch_ok sample_settings sample_start"
  unfolding sample_start_def by (rule orch_ok_fresh)

lemma sample_asked_ok: "orch_ok sample_settings sample_asked"
  unfolding sample_asked_def by (rule handle_query_preserves [OF sample_start_ok])

subsection \<open>Properties\<close>

text \<open>C3: after any run of calls, ended by a response or by an exception, every stored session
  is well formed: it is stored under its own id and is not IDLE, its round counter is within
  the configured maximum, its resolutions are keyed by their own lower-case term, a session
  that awaits an answer holds the query, the terms and the question asked, and a dispatched one
  holds no pending question.\<close>

theorem sessions_stay_well_formed:
  "sessions_ok cfg (o_sessions (orch_run cfg v (fresh_orch ttl convs) calls))"
  using orch_ok_run [OF orch_ok_fresh] by (simp add: orch_ok_def)

text \<open>C2: learned once, never asked again: over any run of calls, of any sessions, in which
  conventions may fail to be written, no question is formulated about a term for which an answer
  was learned before it.\<close>

theorem learned_never_asked_again:
  "no_repeat {} (o_calls (orch_run cfg v (fresh_orch ttl convs) calls))"
  using orch_ok_run [OF orch_ok_fresh, of cfg v ttl convs calls] by (simp add: orch_ok_def learn_ok_def)

definition stored :: "orch \<Rightarrow> string \<Rightarrow> SessionState option" where
  "stored st sid = map_option snd (map_of (st_entries (o_sessions st)) sid)"

lemma stored_simps:
  "stored (store_session env s st) (ss_session_id s) = Some s"
  "stored (snd (dispatch cfg env s query active limit errs ui st)) (ss_session_id s) =
     Some (clear_pending (s\<lparr>ss_state := DISPATCHED\<rparr>))"
  by (simp_all add: stored_def session_set_def ttl_set_def dispatch_state)
    (simp add: clear_pending_def)

definition asks :: "string \<Rightarrow> orch \<Rightarrow> QueryResponse \<Rightarrow> orch \<Rightarrow> bool" where
  "asks sid st r st' \<longleftrightarrow> queries st' = queries st \<and>
     (\<exists>s question. r = question_response sid question \<and> stored st' sid = Some s \<and>
        ss_state s = AWAITING_CLARIFICATION \<and> ss_pending_question s = Some question)"

definition sends :: "qargs \<Rightarrow> orch \<Rightarrow> QueryResponse \<Rightarrow> orch \<Rightarrow> string \<Rightarrow> (string \<times> TermResolution) list \<Rightarrow> bool"
  where
  "sends a st r st' query active \<longleftrightarrow>
     queries st' = queries st @ [(enriched query active, q_limit a)] \<and>
     qr_applied_conventions r = applied_of active \<and>
     (\<exists>s. stored st' (q_session_id a) = Some s \<and> ss_state s = DISPATCHED \<and>
        ss_pending_question s = None \<and> ss_pending_query s = None \<and> ss_clarification_rounds s = 0)"

lemma dispatch_sends:
  assumes "dispatch cfg env s query active (q_limit a) errs ui st' = (Inr r, st'')"
    and "queries st' = queries st" "ss_session_id s = q_session_id a"
  shows "sends a st r st'' query active"
  using assms dispatch_state(3) [of cfg env s query active "q_limit a" errs ui st']
    stored_simps(2) [of cfg env s query active "q_limit a" errs ui st']
    dispatch_response [of cfg env s query active "q_limit a" errs ui st' r]
  by (simp add: sends_def clear_pending_def)

lemma clarify_returns:
  assumes call: "clarify_and_dispatch cfg env v a query s aliased st = (Inr r, st')"
    and sid: "ss_session_id s = q_session_id a"
  obtains (asks) s' where "asks (q_session_id a) st r st'" and "stored st' (q_session_id a) = Some s'"
      and "ss_clarification_rounds s' = ss_clarification_rounds s + 1"
      and "ss_clarification_rounds s < s_max_rounds cfg"
  | (sends) active where "sends a st r st' query active"
      and "e_elicit env = None \<Longrightarrow> \<not> warned (qr_errors r) \<Longrightarrow> fst ` set active = set (detect v query)"
proof (cases rule: clarify_cases [of cfg env v a query s aliased st])
  case (dispatched s' active errs st1)
  have d: "dispatch cfg env s' query active (q_limit a) errs (q_show_in_ui a) st1 = (Inr r, st')"
    using dispatched(1) call by simp
  have "set errs \<subseteq> set (qr_errors r)" using dispatch_response [of cfg env s' query active "q_limit a" errs "q_show_in_ui a" st1 r] d
    by simp
  then have "warned errs \<Longrightarrow> warned (qr_errors r)" by (auto simp: warned_def)
  note w = this
  have "ss_session_id s' = q_session_id a" using dispatched(2) sid by (simp add: follows_def)
  note sent = dispatch_sends [OF d grows_simps(2) [OF dispatched(3)] this]
  show thesis by (rule sends [OF sent]) (use dispatched(4) w in blast)
next
  case (asked un question st1)
  then have "r = question_response (q_session_id a) question"
    "st' = store_session env (awaiting query un question s) st1" using call by auto
  moreover have "ss_session_id (awaiting query un question s) = q_session_id a"
    using sid by (simp add: awaiting_def)
  ultimately show thesis
    using grows_simps(2) [OF asked(2)] stored_simps(1) [of env "awaiting query un question s" st1] asked(4)
    by (intro asks) (auto simp: asks_def awaiting_def)
next
  case (raised e s' st1)
  then show thesis using call by (simp add: raise_with_def)
qed

text \<open>C1: a call that returns either asks or sends, never both and never neither. If it
  asks, nothing was sent to the backend, and the question returned is the one stored with the
  session, which awaits the answer. If it sends, exactly one query goes to the backend, with the
  caller's limit and the hints of the conventions reported as applied, and the stored session is
  DISPATCHED with its pending question cleared and its round counter reset.\<close>

theorem asks_or_sends:
  assumes ok: "orch_ok cfg st" and call: "handle_query cfg env v a st = (Inr r, st')"
  shows "asks (q_session_id a) st r st' \<noteq> (\<exists>query active. sends a st r st' query active)"
proof -
  have q0: "queries (looked_up env a st) = queries st" by simp
  have excl: "asks (q_session_id a) st r st' \<Longrightarrow> \<not> sends a st r st' query active" for query active
    by (simp add: asks_def sends_def)
  have "asks (q_session_id a) st r st' \<or> (\<exists>query active. sends a st r st' query active)"
  proof (cases rule: handle_query_cases [of cfg env v a st])
    case (clarified s0 s query aliased st1)
    have q: "queries st1 = queries st" using grows_simps(2) [OF clarified(4)] by simp
    have "ss_session_id s = q_session_id a"
      using starts_with_ok(1) [OF ok clarified(2)] clarified(3) by (simp add: follows_def)
    note sid = this
    have "clarify_and_dispatch cfg env v a query s aliased st1 = (Inr r, st')"
      using clarified(1) call by simp
    then show ?thesis using sid
      by (cases rule: clarify_returns [of cfg env v a query s aliased st1 r st'])
        (auto simp: asks_def sends_def q)
  next
    case (reissued s question)
    then have "ss_session_id s = q_session_id a"
      using starts_with_ok(1) [OF ok, of env a True s] by (simp add: starts_with_def)
    then show ?thesis
      using reissued call stored_simps(1) [of env s "looked_up env a st"] by (auto simp: asks_def)
  next
    case (raised e s0 s' st1)
    then show ?thesis using call by (simp add: raise_with_def)
  qed
  then show ?thesis using excl by blast
qed

theorem asks_or_sends_witness:
  "asks ''s'' sample_start (question_response ''s'' ''Which one?'') sample_asked \<noteq>
     (\<exists>query active. sends (sample_query ''open risks'' None) sample_start
        (question_response ''s'' ''Which one?'') sample_asked query active)"
proof -
  have "fst (handle_query sample_settings (sample_env None []) sample_vocab
      (sample_query ''open risks'' None) sample_start) = Inr (question_response ''s'' ''Which one?'')"
    by code_simp
  then have "handle_query sample_settings (sample_env None []) sample_vocab
      (sample_query ''open risks'' None) sample_start =
      (Inr (question_response ''s'' ''Which one?''), sample_asked)"
    by (simp add: sample_asked_def prod_eq_iff)
  from asks_or_sends [OF sample_start_ok this] show ?thesis by (simp add: sample_query_def)
qed



text \<open>A call raises only what one of its collaborators raised and the code does not catch,
  or, on a host with elicitation, a \<open>StateTransitionError\<close>: no error is made up by the
  orchestrator on a host without elicitation.\<close>

theorem raised_by_collaborators:
  assumes "fst (handle_query cfg env v a st) = Inl e"
  shows "escapes env e \<or> e_elicit env \<noteq> None \<and> (\<exists>m. e = StateTransitionError m)"
  using assms by (rule handle_query_raises)

text \<open>A host with elicitation, a session that awaits an answer: the answer leaves one term open,
  the second question is answered at once, and the second \<open>RESOLVED\<close> transition is refused.\<close>

definition sample_host :: env where
  "sample_host = sample_env (Some (\<lambda>_ _. Some ''labels'')) [''open'']"

theorem raised_by_collaborators_witness:
  "\<exists>e. fst (handle_query sample_settings sample_host sample_vocab
        (sample_query ''x'' (Some ''status'')) sample_asked) = Inl e \<and>
     (escapes sample_host e \<or> e_elicit sample_host \<noteq> None \<and> (\<exists>m. e = StateTransitionError m))"
proof -
  have "fst (handle_query sample_settings sample_host sample_vocab
        (sample_query ''x'' (Some ''status'')) sample_asked) =
      Inl (StateTransitionError ''session s: illegal transition resolved -> resolved'')"
    by code_simp
  from raised_by_collaborators [OF this] this show ?thesis by blast
qed

text \<open>The state machine rejects an answer the user gave: a session awaits the answer about two
  terms, the answer resolves one of them, and the host answers the question about the other by
  elicitation. The call raises \<open>StateTransitionError\<close> (RESOLVED to RESOLVED), nothing is sent, and
  the stored session is left RESOLVED with both answers learned.\<close>

theorem elicited_answer_after_partial_answer_raises:
  "(let out = handle_query sample_settings (sample_env (Some (\<lambda>_ _. Some ''labels'')) [''open''])
         sample_vocab (sample_query ''x'' (Some ''status'')) sample_asked
    in fst out = Inl (StateTransitionError ''session s: illegal transition resolved -> resolved'') \<and>
       queries (snd out) = [] \<and> map_option ss_state (stored (snd out) ''s'') = Some RESOLVED)"
  by code_simp

text \<open>\<open>degrade rather than fail\<close>: on a host without elicitation a call returns a response
  whatever the collaborators do, as long as the fields load and the conventions are written, the
  clarifier does not fail on an answer and raises \<open>ClarificationError\<close> only on a question, the
  backend client raises \<open>LiteBackendError\<close> only, and delivery raises an \<open>OSError\<close> or one of the
  program's own errors only.\<close>

theorem handle_query_returns:
  assumes "e_elicit env = None" "\<And>e. e_load_fields env \<noteq> Inl e" "\<And>cs. e_conv_io env cs = IO_ok"
    and "\<And>cs q ts w d e. e_resolve env cs q ts w d \<noteq> Inl e"
    and "\<And>cs q ts d l k e. e_formulate env cs q ts d l k = Inl e \<Longrightarrow> is_ClarificationError e"
    and "\<And>cs q l e. e_query env cs q l = Inl e \<Longrightarrow> is_LiteBackendError e"
    and "\<And>cs i c e. e_deliver env cs i c = Inl e \<Longrightarrow> is_OSError e \<or> is_NetraError e"
  shows "\<exists>r. fst (handle_query cfg env v a st) = Inr r"
proof (rule ccontr)
  assume "\<not> (\<exists>r. fst (handle_query cfg env v a st) = Inr r)"
  then obtain e where e: "fst (handle_query cfg env v a st) = Inl e"
    by (cases "fst (handle_query cfg env v a st)") auto
  have "\<not> escapes env e" unfolding escapes_def using assms(2-) by metis
  moreover have "escapes env e" using handle_query_raises [OF e] assms(1) by simp
  ultimately show False by contradiction
qed

theorem handle_query_returns_witness:
  "\<exists>r. fst (handle_query sample_settings
       ((sample_env None [])\<lparr>e_query := \<lambda>_ _ _. Inl (LiteBackendError ''backend unreachable after retries'')\<rparr>)
       sample_vocab (sample_query ''open risks'' None) sample_start) = Inr r"
  by (rule handle_query_returns) (auto simp: sample_env_def)

text \<open>A question is asked only while the session has rounds left, and a session stored with
  a new question has used one more: at most \<open>max_rounds\<close> questions follow each other before a
  query of the session is dispatched or abandoned.\<close>

theorem rounds_are_bounded:
  assumes ok: "orch_ok cfg st" and call: "handle_query cfg env v a st = (Inr r, st')"
    and asked: "queries st' = queries st"
  shows "\<exists>s. stored st' (q_session_id a) = Some s \<and> ss_clarification_rounds s \<le> s_max_rounds cfg \<and>
     (case current env a st of
        None \<Rightarrow> ss_clarification_rounds s = 1
      | Some s0 \<Rightarrow>
          if ss_state s0 = AWAITING_CLARIFICATION \<and> \<not> given (q_clarification_answer a)
          then s = s0 \<or> ss_clarification_rounds s = 1
          else ss_clarification_rounds s = ss_clarification_rounds s0 + 1)"
proof (cases rule: handle_query_cases [of cfg env v a st])
  case (clarified s0 s query aliased st1)
  have q: "queries st1 = queries st" using grows_simps(2) [OF clarified(4)] by simp
  have sid: "ss_session_id s = q_session_id a"
    using starts_with_ok(1) [OF ok clarified(2)] clarified(3) by (simp add: follows_def)
  have c: "clarify_and_dispatch cfg env v a query s aliased st1 = (Inr r, st')"
    using clarified(1) call by simp
  show ?thesis
    using c sid
  proof (cases rule: clarify_returns [of cfg env v a query s aliased st1 r st'])
    case (asks s')
    then have "ss_clarification_rounds s' \<le> s_max_rounds cfg" by simp
    then show ?thesis
      using asks(2,3) clarified(2,5,6) by (auto simp: starts_with_def split: option.splits if_splits)
  next
    case (sends active)
    then show ?thesis using asked q by (simp add: sends_def)
  qed
next
  case (reissued s question)
  note s = starts_with_ok(1,2) [OF ok, of env a True s]
  have "stored st' (q_session_id a) = Some s"
    using reissued(1,2) call s stored_simps(1) [of env s "looked_up env a st"]
    by (simp add: starts_with_def)
  moreover have "ss_clarification_rounds s \<le> s_max_rounds cfg"
    using s(2) reissued(2,3) by (auto simp: starts_with_def session_ok_def max_def split: if_splits)
  ultimately show ?thesis using reissued by simp
next
  case (raised e s0 s' st1)
  then show ?thesis using call by (simp add: raise_with_def)
qed

theorem rounds_are_bounded_witness:
  "\<exists>s. stored sample_asked ''s'' = Some s \<and> ss_clarification_rounds s \<le> 2 \<and> ss_clarification_rounds s = 1"
proof -
  have "fst (handle_query sample_settings (sample_env None []) sample_vocab
      (sample_query ''open risks'' None) sample_start) = Inr (question_response ''s'' ''Which one?'')"
    by code_simp
  then have h: "handle_query sample_settings (sample_env None []) sample_vocab
      (sample_query ''open risks'' None) sample_start =
      (Inr (question_response ''s'' ''Which one?''), sample_asked)"
    by (simp add: sample_asked_def prod_eq_iff)
  have "queries sample_asked = queries sample_start" by code_simp
  from rounds_are_bounded [OF sample_start_ok h this] show ?thesis
    by (simp add: sample_query_def sample_settings_def current_def sample_start_def fresh_orch_def)
qed

end
