(* ===== verification/Briefing_Laws.thy ===== *)
theory Briefing_Laws
  imports Briefing Orchestrator_Laws
begin

text \<open>
  What the briefing pipeline promises for any query handler: the pending state is resumable,
  a finished briefing has one section for each topic, completed topics are not queried again,
  the cap on analysed issues is accounted for, and a written report is read back. Then the
  pipeline together with the query orchestrator, on a topic without results.
\<close>

subsection \<open>The topics\<close>

definition ids :: "AgendaTopic list \<Rightarrow> string set" where
  "ids topics = at_topic_id ` set topics"

definition answered :: "(string \<times> QueryResponse) list \<Rightarrow> bool" where
  "answered completed \<longleftrightarrow> dict_ok completed \<and> (\<forall>r \<in> snd ` set completed. \<not> qr_requires_user_input r)"

lemma answered_update:
  "answered c \<Longrightarrow> \<not> qr_requires_user_input r \<Longrightarrow> answered (AList.update k r c)"
  unfolding answered_def using set_snd_update by fastforce

lemma dispatch_asks:
  assumes "dispatch_topics hq cfg sid ans i topics completed errors h = (TopicsAsk j topic c r, h')"
    and "answered completed"
  shows "i \<le> j \<and> j < i + length topics \<and> topic = topics ! (j - i) \<and> qr_requires_user_input r \<and>
     answered c \<and> fst ` set c = fst ` set completed \<union> ids (take (j - i) topics)"
  using assms
proof (induction hq cfg sid ans i topics completed errors h rule: dispatch_topics.induct)
  case (2 hq cfg sid ans i t topics completed errors h)
  obtain out h1 where hq: "hq (topic_query cfg sid t ans) h = (out, h1)" by fastforce
  show ?case
  proof (cases out)
    case (Inl e)
    then show ?thesis using 2(2) hq by simp
  next
    case (Inr res)
    show ?thesis
    proof (cases "qr_requires_user_input res")
      case True
      then show ?thesis using 2(2,3) hq Inr by (auto simp: ids_def)
    next
      case False
      then have rest: "dispatch_topics hq cfg sid None (Suc i) topics (AList.update (at_topic_id t) res completed)
          (errors @ topic_errors t res) h1 = (TopicsAsk j topic c r, h')"
        using 2(2) hq Inr by simp
      have "answered (AList.update (at_topic_id t) res completed)" using 2(3) False by (rule answered_update)
      from "2.IH" [OF hq [symmetric] Inr False rest this]
      have IH: "Suc i \<le> j" "j < Suc i + length topics" "topic = topics ! (j - Suc i)"
        "qr_requires_user_input r" "answered c"
        "fst ` set c = fst ` set (AList.update (at_topic_id t) res completed) \<union> ids (take (j - Suc i) topics)"
        by blast+
      obtain k where k: "j = Suc (i + k)" using IH(1) by (metis add_Suc le_iff_add)
      then have "j - i = Suc k" "j - Suc i = k" by simp_all
      then show ?thesis using IH by (simp add: keys_update ids_def)
    qed
  qed
qed simp

lemma dispatch_done:
  assumes "dispatch_topics hq cfg sid ans i topics completed errors h = (TopicsDone c es, h')"
    and "answered completed"
  shows "answered c \<and> fst ` set c = fst ` set completed \<union> ids topics"
  using assms
proof (induction hq cfg sid ans i topics completed errors h rule: dispatch_topics.induct)
  case (2 hq cfg sid ans i t topics completed errors h)
  obtain out h1 where hq: "hq (topic_query cfg sid t ans) h = (out, h1)" by fastforce
  obtain res where Inr: "out = Inr res" and False: "\<not> qr_requires_user_input res"
    and rest: "dispatch_topics hq cfg sid None (Suc i) topics (AList.update (at_topic_id t) res completed)
          (errors @ topic_errors t res) h1 = (TopicsDone c es, h')"
    using 2(2) hq by (auto split: sum.splits if_splits)
  have "answered (AList.update (at_topic_id t) res completed)" using 2(3) False by (rule answered_update)
  from "2.IH" [OF hq [symmetric] Inr False rest this]
  show ?case by (auto simp: keys_update ids_def)
qed (simp add: ids_def)

subsection \<open>The pending state\<close>

definition pending_ok :: "BriefingPendingState \<Rightarrow> bool" where
  "pending_ok p \<longleftrightarrow> bp_current_topic_idx p < length (bp_topics p) \<and> answered (bp_completed_results p) \<and>
     fst ` set (bp_completed_results p) = ids (take (bp_current_topic_idx p) (bp_topics p))"

definition briefings_ok :: "BriefingPendingState ttl_store \<Rightarrow> bool" where
  "briefings_ok st \<longleftrightarrow> (\<forall>(sid, t, p) \<in> set (st_entries st). bp_session_id p = sid \<and> pending_ok p)"

lemma briefings_ok_set:
  "briefings_ok st \<Longrightarrow> pending_ok p \<Longrightarrow> briefings_ok (briefing_set st now p)"
  using set_update_subset [of "bp_session_id p" "(now + st_ttl st, p)" "st_entries st"]
  by (auto simp: briefings_ok_def briefing_set_def ttl_set_def)

lemma briefings_ok_delete: "briefings_ok st \<Longrightarrow> briefings_ok (briefing_delete st sid)"
  using set_delete_subset [of sid "st_entries st"]
  by (auto simp: briefings_ok_def briefing_delete_def ttl_delete_def)

lemma briefings_ok_get:
  assumes "briefings_ok st"
  shows "briefings_ok (snd (briefing_get st now sid))"
    and "fst (briefing_get st now sid) = Some p \<Longrightarrow> bp_session_id p = sid \<and> pending_ok p"
  using assms set_delete_subset [of sid "st_entries st"]
  by (auto simp: briefings_ok_def briefing_get_def ttl_get_def split: option.splits prod.splits if_splits
      dest!: map_of_SomeD)

lemma run_briefing_cases:
  assumes p: "pending_ok p"
  obtains (raised) e h' where "run_briefing hq cfg env a p store h = (Inl e, store, h')"
  | (asks) j topic c r h' where
      "run_briefing hq cfg env a p store h =
         (Inr (pending_response (bg_session_id a) topic r),
          briefing_set store (be_clock_later env)
            (p\<lparr>bp_current_topic_idx := j, bp_completed_results := c\<rparr>), h')"
      and "pending_ok (p\<lparr>bp_current_topic_idx := j, bp_completed_results := c\<rparr>)"
      and "topic = bp_topics p ! j" and "bp_current_topic_idx p \<le> j"
  | (finished) c es h' where
      "run_briefing hq cfg env a p store h =
         (finish_briefing cfg env a p c es, briefing_delete store (bg_session_id a), h')"
      and "answered c" and "fst ` set c = ids (bp_topics p)"
proof -
  let ?i = "bp_current_topic_idx p"
  let ?d = "dispatch_topics hq cfg (bg_session_id a) (bg_clarification_answer a) ?i (drop ?i (bp_topics p))
                (bp_completed_results p) [] h"
  have i: "?i < length (bp_topics p)" and ans: "answered (bp_completed_results p)"
    and c0: "fst ` set (bp_completed_results p) = ids (take ?i (bp_topics p))"
    using p by (auto simp: pending_ok_def)
  have split: "ids (take ?i (bp_topics p)) \<union> ids (take k (drop ?i (bp_topics p))) = ids (take (?i + k) (bp_topics p))" for k
    by (simp add: ids_def take_add image_Un)
  show thesis
  proof (cases ?d)
    case (Pair out h')
    show thesis
    proof (cases out)
      case (TopicsRaised e)
      then show thesis using Pair by (intro raised) (simp add: run_briefing_def)
    next
      case (TopicsAsk j topic c r)
      from dispatch_asks [OF Pair [unfolded TopicsAsk] ans]
      have j: "?i \<le> j" "j < ?i + length (drop ?i (bp_topics p))" "topic = drop ?i (bp_topics p) ! (j - ?i)"
        "answered c" "fst ` set c = fst ` set (bp_completed_results p) \<union> ids (take (j - ?i) (drop ?i (bp_topics p)))"
        by blast+
      have "fst ` set c = ids (take j (bp_topics p))" using j(1,5) split [of "j - ?i"] c0 by simp
      then have pend: "pending_ok (p\<lparr>bp_current_topic_idx := j, bp_completed_results := c\<rparr>)"
        using j i by (simp add: pending_ok_def)
      have eq: "run_briefing hq cfg env a p store h = (Inr (pending_response (bg_session_id a) topic r),
          briefing_set store (be_clock_later env) (p\<lparr>bp_current_topic_idx := j, bp_completed_results := c\<rparr>), h')"
        using Pair TopicsAsk by (simp add: run_briefing_def)
      have "topic = bp_topics p ! j" using j i by simp
      then show thesis using j(1) by (rule asks [OF eq pend])
    next
      case (TopicsDone c es)
      from dispatch_done [OF Pair [unfolded TopicsDone] ans]
      have c: "answered c" "fst ` set c = ids (bp_topics p)"
        using split [of "length (bp_topics p)"] c0 by (simp_all add: ids_def) 
      have "run_briefing hq cfg env a p store h =
          (finish_briefing cfg env a p c es, briefing_delete store (bg_session_id a), h')"
        using Pair TopicsDone by (simp add: run_briefing_def)
      then show thesis using c by (rule finished)
    qed
  qed
qed

lemma run_briefing_store:
  "briefings_ok store \<Longrightarrow> pending_ok p \<Longrightarrow> briefings_ok (fst (snd (run_briefing hq cfg env a p store h)))"
  by (erule run_briefing_cases [of p hq cfg env a store h])
    (simp_all add: briefings_ok_set briefings_ok_delete)

text \<open>The state a call runs on: the stored one, or a new one over the topics of the agenda.\<close>

definition new_pending :: "bargs \<Rightarrow> AgendaTopic list \<Rightarrow> BriefingPendingState" where
  "new_pending a topics = \<lparr>bp_session_id = bg_session_id a, bp_agenda_text = bg_agenda_text a,
     bp_topics = topics, bp_current_topic_idx = 0, bp_completed_results = []\<rparr>"

lemma new_pending_ok: "topics \<noteq> [] \<Longrightarrow> pending_ok (new_pending a topics)"
  by (simp add: pending_ok_def new_pending_def answered_def ids_def)

definition runs_on :: "benv \<Rightarrow> bargs \<Rightarrow> BriefingPendingState ttl_store \<Rightarrow> BriefingPendingState \<Rightarrow> bool" where
  "runs_on env a store p \<longleftrightarrow>
     (case live store (be_clock env) (bg_session_id a) of
        Some q \<Rightarrow> p = q
      | None \<Rightarrow> (\<exists>topics. be_decompose env (bg_agenda_text a) (bg_projects a) = Inr topics \<and> topics \<noteq> [] \<and>
                  p = new_pending a topics))"

definition looked :: "benv \<Rightarrow> bargs \<Rightarrow> BriefingPendingState ttl_store \<Rightarrow> BriefingPendingState ttl_store" where
  "looked env a store = snd (briefing_get store (be_clock env) (bg_session_id a))"

lemma generate_cases:
  obtains (runs) p where "runs_on env a store p"
      and "generate_briefing hq cfg env a store h = run_briefing hq cfg env a p (looked env a store) h"
  | (nothing) r where "generate_briefing hq cfg env a store h = (Inr r, looked env a store, h)"
      and "br_sections r = []" and "\<not> br_requires_user_input r" and "\<exists>e. br_errors r = [e]"
      and "br_report_path r = None"
  | (raised) e where "generate_briefing hq cfg env a store h = (Inl e, looked env a store, h)"
proof -
  have get: "fst (briefing_get store (be_clock env) (bg_session_id a)) = live store (be_clock env) (bg_session_id a)"
    by (simp add: briefing_get_def)
  note g = generate_briefing_def [of hq cfg env a store h, unfolded Let_def get, folded looked_def]
  show thesis
  proof (cases "live store (be_clock env) (bg_session_id a)")
    case (Some p)
    then show thesis by (intro runs [of p]) (simp_all add: runs_on_def g)
  next
    case None
    show thesis
    proof (cases "be_decompose env (bg_agenda_text a) (bg_projects a)")
      case (Inl e)
      show thesis
      proof (cases "is_DecompositionError e")
        case True
        have "generate_briefing hq cfg env a store h = (Inr (failed_response (bg_session_id a) e), looked env a store, h)"
          using None Inl True by (simp add: g)
        then show thesis by (rule nothing) (simp_all add: failed_response_def briefing_response_def)
      next
        case False
        then have "generate_briefing hq cfg env a store h = (Inl e, looked env a store, h)"
          using None Inl by (simp add: g)
        then show thesis by (rule raised)
      qed
    next
      case (Inr topics)
      show thesis
      proof (cases "topics = []")
        case True
        then have "generate_briefing hq cfg env a store h = (Inr (empty_response (bg_session_id a)), looked env a store, h)"
          using None Inr by (simp add: g)
        then show thesis by (rule nothing) (simp_all add: empty_response_def briefing_response_def)
      next
        case False
        then have "generate_briefing hq cfg env a store h =
            run_briefing hq cfg env a (new_pending a topics) (looked env a store) h"
          using None Inr by (simp add: g new_pending_def)
        moreover have "runs_on env a store (new_pending a topics)" using None Inr False by (simp add: runs_on_def)
        ultimately show thesis by (intro runs)
      qed
    qed
  qed
qed

lemma runs_on_ok: "briefings_ok store \<Longrightarrow> runs_on env a store p \<Longrightarrow> pending_ok p \<and> bp_session_id p = bg_session_id a"
  using briefings_ok_get(2) [of store "be_clock env" "bg_session_id a" p]
  by (auto simp: runs_on_def briefing_get_def new_pending_ok split: option.splits) (simp add: new_pending_def)

lemma looked_ok: "briefings_ok store \<Longrightarrow> briefings_ok (looked env a store)"
  by (simp add: looked_def briefings_ok_get(1))

lemma generate_store:
  assumes "briefings_ok store"
  shows "briefings_ok (fst (snd (generate_briefing hq cfg env a store h)))"
proof (cases rule: generate_cases [of env a store hq cfg h])
  case (runs p)
  then show ?thesis
    using run_briefing_store [OF looked_ok [OF assms], of p] runs_on_ok [OF assms runs(1)] by simp
qed (use looked_ok [OF assms] in simp_all)

subsection \<open>The sections\<close>

lemma build_section_simps [simp]:
  "bs_topic_id (build_section cfg today completed tks dropped amap t) = at_topic_id t"
  "bs_description (build_section cfg today completed tks dropped amap t) = at_description t"
  by (simp_all add: build_section_def Let_def)

lemma build_section_top:
  assumes "0 \<le> b_top_n cfg"
  shows "int (length (bs_top_issues (build_section cfg today completed tks dropped amap t))) \<le> b_top_n cfg"
  using assms by (simp add: build_section_def Let_def rank_def length_py_take_le)

lemma build_sections_shape:
  assumes "build_sections cfg env topics completed errors refs force = Inr (sections, errors')"
  shows "map bs_topic_id sections = map at_topic_id topics"
    and "0 \<le> b_top_n cfg \<Longrightarrow> list_all (\<lambda>s. int (length (bs_top_issues s)) \<le> b_top_n cfg) sections"
  using assms by (auto simp: build_sections_def Let_def list_all_iff comp_def build_section_top
      split: sum.splits prod.splits)

lemma finish_shape:
  assumes "finish_briefing cfg env a p completed errors = Inr r"
  shows "map bs_topic_id (br_sections r) = map at_topic_id (bp_topics p)"
    and "0 \<le> b_top_n cfg \<Longrightarrow> list_all (\<lambda>s. int (length (bs_top_issues s)) \<le> b_top_n cfg) (br_sections r)"
    and "\<not> br_requires_user_input r"
    and "br_report_id r = make_report_id (be_stamp env) (be_hex env) (bg_session_id a)"
    and "br_view_url r = briefing_view_url cfg (br_report_id r)"
  using assms build_sections_shape
  by (fastforce simp: finish_briefing_def Let_def briefing_response_def split: sum.splits prod.splits)+

subsection \<open>The cap on analysed issues\<close>

lemma kept_prefix: "\<exists>k. kept_keys cfg keys = take k keys"
  using py_take_is_take [of "b_max_analysed_issues cfg" keys]
  by (auto simp: kept_keys_def intro: exI [of _ "length keys"])

lemma kept_length:
  "0 \<le> b_max_analysed_issues cfg \<Longrightarrow> int (length (kept_keys cfg keys)) \<le> b_max_analysed_issues cfg"
  by (simp add: kept_keys_def length_py_take_le)

lemma all_issue_keys_distinct: "distinct (all_issue_keys topics completed)"
  by (simp add: all_issue_keys_def)

lemma topic_keys_in_all:
  assumes "(t, ks) \<in> set (topic_keys topics completed)"
  shows "set ks \<subseteq> set (all_issue_keys topics completed)"
proof -
  have "set (dict_of ps) \<subseteq> set ps" for ps :: "(string \<times> string list) list"
  proof -
    have "set (foldl (\<lambda>d (k, v). AList.update k v d) d ps) \<subseteq> set d \<union> set ps" for d
      using set_update_subset by (induction ps arbitrary: d) fastforce+
    from this [of "[]"] show ?thesis by (simp add: dict_of_def)
  qed
  with assms show ?thesis by (fastforce simp: topic_keys_def all_issue_keys_def)
qed

definition dropped_of :: "(string \<times> nat) list \<Rightarrow> string \<Rightarrow> nat" where
  "dropped_of dropped t = (case map_of dropped t of None \<Rightarrow> 0 | Some n \<Rightarrow> n)"

lemma dropped_of_topic:
  assumes "dict_ok tks" "(t, ks) \<in> set tks"
  shows "dropped_of (dropped_per_topic kept tks) t = length (filter (\<lambda>k. k \<notin> set kept) ks)"
proof -
  let ?d = "map (\<lambda>(t, ks). (t, length (filter (\<lambda>k. k \<notin> set kept) ks))) tks"
  have keys: "distinct (map fst ?d)" using assms(1) by (simp add: dict_ok_def comp_def case_prod_beta)
  have mem: "(t, length (filter (\<lambda>k. k \<notin> set kept) ks)) \<in> set ?d" using assms(2) by force
  have dist: "distinct (map fst (dropped_per_topic kept tks))"
    unfolding dropped_per_topic_def using keys by (rule distinct_map_filter)
  show ?thesis
  proof (cases "length (filter (\<lambda>k. k \<notin> set kept) ks) = 0")
    case True
    have "map_of (dropped_per_topic kept tks) t = None"
    proof (rule ccontr)
      assume "map_of (dropped_per_topic kept tks) t \<noteq> None"
      then obtain n where "(t, n) \<in> set (dropped_per_topic kept tks)" by (auto dest!: map_of_SomeD)
      then have "(t, n) \<in> set ?d" "n \<noteq> 0" by (simp_all add: dropped_per_topic_def)
      then show False using True mem keys by (metis map_of_is_SomeI option.inject)
    qed
    then show ?thesis using True by (simp add: dropped_of_def)
  next
    case False
    then have "(t, length (filter (\<lambda>k. k \<notin> set kept) ks)) \<in> set (dropped_per_topic kept tks)"
      using mem by (simp add: dropped_per_topic_def)
    then have "map_of (dropped_per_topic kept tks) t = Some (length (filter (\<lambda>k. k \<notin> set kept) ks))"
      using dist by (simp add: map_of_is_SomeI)
    then show ?thesis by (simp add: dropped_of_def)
  qed
qed

subsection \<open>Runs of calls\<close>

text \<open>A run of calls on one server, each with its own settings, collaborators and arguments.\<close>

fun briefing_runs :: "(qargs \<Rightarrow> 'h \<Rightarrow> (exn + QueryResponse) \<times> 'h) \<Rightarrow> (bsettings \<times> benv \<times> bargs) list \<Rightarrow>
    BriefingPendingState ttl_store \<Rightarrow> 'h \<Rightarrow> BriefingPendingState ttl_store \<times> 'h" where
  "briefing_runs hq [] store h = (store, h)"
| "briefing_runs hq ((cfg, env, a) # calls) store h =
     (case generate_briefing hq cfg env a store h of (_, store', h') \<Rightarrow> briefing_runs hq calls store' h')"

lemma briefing_runs_ok: "briefings_ok store \<Longrightarrow> briefings_ok (fst (briefing_runs hq calls store h))"
proof (induction hq calls store h rule: briefing_runs.induct)
  case (2 hq cfg env a calls store h)
  obtain r store' h' where g: "generate_briefing hq cfg env a store h = (r, store', h')" by (metis prod_cases3)
  have "briefings_ok store'" using generate_store [OF 2(2), of hq cfg env a h] g by simp
  with "2.IH" [OF g [symmetric]] g show ?case by simp
qed simp

lemma briefings_ok_new: "briefings_ok (ttl_new ttl)"
  by (simp add: briefings_ok_def ttl_new_def)

subsection \<open>Sample briefings\<close>

text \<open>Two topics; the query of the first asks until it gets an answer. The analysis finds one
  blocked issue for every key.\<close>

definition topic_1 :: AgendaTopic where
  "topic_1 = \<lparr>at_topic_id = ''t1'', at_description = ''Risks'', at_suggested_query = ''open risks'', at_projects = []\<rparr>"

definition topic_2 :: AgendaTopic where
  "topic_2 = \<lparr>at_topic_id = ''t2'', at_description = ''Delays'', at_suggested_query = ''late issues'', at_projects = []\<rparr>"

definition sample_asking :: QueryResponse where
  "sample_asking = (query_response ''s__topic_t1'')\<lparr>qr_requires_user_input := True,
     qr_clarification_question := Some ''Which one?''\<rparr>"

definition sample_found :: "string \<Rightarrow> string list \<Rightarrow> QueryResponse" where
  "sample_found sid keys = (query_response sid)\<lparr>qr_total := int (length keys),
     qr_issues := map (\<lambda>k. [(''key'', PStr k)]) keys\<rparr>"

definition sample_hq :: "qargs \<Rightarrow> nat \<Rightarrow> (exn + QueryResponse) \<times> nat" where
  "sample_hq q n =
     (if q_query q = ''late issues'' then (Inr (sample_found (q_session_id q) [''A-2'', ''A-3'']), Suc n)
      else if q_clarification_answer q = None then (Inr sample_asking, Suc n)
      else (Inr (sample_found (q_session_id q) [''A-1'', ''A-2'']), Suc n))"

definition sample_bcfg :: bsettings where
  "sample_bcfg = \<lparr>b_issues_per_topic = 20, b_top_n = 5, b_max_analysed_issues = 2,
     b_view_url_base = Some ''http://h/'', b_comments_limit = 5, b_delivery_enabled = True, b_rule = default_rule\<rparr>"

definition sample_benv :: benv where
  "sample_benv = \<lparr>be_decompose = (\<lambda>_ _. Inr [topic_1, topic_2]),
     be_details = (\<lambda>_ _. Inr \<lparr>dr_issues = [], dr_not_found = [], dr_error = None\<rparr>),
     be_analyse = (\<lambda>_ _ _ _ _. Inr []), be_research = None, be_deliver = (\<lambda>_ _. Inr ''r.md''),
     be_store_json = (\<lambda>_ _. Inr ()), be_clock = 0, be_clock_later = 10, be_today = 0, be_timestamp = ''now'',
     be_stamp = ''20260101_000000'', be_hex = ''0a1b2c3d''\<rparr>"

definition sample_bargs :: "string option \<Rightarrow> bargs" where
  "sample_bargs answer = \<lparr>bg_agenda_text = ''risks and delays'', bg_session_id = ''s'', bg_projects = None,
     bg_clarification_answer = answer, bg_force_refresh = False\<rparr>"

lemmas sample_defs = sample_hq_def sample_bcfg_def sample_benv_def sample_bargs_def topic_1_def topic_2_def
  sample_asking_def sample_found_def topic_query_def topic_session_id_def

definition sample_waiting :: "BriefingPendingState ttl_store" where
  "sample_waiting = briefing_set (ttl_new 60) 10 (new_pending (sample_bargs None) [topic_1, topic_2])"

lemma sample_first_call:
  "generate_briefing sample_hq sample_bcfg sample_benv (sample_bargs None) (ttl_new 60) 0 =
     (Inr (pending_response ''s'' topic_1 sample_asking), sample_waiting, 1)"
  by (simp add: Let_def generate_briefing_def run_briefing_def briefing_get_def ttl_get_def ttl_new_def
      sample_waiting_def new_pending_def sample_defs)

lemma sample_waiting_ok: "briefings_ok sample_waiting"
  unfolding sample_waiting_def by (intro briefings_ok_set briefings_ok_new new_pending_ok) simp

lemma sample_waiting_live:
  "live sample_waiting 0 ''s'' = Some (new_pending (sample_bargs None) [topic_1, topic_2])"
  by (simp add: sample_waiting_def briefing_set_def live_ttl_set ttl_new_def new_pending_def sample_bargs_def)

text \<open>The answer to the question of the first topic completes the briefing.\<close>

definition sample_final :: BriefingResponse where
  "sample_final = projr (fst (generate_briefing sample_hq sample_bcfg sample_benv (sample_bargs (Some ''all''))
     sample_waiting 1))"

lemma sample_second_call:
  "\<exists>store'. generate_briefing sample_hq sample_bcfg sample_benv (sample_bargs (Some ''all'')) sample_waiting 1 =
     (Inr sample_final, store', 3) \<and> br_report_path sample_final = Some ''r.md''"
proof -
  let ?g = "generate_briefing sample_hq sample_bcfg sample_benv (sample_bargs (Some ''all'')) sample_waiting 1"
  have "case ?g of (Inr r, _, n) \<Rightarrow> n = 3 \<and> br_report_path r = Some ''r.md'' | _ \<Rightarrow> False"
    by code_simp
  then show ?thesis by (auto simp: sample_final_def split: prod.splits sum.splits)
qed

subsection \<open>Properties\<close>






lemma sections_read_back:
  assumes "json_text_ok co dumps loads" "coercions_ok co"
  shows "read_sections co loads (dumps (briefing_json co rid sections)) = Inr sections"
proof -
  have "json_ok co (briefing_json co rid sections)"
    using section_writable [OF assms(2)] by (simp add: briefing_json_def list_all_iff)
  then have "loads (dumps (briefing_json co rid sections)) = Inr (briefing_json co rid sections)"
    using assms(1) by (simp add: json_text_ok_def)
  then show ?thesis by (simp add: read_sections_def briefing_json_def traverse_map section_codec [OF assms(2)])
qed



lemma dispatch_cong:
  assumes "\<And>t ans h. t \<in> set topics \<Longrightarrow> hq (topic_query cfg sid t ans) h = hq' (topic_query cfg sid t ans) h"
  shows "dispatch_topics hq cfg sid ans i topics completed errors h =
     dispatch_topics hq' cfg sid ans i topics completed errors h"
  using assms
proof (induction topics arbitrary: ans i completed errors h)
  case (Cons t topics)
  have "hq (topic_query cfg sid t ans) h = hq' (topic_query cfg sid t ans) h" using Cons.prems by simp
  then show ?case using Cons by (auto split: prod.split sum.split)
qed simp

text \<open>Topics answered in an earlier call are not queried again: the outcome of a continuation
  depends on the query handler only at the topics from the pending one on, so a handler that
  behaves differently on completed topics changes nothing.\<close>

theorem completed_topics_not_requeried:
  assumes pending: "live store (be_clock env) (bg_session_id a) = Some p"
    and same: "\<And>t ans h. t \<in> set (drop (bp_current_topic_idx p) (bp_topics p)) \<Longrightarrow>
        hq (topic_query cfg (bg_session_id a) t ans) h = hq' (topic_query cfg (bg_session_id a) t ans) h"
  shows "generate_briefing hq cfg env a store h = generate_briefing hq' cfg env a store h"
proof -
  have "dispatch_topics hq cfg (bg_session_id a) ans i (drop (bp_current_topic_idx p) (bp_topics p)) c es h =
      dispatch_topics hq' cfg (bg_session_id a) ans i (drop (bp_current_topic_idx p) (bp_topics p)) c es h" for ans i c es
    using same by (rule dispatch_cong)
  then have "run_briefing hq cfg env a p st h = run_briefing hq' cfg env a p st h" for st
    by (simp add: run_briefing_def Let_def)
  then show ?thesis using pending by (simp add: generate_briefing_def Let_def briefing_get_def)
qed

theorem completed_topics_not_requeried_witness:
  "(let p = (new_pending (sample_bargs None) [topic_1, topic_2])\<lparr>bp_current_topic_idx := 1,
          bp_completed_results := [(''t1'', sample_found [] [''A-1''])]\<rparr>;
        failing = (\<lambda>q n. if q_query q = ''open risks'' then (Inl (OtherError ''down''), n) else sample_hq q n)
    in generate_briefing failing sample_bcfg sample_benv (sample_bargs None) (briefing_set (ttl_new 60) 0 p) 0 =
       generate_briefing sample_hq sample_bcfg sample_benv (sample_bargs None) (briefing_set (ttl_new 60) 0 p) 0)"
  unfolding Let_def
  by (rule completed_topics_not_requeried
        [where p = "(new_pending (sample_bargs None) [topic_1, topic_2])\<lparr>bp_current_topic_idx := 1,
          bp_completed_results := [(''t1'', sample_found [] [''A-1''])]\<rparr>"])
    (simp_all add: briefing_set_def live_ttl_set ttl_new_def new_pending_def sample_bargs_def sample_benv_def
      topic_query_def topic_1_def topic_2_def)

subsection \<open>Sessions are separate\<close>

text \<open>
  A query handler whose state can be viewed by session, and which changes only the view of the
  session it is called for while its state is good.
\<close>

locale session_frame =
  fixes hq :: "qargs \<Rightarrow> 'h \<Rightarrow> (exn + QueryResponse) \<times> 'h"
    and good :: "'h \<Rightarrow> bool"
    and view :: "'h \<Rightarrow> string \<Rightarrow> 'e"
  assumes keeps_good: "good h \<Longrightarrow> good (snd (hq q h))"
    and keeps_others: "good h \<Longrightarrow> sid \<noteq> q_session_id q \<Longrightarrow> view (snd (hq q h)) sid = view h sid"
begin

lemma topics_frame:
  assumes other: "\<And>t. sid \<noteq> topic_session_id s t"
  shows "good h \<Longrightarrow> view (snd (dispatch_topics hq cfg s ans i topics completed errors h)) sid = view h sid"
proof (induction topics arbitrary: ans i completed errors h)
  case (Cons topic topics)
  let ?q = "topic_query cfg s topic ans"
  obtain r h' where r: "hq ?q h = (r, h')" by fastforce
  have "good h'" using keeps_good [OF Cons.prems, of ?q] r by simp
  moreover have "view h' sid = view h sid"
    using keeps_others [OF Cons.prems, of sid ?q] other [of topic] r by (simp add: topic_query_def)
  ultimately show ?case using Cons.IH r by (simp split: sum.split)
qed simp

lemma run_frame:
  assumes "\<And>t. sid \<noteq> topic_session_id (bg_session_id a) t" "good h"
  shows "view (snd (snd (run_briefing hq cfg env a p store h))) sid = view h sid"
  using topics_frame [OF assms, of cfg "bg_clarification_answer a" "bp_current_topic_idx p"
      "drop (bp_current_topic_idx p) (bp_topics p)" "bp_completed_results p" "[]"]
  by (auto simp: run_briefing_def Let_def split: topics_outcome.split prod.split)

lemma generate_frame:
  assumes "\<And>t. sid \<noteq> topic_session_id (bg_session_id a) t" "good h"
  shows "view (snd (snd (generate_briefing hq cfg env a store h))) sid = view h sid"
  by (cases rule: generate_cases [of env a store hq cfg h]) (simp_all add: run_frame [OF assms])

end

interpretation query_frame: session_frame "handle_query cfg env v" "orch_ok cfg" entry for cfg env v
  by unfold_locales (simp_all add: handle_query_preserves handle_query_other)

lemma briefing_store_frame:
  assumes "briefings_ok store" "k \<noteq> bg_session_id a"
  shows "map_of (st_entries (fst (snd (generate_briefing hq cfg env a store h)))) k = map_of (st_entries store) k"
proof -
  have looked: "map_of (st_entries (looked env a store)) k = map_of (st_entries store) k"
    using assms(2) by (simp add: looked_def briefing_get_def ttl_get_def delete_conv' split: option.split)
  show ?thesis
  proof (cases rule: generate_cases [of env a store hq cfg h])
    case (runs p)
    have "bp_session_id p = bg_session_id a" using runs_on_ok [OF assms(1) runs(1)] by simp
    then have "map_of (st_entries (fst (snd (run_briefing hq cfg env a p st h)))) k = map_of (st_entries st) k" for st
      using assms(2)
      by (auto simp: run_briefing_def Let_def briefing_set_def briefing_delete_def ttl_set_def ttl_delete_def
          update_conv' delete_conv' split: topics_outcome.split prod.split)
    then show ?thesis using runs(2) looked by simp
  qed (simp_all add: looked)
qed

text \<open>C23: sessions are separate. On every reachable state, calls for other sessions leave the stored
  state of a session and its time to live alone, whatever they do and however they end; and a
  briefing touches only its own pending state and the sessions of its own topics.\<close>

theorem sessions_isolated:
  fixes cfg v ttl convs calls
  defines "st \<equiv> orch_run cfg v (fresh_orch ttl convs) calls"
  assumes apart: "sid \<notin> q_session_id ` snd ` set others"
    and no_topic: "\<not> startswith sid (bg_session_id a @ ''__topic_'')" and ok: "briefings_ok store"
  shows "entry (orch_run cfg v st others) sid = entry st sid \<and>
     entry (snd (snd (generate_briefing (handle_query cfg env v) bcfg benv a store st))) sid = entry st sid \<and>
     (k \<noteq> bg_session_id a \<longrightarrow>
        map_of (st_entries (fst (snd (generate_briefing (handle_query cfg env v) bcfg benv a store st)))) k =
        map_of (st_entries store) k)"
proof -
  have good: "orch_ok cfg st" unfolding st_def by (rule orch_ok_run [OF orch_ok_fresh])
  have topic: "sid \<noteq> topic_session_id (bg_session_id a) t" for t
    using no_topic startswith_append [of "bg_session_id a @ ''__topic_''" "at_topic_id t"]
    by (auto simp: topic_session_id_def)
  show ?thesis
    by (intro conjI impI orch_run_other [OF good apart] query_frame.generate_frame [OF topic good]
        briefing_store_frame [OF ok])
qed

theorem sessions_isolated_witness:
  "entry (orch_run sample_settings sample_vocab sample_asked
     [(sample_env None [], (sample_query ''open risks'' None)\<lparr>q_session_id := ''t''\<rparr>)]) ''s'' = entry sample_asked ''s''"
proof -
  have run: "sample_asked = orch_run sample_settings sample_vocab (fresh_orch 60
      \<lparr>cs_path = ''c.json'', cs_items = [], cs_file = None, cs_tmp = None\<rparr>)
      [(sample_env None [], sample_query ''open risks'' None)]"
    by (simp add: sample_asked_def sample_start_def)
  show ?thesis unfolding run
    by (rule conjunct1 [OF sessions_isolated [of _ _ "sample_bargs None" "ttl_new 60"]])
      (simp_all add: startswith_def sample_bargs_def briefings_ok_def ttl_new_def)
qed

subsection \<open>A topic without results\<close>

text \<open>The query orchestrator with a vocabulary that has no terms, so that it never asks.\<close>

definition nobody_waits :: "orch \<Rightarrow> bool" where
  "nobody_waits st \<longleftrightarrow> (\<forall>(sid, t, s) \<in> set (st_entries (o_sessions st)). ss_state s \<noteq> AWAITING_CLARIFICATION)"

definition no_results :: "env \<Rightarrow> bool" where
  "no_results env \<longleftrightarrow> (\<forall>cs q l. case e_query env cs q l of Inl _ \<Rightarrow> False | Inr r \<Rightarrow> lq_total r = 0)"

lemma detect_Nil [simp]: "detect [] text = []"
  by (simp add: detect_filter vocab_terms_def)

lemma split_Nil [simp]: "split_resolved convs s [] = ([], [])"
  by (simp add: split_resolved_def)

lemma dispatch_empty:
  assumes "no_results env" "\<not> s_delivery_enabled cfg"
  shows "\<exists>r. fst (dispatch cfg env s query active limit errs ui st) = Inr r \<and> qr_requires_user_input r"
proof -
  let ?s2 = "clear_pending (s\<lparr>ss_state := DISPATCHED\<rparr>)"
  let ?st1 = "store_session env ?s2 st"
  have total: "case e_query env (o_calls ?st1) (enriched query active) limit of Inl _ \<Rightarrow> False | Inr r \<Rightarrow> lq_total r = 0"
    using assms(1) unfolding no_results_def by blast
  show ?thesis
  proof (cases "e_query env (o_calls ?st1) (enriched query active) limit")
    case (Inl e)
    then show ?thesis using total by simp
  next
    case (Inr res)
    then have "lq_total res = 0" using total by simp
    then show ?thesis using Inr assms(2) by (simp add: dispatch_def Let_def with_report_def zero_response_def)
  qed
qed

lemma nobody_waits_set:
  "nobody_waits st \<Longrightarrow> set (st_entries s') \<subseteq> insert (k, t, s) (set (st_entries (o_sessions st))) \<Longrightarrow>
     ss_state s \<noteq> AWAITING_CLARIFICATION \<Longrightarrow> o_sessions st' = s' \<Longrightarrow> nobody_waits st'"
  unfolding nobody_waits_def by auto

lemma query_without_results:
  assumes "no_results env" "\<not> s_delivery_enabled cfg" "nobody_waits st"
  shows "\<exists>r. fst (handle_query cfg env [] a st) = Inr r \<and> qr_requires_user_input r"
    and "nobody_waits (snd (handle_query cfg env [] a st))"
proof -
  have wait: "nobody_waits (looked_up env a st)"
    using assms(3) set_delete_subset [of "q_session_id a" "st_entries (o_sessions st)"]
    by (auto simp: nobody_waits_def looked_up_def session_get_def ttl_get_def split: option.splits prod.splits)
  have cd: "clarify_and_dispatch cfg env [] a q s al st' = dispatch cfg env s q [] (q_limit a) [] (q_show_in_ui a) st'"
    for q s al st'
    by (simp add: clarify_and_dispatch_def Let_def)
  have awake: "ss_state s \<noteq> AWAITING_CLARIFICATION" if "current env a st = Some s" for s
    using assms(3) that
    by (auto simp: nobody_waits_def current_def live_def split: option.splits prod.splits if_splits dest!: map_of_SomeD)
  obtain s query where h: "handle_query cfg env [] a st =
      dispatch cfg env s query [] (q_limit a) [] (q_show_in_ui a) (looked_up env a st)"
    using awake
    by (cases "current env a st")
      (auto simp: handle_query_def Let_def current_get cd simp flip: looked_up_def)
  show "\<exists>r. fst (handle_query cfg env [] a st) = Inr r \<and> qr_requires_user_input r"
    unfolding h using dispatch_empty [OF assms(1,2)] by blast
  show "nobody_waits (snd (handle_query cfg env [] a st))"
    unfolding h
    by (rule nobody_waits_set [OF wait _ _ dispatch_state(1)])
      (auto simp: session_set_def ttl_set_def clear_pending_def dest: set_update_subset [THEN subsetD])
qed

fun briefing_turns :: "(qargs \<Rightarrow> 'h \<Rightarrow> (exn + QueryResponse) \<times> 'h) \<Rightarrow> (bsettings \<times> benv \<times> bargs) list \<Rightarrow>
    BriefingPendingState ttl_store \<Rightarrow> 'h \<Rightarrow> (exn + BriefingResponse) list" where
  "briefing_turns hq [] store h = []"
| "briefing_turns hq ((cfg, env, a) # calls) store h =
     (case generate_briefing hq cfg env a store h of
        (r, store', h') \<Rightarrow> r # briefing_turns hq calls store' h')"

definition stuck_at :: "AgendaTopic \<Rightarrow> AgendaTopic list \<Rightarrow> BriefingPendingState ttl_store \<Rightarrow> bool" where
  "stuck_at t ts store \<longleftrightarrow>
     list_all (\<lambda>(sid, tm, p). bp_topics p = t # ts \<and> bp_current_topic_idx p = 0) (st_entries store)"

definition asks_for :: "AgendaTopic \<Rightarrow> exn + BriefingResponse \<Rightarrow> bool" where
  "asks_for t r = (case r of Inl e \<Rightarrow> False
     | Inr q \<Rightarrow> br_requires_user_input q \<and> br_pending_topic_id q = Some (at_topic_id t) \<and> br_sections q = [])"

lemma generate_without_results:
  assumes env: "no_results env" "\<not> s_delivery_enabled cfg" and wait: "nobody_waits st"
    and topics: "be_decompose benv (bg_agenda_text a) (bg_projects a) = Inr (t # ts)"
    and stuck: "stuck_at t ts store"
    and call: "generate_briefing (\<lambda>q st. handle_query cfg env [] q st) bcfg benv a store st = (r, store', st')"
  shows "asks_for t r \<and> stuck_at t ts store' \<and> nobody_waits st'"
proof -
  let ?hq = "\<lambda>q st. handle_query cfg env [] q st"
  have looked: "stuck_at t ts (looked benv a store)"
    using stuck set_delete_subset [of "bg_session_id a" "st_entries store"]
    by (auto simp: stuck_at_def looked_def briefing_get_def ttl_get_def list_all_iff
        split: option.splits prod.splits)
  obtain p where p: "bp_topics p = t # ts" "bp_current_topic_idx p = 0"
    and run: "generate_briefing ?hq bcfg benv a store st = run_briefing ?hq bcfg benv a p (looked benv a store) st"
  proof (cases "live store (be_clock benv) (bg_session_id a)")
    case None
    then have "generate_briefing ?hq bcfg benv a store st =
        run_briefing ?hq bcfg benv a (new_pending a (t # ts)) (looked benv a store) st"
      using topics by (simp add: generate_briefing_def Let_def briefing_get_def looked_def new_pending_def)
    then show ?thesis by (rule that [rotated 2]) (simp_all add: new_pending_def)
  next
    case (Some p)
    then have "bp_topics p = t # ts \<and> bp_current_topic_idx p = 0"
      using stuck by (auto simp: stuck_at_def live_def list_all_iff split: option.splits prod.splits if_splits
          dest!: map_of_SomeD)
    moreover have "generate_briefing ?hq bcfg benv a store st =
        run_briefing ?hq bcfg benv a p (looked benv a store) st"
      using Some by (simp add: generate_briefing_def Let_def briefing_get_def looked_def)
    ultimately show ?thesis by (blast intro: that)
  qed
  let ?q = "topic_query bcfg (bg_session_id a) t (bg_clarification_answer a)"
  obtain q where q: "fst (?hq ?q st) = Inr q" "qr_requires_user_input q"
    using query_without_results(1) [OF env wait] by blast
  obtain st1 where h: "?hq ?q st = (Inr q, st1)" using q(1) by (cases "?hq ?q st") simp
  have "nobody_waits st1" using query_without_results(2) [OF env wait, of ?q] h by simp
  moreover have "run_briefing ?hq bcfg benv a p (looked benv a store) st =
      (Inr (pending_response (bg_session_id a) t q),
       briefing_set (looked benv a store) (be_clock_later benv)
         (p\<lparr>bp_current_topic_idx := 0, bp_completed_results := bp_completed_results p\<rparr>), st1)"
    using p h q(2) by (simp add: run_briefing_def)
  moreover have "stuck_at t ts (briefing_set (looked benv a store) now p')"
    if "bp_topics p' = t # ts" "bp_current_topic_idx p' = 0" for p' now
    using looked that set_update_subset [of "bp_session_id p'" "(now + st_ttl (looked benv a store), p')"
        "st_entries (looked benv a store)"]
    by (auto simp: stuck_at_def briefing_set_def ttl_set_def list_all_iff)
  ultimately show ?thesis using call run p
    by (auto simp: asks_for_def pending_response_def briefing_response_def)
qed

text \<open>A topic whose query finds no issue blocks its briefing for good: the query orchestrator
  answers a zero-result query with a question, the briefing stops at the first topic that asks,
  and asking again or answering queries the same topic again. However often the tool is called
  for the agenda, with whatever answers, no section is ever produced.\<close>

theorem zero_result_topic_blocks_briefing:
  assumes "no_results env" "\<not> s_delivery_enabled cfg" "nobody_waits st"
    and "list_all (\<lambda>(bcfg, benv, a). be_decompose benv (bg_agenda_text a) (bg_projects a) = Inr (t # ts)) calls"
    and "stuck_at t ts store"
  shows "list_all (asks_for t) (briefing_turns (\<lambda>q st. handle_query cfg env [] q st) calls store st)"
  using assms(3-5)
proof (induction calls arbitrary: store st)
  case (Cons c calls)
  obtain bcfg benv a where c: "c = (bcfg, benv, a)" by (metis prod_cases3)
  obtain r store' st' where
    g: "generate_briefing (\<lambda>q st. handle_query cfg env [] q st) bcfg benv a store st = (r, store', st')"
    by (metis prod_cases3)
  have "asks_for t r \<and> stuck_at t ts store' \<and> nobody_waits st'"
    using Cons.prems c by (intro generate_without_results [OF assms(1,2) _ _ _ g]) simp_all
  then show ?case using Cons.IH [of st' store'] Cons.prems c g by simp
qed simp

theorem zero_result_topic_blocks_briefing_witness:
  "list_all (asks_for topic_1)
     (briefing_turns (\<lambda>q st. handle_query sample_settings
          ((sample_env None [])\<lparr>e_query := \<lambda>_ _ _. Inr (sample_result\<lparr>lq_total := 0\<rparr>)\<rparr>) [] q st)
        [(sample_bcfg, sample_benv, sample_bargs None), (sample_bcfg, sample_benv, sample_bargs (Some ''skip it''))]
        (ttl_new 60) sample_start)"
  by (rule zero_result_topic_blocks_briefing [where ts = "[topic_2]"])
    (simp_all add: no_results_def sample_settings_def nobody_waits_def sample_start_def fresh_orch_def
      ttl_new_def sample_benv_def stuck_at_def)

text \<open>A topic answered with an error before the briefing stops at another: the error is in its
  section, but the errors of the final response start afresh with the call that finishes it.\<close>

lemma errors_before_a_pause_are_dropped:
  "let failing = (\<lambda>q n. if q_query q = ''late issues''
         then (Inr ((sample_found (q_session_id q) [''A-2''])\<lparr>qr_errors := [''backend: down'']\<rparr>), Suc n) else sample_hq q n);
       env = sample_benv\<lparr>be_decompose := \<lambda>_ _. Inr [topic_2, topic_1]\<rparr>;
       (_, store, n) = generate_briefing failing sample_bcfg env (sample_bargs None) (ttl_new 60) 0
   in case fst (generate_briefing failing sample_bcfg env (sample_bargs (Some ''all'')) store n) of
        Inl _ \<Rightarrow> False
      | Inr r \<Rightarrow> br_errors r = [] \<and> map bs_errors (br_sections r) = [[''backend: down''], []]"
  by code_simp

end
