(* ===== verification/Valkey_Stores.thy ===== *)
theory Valkey_Stores
  imports Briefing_Laws
begin

text \<open>
  \<open>memory/valkey_stores.py\<close>: the session and briefing stores on a shared Valkey server. The
  client of the server is third-party code: a record of its three calls over a server state
  \<open>'c\<close>, each of which may raise. Times are milliseconds, so \<open>SETEX\<close> with \<open>n\<close> seconds lasts
  \<open>1000 * n\<close>. The JSON text of a state (\<open>model_dump_json\<close>, \<open>model_validate_json\<close>) is a
  pair of an encoder and a decoder.
\<close>

record 'c valkey =
  vk_get :: "'c \<Rightarrow> int \<Rightarrow> string \<Rightarrow> exn + string option"
  vk_setex :: "'c \<Rightarrow> int \<Rightarrow> string \<Rightarrow> int \<Rightarrow> string \<Rightarrow> exn + 'c"
  vk_delete :: "'c \<Rightarrow> string \<Rightarrow> exn + 'c"

definition SESSION_PREFIX :: string where
  "SESSION_PREFIX = ''netra:session:''"

definition BRIEFING_PREFIX :: string where
  "BRIEFING_PREFIX = ''netra:briefing:''"

text \<open>The body the two classes share: only the prefix, the key and the codec differ.\<close>

definition decoded :: "(string \<Rightarrow> exn + 'v) \<Rightarrow> exn + string option \<Rightarrow> exn + 'v option" where
  "decoded decode got =
     (case got of
        Inl e \<Rightarrow> Inl e
      | Inr None \<Rightarrow> Inr None
      | Inr (Some raw) \<Rightarrow> (case decode raw of Inl e \<Rightarrow> Inl e | Inr v \<Rightarrow> Inr (Some v)))"

definition valkey_session_get :: "'c valkey \<Rightarrow> (string \<Rightarrow> exn + SessionState) \<Rightarrow> 'c \<Rightarrow> int \<Rightarrow> string \<Rightarrow>
    exn + SessionState option" where
  "valkey_session_get V decode c now sid = decoded decode (vk_get V c now (SESSION_PREFIX @ sid))"

definition valkey_session_set :: "'c valkey \<Rightarrow> (SessionState \<Rightarrow> string) \<Rightarrow> int \<Rightarrow> 'c \<Rightarrow> int \<Rightarrow>
    SessionState \<Rightarrow> exn + 'c" where
  "valkey_session_set V encode ttl c now s =
     vk_setex V c now (SESSION_PREFIX @ ss_session_id s) ttl (encode s)"

definition valkey_session_delete :: "'c valkey \<Rightarrow> 'c \<Rightarrow> string \<Rightarrow> exn + 'c" where
  "valkey_session_delete V c sid = vk_delete V c (SESSION_PREFIX @ sid)"

definition valkey_briefing_get :: "'c valkey \<Rightarrow> (string \<Rightarrow> exn + BriefingPendingState) \<Rightarrow> 'c \<Rightarrow> int \<Rightarrow>
    string \<Rightarrow> exn + BriefingPendingState option" where
  "valkey_briefing_get V decode c now sid = decoded decode (vk_get V c now (BRIEFING_PREFIX @ sid))"

definition valkey_briefing_set :: "'c valkey \<Rightarrow> (BriefingPendingState \<Rightarrow> string) \<Rightarrow> int \<Rightarrow> 'c \<Rightarrow> int \<Rightarrow>
    BriefingPendingState \<Rightarrow> exn + 'c" where
  "valkey_briefing_set V encode ttl c now b =
     vk_setex V c now (BRIEFING_PREFIX @ bp_session_id b) ttl (encode b)"

definition valkey_briefing_delete :: "'c valkey \<Rightarrow> 'c \<Rightarrow> string \<Rightarrow> exn + 'c" where
  "valkey_briefing_delete V c sid = vk_delete V c (BRIEFING_PREFIX @ sid)"

subsection \<open>What the stores rely on\<close>

text \<open>
  The documented behaviour of the server while it is reachable, over the view \<open>look\<close> of its
  keys at a time: \<open>GET\<close> returns what is there and changes nothing, \<open>SETEX\<close> with a positive
  time to live replaces one key and makes it expire, \<open>DEL\<close> removes one key.
\<close>

definition documented :: "'c valkey \<Rightarrow> ('c \<Rightarrow> int \<Rightarrow> string \<Rightarrow> string option) \<Rightarrow> bool" where
  "documented V look \<longleftrightarrow>
     (\<forall>c t k. vk_get V c t k = Inr (look c t k)) \<and>
     (\<forall>c t k n x. 0 < n \<longrightarrow> (\<exists>c'. vk_setex V c t k n x = Inr c' \<and>
        (\<forall>u k'. t \<le> u \<longrightarrow> look c' u k' =
           (if k' = k then if u < t + 1000 * n then Some x else None else look c u k')))) \<and>
     (\<forall>c k. \<exists>c'. vk_delete V c k = Inr c' \<and>
        (\<forall>u k'. look c' u k' = (if k' = k then None else look c u k')))"

lemma documentedD:
  assumes "documented V look"
  shows "vk_get V c t k = Inr (look c t k)"
    and "0 < n \<Longrightarrow> \<exists>c'. vk_setex V c t k n x = Inr c' \<and>
        (\<forall>u k'. t \<le> u \<longrightarrow> look c' u k' =
           (if k' = k then if u < t + 1000 * n then Some x else None else look c u k'))"
    and "\<exists>c'. vk_delete V c k = Inr c' \<and> (\<forall>u k'. look c' u k' = (if k' = k then None else look c u k'))"
  using assms unfolding documented_def by blast+

lemma prefixes_differ [simp]: "SESSION_PREFIX @ s \<noteq> BRIEFING_PREFIX @ t" "BRIEFING_PREFIX @ t \<noteq> SESSION_PREFIX @ s"
  by (simp_all add: SESSION_PREFIX_def BRIEFING_PREFIX_def)

subsection \<open>Runs of both stores on one server\<close>

type_synonym shared_op = "SessionState store_op + BriefingPendingState store_op"

record codec =
  session_enc :: "SessionState \<Rightarrow> string"
  session_dec :: "string \<Rightarrow> exn + SessionState"
  briefing_enc :: "BriefingPendingState \<Rightarrow> string"
  briefing_dec :: "string \<Rightarrow> exn + BriefingPendingState"

fun valkey_step :: "'c valkey \<Rightarrow> codec \<Rightarrow> int \<Rightarrow> 'c \<Rightarrow> shared_op \<Rightarrow> exn + 'c" where
  "valkey_step V cd ttl c (Inl (OpGet t k)) =
     (case valkey_session_get V (session_dec cd) c t k of Inl e \<Rightarrow> Inl e | Inr _ \<Rightarrow> Inr c)"
| "valkey_step V cd ttl c (Inl (OpSet t s)) = valkey_session_set V (session_enc cd) ttl c t s"
| "valkey_step V cd ttl c (Inl (OpDel k)) = valkey_session_delete V c k"
| "valkey_step V cd ttl c (Inr (OpGet t k)) =
     (case valkey_briefing_get V (briefing_dec cd) c t k of Inl e \<Rightarrow> Inl e | Inr _ \<Rightarrow> Inr c)"
| "valkey_step V cd ttl c (Inr (OpSet t b)) = valkey_briefing_set V (briefing_enc cd) ttl c t b"
| "valkey_step V cd ttl c (Inr (OpDel k)) = valkey_briefing_delete V c k"

fun valkey_run :: "'c valkey \<Rightarrow> codec \<Rightarrow> int \<Rightarrow> 'c \<Rightarrow> shared_op list \<Rightarrow> exn + 'c" where
  "valkey_run V cd ttl c [] = Inr c"
| "valkey_run V cd ttl c (op # ops) =
     (case valkey_step V cd ttl c op of Inl e \<Rightarrow> Inl e | Inr c' \<Rightarrow> valkey_run V cd ttl c' ops)"

definition session_ops :: "shared_op list \<Rightarrow> SessionState store_op list" where
  "session_ops ops = concat (map (\<lambda>op. case op of Inl s \<Rightarrow> [s] | Inr _ \<Rightarrow> []) ops)"

definition briefing_ops :: "shared_op list \<Rightarrow> BriefingPendingState store_op list" where
  "briefing_ops ops = concat (map (\<lambda>op. case op of Inl _ \<Rightarrow> [] | Inr b \<Rightarrow> [b]) ops)"

fun op_time :: "'v store_op \<Rightarrow> int option" where
  "op_time (OpGet t k) = Some t"
| "op_time (OpSet t v) = Some t"
| "op_time (OpDel k) = None"

fun shared_in_order :: "int \<Rightarrow> shared_op list \<Rightarrow> int \<Rightarrow> bool" where
  "shared_in_order t [] t' = (t \<le> t')"
| "shared_in_order t (op # ops) t' =
     (case (case op of Inl s \<Rightarrow> op_time s | Inr b \<Rightarrow> op_time b) of
        None \<Rightarrow> shared_in_order t ops t'
      | Some u \<Rightarrow> t \<le> u \<and> shared_in_order u ops t')"

abbreviation memory_session_run where
  "memory_session_run \<equiv> run_ops session_get session_set session_delete"

abbreviation memory_briefing_run where
  "memory_briefing_run \<equiv> run_ops briefing_get briefing_set briefing_delete"

text \<open>What was written can be read back: the decoder inverts the encoder on it.\<close>

definition session_ok_codec :: "codec \<Rightarrow> SessionState \<Rightarrow> bool" where
  "session_ok_codec cd s \<longleftrightarrow> session_dec cd (session_enc cd s) = Inr s"

definition briefing_ok_codec :: "codec \<Rightarrow> BriefingPendingState \<Rightarrow> bool" where
  "briefing_ok_codec cd b \<longleftrightarrow> briefing_dec cd (briefing_enc cd b) = Inr b"

definition op_decodes :: "codec \<Rightarrow> shared_op \<Rightarrow> bool" where
  "op_decodes cd op =
     (case op of
        Inl s \<Rightarrow> (case s of OpSet t x \<Rightarrow> session_ok_codec cd x | _ \<Rightarrow> True)
      | Inr b \<Rightarrow> (case b of OpSet t x \<Rightarrow> briefing_ok_codec cd x | _ \<Rightarrow> True))"

text \<open>The server mirrors the two in-memory stores from time \<open>t\<close> on.\<close>

definition mirrors :: "('c \<Rightarrow> int \<Rightarrow> string \<Rightarrow> string option) \<Rightarrow> codec \<Rightarrow> int \<Rightarrow> 'c \<Rightarrow>
    SessionState ttl_store \<Rightarrow> BriefingPendingState ttl_store \<Rightarrow> bool" where
  "mirrors look cd t c ss bs \<longleftrightarrow>
     (\<forall>u k. t \<le> u \<longrightarrow> look c u (SESSION_PREFIX @ k) = map_option (session_enc cd) (live ss u k) \<and>
        look c u (BRIEFING_PREFIX @ k) = map_option (briefing_enc cd) (live bs u k) \<and>
        pred_option (session_ok_codec cd) (live ss u k) \<and> pred_option (briefing_ok_codec cd) (live bs u k))"

lemma mirrors_get:
  assumes "documented V look" "mirrors look cd t c ss bs" "t \<le> u"
  shows "valkey_session_get V (session_dec cd) c u k = Inr (fst (session_get ss u k))"
    and "valkey_briefing_get V (briefing_dec cd) c u k = Inr (fst (briefing_get bs u k))"
proof -
  have "look c u (SESSION_PREFIX @ k) = map_option (session_enc cd) (live ss u k)"
    "look c u (BRIEFING_PREFIX @ k) = map_option (briefing_enc cd) (live bs u k)"
    "pred_option (session_ok_codec cd) (live ss u k)" "pred_option (briefing_ok_codec cd) (live bs u k)"
    using assms(2,3) by (simp_all add: mirrors_def)
  then show "valkey_session_get V (session_dec cd) c u k = Inr (fst (session_get ss u k))"
    "valkey_briefing_get V (briefing_dec cd) c u k = Inr (fst (briefing_get bs u k))"
    by (auto simp: valkey_session_get_def valkey_briefing_get_def documentedD(1) [OF assms(1)]
        session_ok_codec_def briefing_ok_codec_def decoded_def session_get_def briefing_get_def split: option.split)
qed

lemma mirrors_later: "mirrors look cd t c ss bs \<Longrightarrow> t \<le> u \<Longrightarrow> mirrors look cd u c ss bs"
  by (auto simp: mirrors_def)

lemma mirrors_session_step:
  assumes d: "documented V look" and dec: "op_decodes cd (Inl s)" and ttl: "0 < ttl" "st_ttl ss = 1000 * ttl" "st_ttl bs = 1000 * ttl"
    and m: "mirrors look cd t c ss bs"
    and time: "case op_time s of None \<Rightarrow> u = t | Some v \<Rightarrow> u = v \<and> t \<le> v"
  shows "\<exists>c'. valkey_step V cd ttl c (Inl s) = Inr c' \<and>
     mirrors look cd u c' (memory_session_run ss (session_ops [Inl s])) (memory_briefing_run bs (briefing_ops [Inl s]))"
proof (cases s)
  case (OpGet v k)
  have "mirrors look cd v c (snd (session_get ss v k)) bs"
    using m time OpGet by (auto simp: mirrors_def session_get_def live_ttl_get)
  then show ?thesis
    using mirrors_get(1) [OF d m, of v k] time OpGet by (simp add: session_ops_def briefing_ops_def)
next
  case (OpSet v x)
  obtain c' where c': "vk_setex V c v (SESSION_PREFIX @ ss_session_id x) ttl (session_enc cd x) = Inr c'"
    "\<forall>u k'. v \<le> u \<longrightarrow> look c' u k' = (if k' = SESSION_PREFIX @ ss_session_id x
       then if u < v + 1000 * ttl then Some (session_enc cd x) else None else look c u k')"
    using documentedD(2) [OF d ttl(1)] by blast
  have "mirrors look cd v c' (session_set ss v x) bs"
    using m time OpSet ttl dec c'(2) by (auto simp: mirrors_def session_set_def live_ttl_set op_decodes_def)
  then show ?thesis
    using c'(1) time OpSet by (simp add: session_ops_def briefing_ops_def valkey_session_set_def)
next
  case (OpDel k)
  obtain c' where c': "vk_delete V c (SESSION_PREFIX @ k) = Inr c'"
    "\<forall>u k'. look c' u k' = (if k' = SESSION_PREFIX @ k then None else look c u k')"
    using documentedD(3) [OF d] by blast
  have "mirrors look cd t c' (session_delete ss k) bs"
    using m c'(2) by (auto simp: mirrors_def session_delete_def live_ttl_delete)
  then show ?thesis
    using c'(1) time OpDel by (simp add: session_ops_def briefing_ops_def valkey_session_delete_def)
qed

lemma mirrors_briefing_step:
  assumes d: "documented V look" and dec: "op_decodes cd (Inr b)" and ttl: "0 < ttl" "st_ttl ss = 1000 * ttl" "st_ttl bs = 1000 * ttl"
    and m: "mirrors look cd t c ss bs"
    and time: "case op_time b of None \<Rightarrow> u = t | Some v \<Rightarrow> u = v \<and> t \<le> v"
  shows "\<exists>c'. valkey_step V cd ttl c (Inr b) = Inr c' \<and>
     mirrors look cd u c' (memory_session_run ss (session_ops [Inr b])) (memory_briefing_run bs (briefing_ops [Inr b]))"
proof (cases b)
  case (OpGet v k)
  have "mirrors look cd v c ss (snd (briefing_get bs v k))"
    using m time OpGet by (auto simp: mirrors_def briefing_get_def live_ttl_get)
  then show ?thesis
    using mirrors_get(2) [OF d m, of v k] time OpGet by (simp add: session_ops_def briefing_ops_def)
next
  case (OpSet v x)
  obtain c' where c': "vk_setex V c v (BRIEFING_PREFIX @ bp_session_id x) ttl (briefing_enc cd x) = Inr c'"
    "\<forall>u k'. v \<le> u \<longrightarrow> look c' u k' = (if k' = BRIEFING_PREFIX @ bp_session_id x
       then if u < v + 1000 * ttl then Some (briefing_enc cd x) else None else look c u k')"
    using documentedD(2) [OF d ttl(1)] by blast
  have "mirrors look cd v c' ss (briefing_set bs v x)"
    using m time OpSet ttl dec c'(2) by (auto simp: mirrors_def briefing_set_def live_ttl_set op_decodes_def)
  then show ?thesis
    using c'(1) time OpSet by (simp add: session_ops_def briefing_ops_def valkey_briefing_set_def)
next
  case (OpDel k)
  obtain c' where c': "vk_delete V c (BRIEFING_PREFIX @ k) = Inr c'"
    "\<forall>u k'. look c' u k' = (if k' = BRIEFING_PREFIX @ k then None else look c u k')"
    using documentedD(3) [OF d] by blast
  have "mirrors look cd t c' ss (briefing_delete bs k)"
    using m c'(2) by (auto simp: mirrors_def briefing_delete_def live_ttl_delete)
  then show ?thesis
    using c'(1) time OpDel by (simp add: session_ops_def briefing_ops_def valkey_briefing_delete_def)
qed

lemma mirrors_step:
  assumes d: "documented V look" and dec: "op_decodes cd op" and ttl: "0 < ttl" "st_ttl ss = 1000 * ttl" "st_ttl bs = 1000 * ttl"
    and m: "mirrors look cd t c ss bs"
    and time: "case (case op of Inl s \<Rightarrow> op_time s | Inr b \<Rightarrow> op_time b) of None \<Rightarrow> u = t | Some v \<Rightarrow> u = v \<and> t \<le> v"
  shows "\<exists>c'. valkey_step V cd ttl c op = Inr c' \<and>
     mirrors look cd u c' (memory_session_run ss (session_ops [op])) (memory_briefing_run bs (briefing_ops [op]))"
  using mirrors_session_step [OF d _ ttl m] mirrors_briefing_step [OF d _ ttl m] dec time by (cases op) auto

lemma run_ops_append: "run_ops get put del s (xs @ ys) = run_ops get put del (run_ops get put del s xs) ys"
  by (induction get put del s xs rule: run_ops.induct) simp_all

lemma ops_Cons: "session_ops (op # ops) = session_ops [op] @ session_ops ops"
  "briefing_ops (op # ops) = briefing_ops [op] @ briefing_ops ops"
  by (simp_all add: session_ops_def briefing_ops_def)

lemma ttl_session_run: "st_ttl (memory_session_run ss ops) = st_ttl ss"
proof (induction ops arbitrary: ss)
  case (Cons op ops)
  then show ?case by (cases op) (simp_all add: session_get_def session_set_def session_delete_def)
qed simp

lemma ttl_briefing_run: "st_ttl (memory_briefing_run bs ops) = st_ttl bs"
proof (induction ops arbitrary: bs)
  case (Cons op ops)
  then show ?case by (cases op) (simp_all add: briefing_get_def briefing_set_def briefing_delete_def)
qed simp

lemma mirrors_run:
  assumes d: "documented V look" and ttl: "0 < ttl"
  shows "mirrors look cd t c ss bs \<Longrightarrow> list_all (op_decodes cd) ops \<Longrightarrow> st_ttl ss = 1000 * ttl \<Longrightarrow> st_ttl bs = 1000 * ttl \<Longrightarrow>
     shared_in_order t ops t' \<Longrightarrow>
     \<exists>c'. valkey_run V cd ttl c ops = Inr c' \<and>
       mirrors look cd t' c' (memory_session_run ss (session_ops ops)) (memory_briefing_run bs (briefing_ops ops))"
proof (induction ops arbitrary: t c ss bs)
  case Nil
  then show ?case using mirrors_later by (auto simp: session_ops_def briefing_ops_def)
next
  case (Cons op ops)
  let ?when = "case op of Inl s \<Rightarrow> op_time s | Inr b \<Rightarrow> op_time b"
  define u where "u = (case ?when of None \<Rightarrow> t | Some v \<Rightarrow> v)"
  have time: "case ?when of None \<Rightarrow> u = t | Some v \<Rightarrow> u = v \<and> t \<le> v"
    and rest: "shared_in_order u ops t'"
    using Cons.prems(5) by (simp_all add: u_def split: option.splits)
  obtain c1 where c1: "valkey_step V cd ttl c op = Inr c1"
    "mirrors look cd u c1 (memory_session_run ss (session_ops [op])) (memory_briefing_run bs (briefing_ops [op]))"
    using mirrors_step [OF d _ ttl Cons.prems(3,4,1) time] Cons.prems(2) by auto
  from Cons.IH [OF c1(2) _ _ _ rest] c1(1) Cons.prems(2,3,4) show ?case
    by (simp add: ttl_session_run ttl_briefing_run ops_Cons [of op ops] run_ops_append)
qed

subsection \<open>The codecs of the two states\<close>

definition dump_pending :: "coercions \<Rightarrow> BriefingPendingState \<Rightarrow> json" where
  "dump_pending co b = JObj [(''session_id'', JStr (bp_session_id b)), (''agenda_text'', JStr (bp_agenda_text b)),
     (''topics'', JArr (map dump_topic (bp_topics b))), (''current_topic_idx'', of_int_json (int (bp_current_topic_idx b))),
     (''completed_results'', JObj (map (\<lambda>(k, r). (k, dump_query_response co r)) (bp_completed_results b)))]"

definition validate_pending :: "coercions \<Rightarrow> json \<Rightarrow> exn + BriefingPendingState" where
  "validate_pending co = object_of (\<lambda>d.
     req d ''session_id'' as_str (\<lambda>sid. req d ''agenda_text'' as_str (\<lambda>t. req d ''topics'' (list_of validate_topic) (\<lambda>ts.
     dflt d ''current_topic_idx'' 0 (as_int co) (\<lambda>i.
     dflt d ''completed_results'' [] (mapping_of (validate_query_response co)) (\<lambda>rs.
     Inr \<lparr>bp_session_id = sid, bp_agenda_text = t, bp_topics = ts, bp_current_topic_idx = nat i,
       bp_completed_results = rs\<rparr>))))))"

definition json_codec :: "coercions \<Rightarrow> (json \<Rightarrow> string) \<Rightarrow> (string \<Rightarrow> exn + json) \<Rightarrow> codec" where
  "json_codec co dumps loads = \<lparr>
     session_enc = (\<lambda>s. dumps (dump_session s)), session_dec = (\<lambda>t. andthen (loads t) (validate_session co)),
     briefing_enc = (\<lambda>b. dumps (dump_pending co b)), briefing_dec = (\<lambda>t. andthen (loads t) (validate_pending co))\<rparr>"

text \<open>The keys of a dictionary are distinct.\<close>

definition pending_dicts :: "BriefingPendingState \<Rightarrow> bool" where
  "pending_dicts b \<longleftrightarrow> distinct (map fst (bp_completed_results b)) \<and>
     list_all (\<lambda>(k, r). list_all (\<lambda>i. distinct (map fst i)) (qr_issues r)) (bp_completed_results b)"

fun op_dicts :: "shared_op \<Rightarrow> bool" where
  "op_dicts (Inl (OpSet t s)) = distinct (map fst (ss_resolutions s))"
| "op_dicts (Inr (OpSet t b)) = pending_dicts b"
| "op_dicts _ = True"

lemma pending_codec: "coercions_ok co \<Longrightarrow> validate_pending co (dump_pending co b) = Inr b"
  by (simp add: validate_pending_def dump_pending_def codec_simps coerced_numbers list_of_dumps [OF topic_codec]
      mapping_of_dumps [of "validate_query_response co" "dump_query_response co", OF query_response_codec])

lemma pending_writable: "coercions_ok co \<Longrightarrow> pending_dicts b \<Longrightarrow> json_ok co (dump_pending co b)"
  by (simp add: dump_pending_def pending_dicts_def writable writable_numbers query_response_writable
      list_all_iff case_prod_beta comp_def)

lemma json_codec_decodes:
  assumes "coercions_ok co" "json_text_ok co dumps loads" "op_dicts op"
  shows "op_decodes (json_codec co dumps loads) op"
proof -
  have "session_ok_codec (json_codec co dumps loads) s" if "distinct (map fst (ss_resolutions s))" for s
    using assms session_writable [OF assms(1) that]
    by (simp add: session_ok_codec_def json_codec_def json_text_ok_def session_codec)
  moreover have "briefing_ok_codec (json_codec co dumps loads) b" if "pending_dicts b" for b
    using assms pending_writable [OF assms(1) that]
    by (simp add: briefing_ok_codec_def json_codec_def json_text_ok_def pending_codec)
  ultimately show ?thesis using assms(3) by (cases op rule: op_dicts.cases) (simp_all add: op_decodes_def)
qed

subsection \<open>Properties\<close>

text \<open>C30: the Valkey stores are drop-in replacements. On a server that behaves as documented
  and starts without session keys, any sequence of reads, writes and deletes of the two stores,
  in time order, runs without an exception, and afterwards every session and every briefing
  reads exactly as it would from the in-memory stores that got only their own operations: the
  two stores share one key space and do not disturb each other, and nothing of a state is lost in
  its JSON text.\<close>

theorem valkey_matches_memory:
  fixes co dumps loads
  defines "cd \<equiv> json_codec co dumps loads"
  assumes "documented V look" "coercions_ok co" "json_text_ok co dumps loads" "list_all op_dicts ops" "0 < ttl"
    and "\<forall>u k. t0 \<le> u \<longrightarrow> look c0 u k = None" and "shared_in_order t0 ops t'"
  shows "\<exists>c. valkey_run V cd ttl c0 ops = Inr c \<and>
     valkey_session_get V (session_dec cd) c t' sid =
       Inr (fst (session_get (memory_session_run (ttl_new (1000 * ttl)) (session_ops ops)) t' sid)) \<and>
     valkey_briefing_get V (briefing_dec cd) c t' sid =
       Inr (fst (briefing_get (memory_briefing_run (ttl_new (1000 * ttl)) (briefing_ops ops)) t' sid))"
proof -
  have dec: "list_all (op_decodes cd) ops"
    using assms(5) json_codec_decodes [OF assms(3,4)] by (simp add: cd_def list_all_iff)
  have "mirrors look cd t0 c0 (ttl_new (1000 * ttl)) (ttl_new (1000 * ttl))"
    using assms(7) by (simp add: mirrors_def)
  from mirrors_run [OF assms(2,6) this dec _ _ assms(8)]
  obtain c where "valkey_run V cd ttl c0 ops = Inr c"
    and "mirrors look cd t' c (memory_session_run (ttl_new (1000 * ttl)) (session_ops ops))
       (memory_briefing_run (ttl_new (1000 * ttl)) (briefing_ops ops))"
    by (auto simp: ttl_new_def)
  with mirrors_get [OF assms(2)] show ?thesis by blast
qed

text \<open>A server that keeps a list of keys with their expiry, and a codec on it.\<close>

definition sample_look :: "(string \<times> int \<times> string) list \<Rightarrow> int \<Rightarrow> string \<Rightarrow> string option" where
  "sample_look c t k =
     (case map_of c k of None \<Rightarrow> None | Some (e, x) \<Rightarrow> if t < e then Some x else None)"

definition sample_valkey :: "(string \<times> int \<times> string) list valkey" where
  "sample_valkey = \<lparr>vk_get = (\<lambda>c t k. Inr (sample_look c t k)),
     vk_setex = (\<lambda>c t k n x. if n \<le> 0 then Inl (OtherError ''invalid expire time'')
        else Inr (AList.update k (t + 1000 * n, x) c)),
     vk_delete = (\<lambda>c k. Inr (AList.delete k c))\<rparr>"

lemma sample_documented: "documented sample_valkey sample_look"
  by (auto simp: documented_def sample_valkey_def sample_look_def split: option.splits)

theorem valkey_matches_memory_witness:
  "\<exists>c. valkey_run sample_valkey (json_codec sample_coercions sample_dumps sample_loads) 60 []
       [Inl (OpSet 0 (new_session ''s'')), Inr (OpSet 5 (new_pending (sample_bargs None) [topic_1])), Inr (OpDel ''s'')] = Inr c \<and>
     valkey_session_get sample_valkey (session_dec (json_codec sample_coercions sample_dumps sample_loads)) c 59999 ''s'' =
       Inr (Some (new_session ''s'')) \<and>
     valkey_briefing_get sample_valkey (briefing_dec (json_codec sample_coercions sample_dumps sample_loads)) c 59999 ''s'' = Inr None"
  (is "\<exists>c. valkey_run _ _ _ _ ?ops = _ \<and> _")
proof -
  have "list_all op_dicts ?ops"
    by (simp add: pending_dicts_def new_session_def new_pending_def)
  from valkey_matches_memory [OF sample_documented sample_coercions_ok sample_json_text this, of 60 0 "[]" 59999 "''s''"]
  show ?thesis
    by (simp add: sample_look_def session_ops_def briefing_ops_def session_get_def session_set_def
        briefing_get_def briefing_delete_def live_ttl_set live_ttl_delete ttl_new_def)
qed

end
