(* ===== verification/Cql.thy ===== *)
theory Cql
  imports Netra_Errors
begin

text \<open>
  \<open>confluence/models/intent.py\<close> and \<open>confluence/client/cql_builder.py\<close>, with the reverse
  lookup query of \<open>confluence/client/client.py\<close>: the CQL text sent to Confluence. The laws
  read the text back: cut at the quotation marks it is a list of raw pieces and of string
  literals.
\<close>

datatype intent_type = Release_risk | Blocker_analysis | Domain_impact | Working_group_status | General

record QueryIntent =
  qi_version_refs :: "string list"
  qi_project_keys :: "string list"
  qi_risk_signals :: "string list"
  qi_confluence_keywords :: "string list"
  qi_suggested_spaces :: "string list"
  qi_intent_type :: intent_type

record CqlVariants =
  cv_title_review :: string
  cv_title_version :: string
  cv_text_version :: string

definition as_list :: "CqlVariants \<Rightarrow> string list" where
  "as_list v = [cv_title_review v, cv_title_version v, cv_text_version v]"

definition quoted :: "string \<Rightarrow> string" where
  "quoted s = [CHR 0x22] @ s @ [CHR 0x22]"

definition space_filter :: "string list \<Rightarrow> string" where
  "space_filter spaces =
     (if spaces = [] then [] else ''space IN ('' @ join '', '' (map quoted spaces) @ '')'')"

definition version_short :: "string \<Rightarrow> string" where
  "version_short ref = last (split_char (CHR ''_'') ref)"

definition recent :: "int \<Rightarrow> string" where
  "recent days = ''lastModified > now('' @ quoted (''-'' @ show_int days @ ''d'') @ '')''"

definition build_cql_variants :: "QueryIntent \<Rightarrow> string list \<Rightarrow> int \<Rightarrow> CqlVariants" where
  "build_cql_variants intent spaces days =
     (let scope = space_filter spaces;
          keywords = qi_confluence_keywords intent;
          short = (case qi_version_refs intent of
                     r # _ \<Rightarrow> version_short r
                   | [] \<Rightarrow> (case keywords of k # _ \<Rightarrow> k | [] \<Rightarrow> []));
          abbrev = (if qi_version_refs intent \<noteq> [] then hd (split_char (CHR ''.'') short) else short);
          review = (if scope \<noteq> []
                    then ''title ~ '' @ quoted ''Review'' @ '' AND '' @ scope @ '' AND '' @ recent days
                    else ''title ~ '' @ quoted ''Review'' @ '' AND '' @ recent days);
          version =
            (if abbrev \<noteq> [] then
               (if scope \<noteq> []
                then ''title ~ '' @ quoted abbrev @ '' AND text ~ '' @ quoted ''blocker'' @ '' AND '' @ scope
                else ''title ~ '' @ quoted abbrev @ '' AND text ~ '' @ quoted ''blocker'')
             else
               (if scope \<noteq> [] then ''text ~ '' @ quoted ''blocker'' @ '' AND '' @ scope
                else ''text ~ '' @ quoted ''blocker''));
          text =
            (if short \<noteq> [] then
               (if scope \<noteq> [] then ''text ~ '' @ quoted short @ '' AND '' @ scope @ '' AND '' @ recent days
                else ''text ~ '' @ quoted short @ '' AND '' @ recent days)
             else
               (let ors = join '' OR '' (map quoted (take 3 keywords))
                in if ors \<noteq> [] \<and> scope \<noteq> [] then ''text ~ ('' @ ors @ '') AND '' @ scope
                   else if ors \<noteq> [] then ''text ~ ('' @ ors @ '')'' else review))
      in \<lparr>cv_title_review = review, cv_title_version = version, cv_text_version = text\<rparr>)"

text \<open>\<open>_space_clause\<close> and the query of \<open>find_pages_mentioning_keys\<close>.\<close>

definition space_clause :: "string list \<Rightarrow> string" where
  "space_clause spaces =
     (if spaces = [] then [] else '' AND space IN ('' @ join '', '' (map quoted spaces) @ '')'')"

definition reverse_query :: "string list \<Rightarrow> string \<Rightarrow> string" where
  "reverse_query spaces key = ''text ~ '' @ quoted key @ space_clause spaces"

subsection \<open>Reading the text back\<close>

datatype piece = Raw string | Lit string

fun piece_text :: "piece \<Rightarrow> string" where
  "piece_text (Raw s) = s"
| "piece_text (Lit s) = quoted s"

definition cql_text :: "piece list \<Rightarrow> string" where
  "cql_text ps = concat (map piece_text ps)"

fun alternate :: "bool \<Rightarrow> string list \<Rightarrow> piece list" where
  "alternate lit [] = []"
| "alternate True (x # xs) = Lit x # alternate False xs"
| "alternate False (x # xs) = Raw x # alternate True xs"

definition cql_tokens :: "string \<Rightarrow> piece list" where
  "cql_tokens s = filter (\<lambda>p. p \<noteq> Raw []) (alternate False (split_char (CHR 0x22) s))"

text \<open>Neighbouring raw pieces are one piece of the text, empty ones are none.\<close>

fun fuse :: "piece list \<Rightarrow> piece list" where
  "fuse [] = []"
| "fuse (Lit l # ps) = Lit l # fuse ps"
| "fuse (Raw r # ps) =
     (case fuse ps of
        Raw s # qs \<Rightarrow> Raw (r @ s) # qs
      | qs \<Rightarrow> if r = [] then qs else Raw r # qs)"

fun quote_free :: "piece \<Rightarrow> bool" where
  "quote_free (Raw s) = (CHR 0x22 \<notin> set s)"
| "quote_free (Lit s) = (CHR 0x22 \<notin> set s)"

lemma split_char_sep [simp]: "c \<notin> set x \<Longrightarrow> split_char c (x @ c # y) = x # split_char c y"
  by (induction x) auto

lemma split_char_prefix:
  "c \<notin> set x \<Longrightarrow> split_char c (x @ y) = (x @ hd (split_char c y)) # tl (split_char c y)"
proof (induction x)
  case Nil
  then show ?case by (simp add: split_char_nonempty)
qed auto

lemma filter_alternate_lit:
  "filter (\<lambda>p. p \<noteq> Raw []) (alternate True ws) = [] \<or>
   (\<exists>l ps. filter (\<lambda>p. p \<noteq> Raw []) (alternate True ws) = Lit l # ps)"
  by (cases ws) simp_all

lemma tokens_text: "list_all quote_free ps \<Longrightarrow> cql_tokens (cql_text ps) = fuse ps"
proof (induction ps)
  case Nil
  then show ?case by (simp add: cql_tokens_def cql_text_def)
next
  case (Cons p ps)
  have IH: "cql_tokens (cql_text ps) = fuse ps" using Cons by simp
  show ?case
  proof (cases p)
    case (Lit l)
    have "cql_text (p # ps) = [] @ CHR 0x22 # (l @ CHR 0x22 # cql_text ps)"
      using Lit by (simp add: cql_text_def quoted_def)
    then have "split_char (CHR 0x22) (cql_text (p # ps)) = [] # l # split_char (CHR 0x22) (cql_text ps)"
      using Cons.prems Lit by simp
    then show ?thesis using IH Lit by (simp add: cql_tokens_def)
  next
    case (Raw r)
    obtain w ws where w: "split_char (CHR 0x22) (cql_text ps) = w # ws"
      by (cases "split_char (CHR 0x22) (cql_text ps)") auto
    have "cql_text (p # ps) = r @ cql_text ps" using Raw by (simp add: cql_text_def)
    then have s: "split_char (CHR 0x22) (cql_text (p # ps)) = (r @ w) # ws"
      using Cons.prems Raw w by (simp add: split_char_prefix)
    have f: "fuse ps = filter (\<lambda>p. p \<noteq> Raw []) (Raw w # alternate True ws)"
      using IH w by (simp add: cql_tokens_def)
    show ?thesis
      using filter_alternate_lit [of ws] f s Raw by (cases "w = []") (auto simp: cql_tokens_def)
  qed
qed

subsection \<open>The queries as pieces\<close>

fun lits :: "string \<Rightarrow> string list \<Rightarrow> piece list" where
  "lits sep [] = []"
| "lits sep [x] = [Lit x]"
| "lits sep (x # y # xs) = Lit x # Raw sep # lits sep (y # xs)"

definition scope_pieces :: "string list \<Rightarrow> piece list" where
  "scope_pieces spaces =
     (if spaces = [] then [] else Raw '' AND space IN ('' # lits '', '' spaces @ [Raw '')''])"

definition recent_pieces :: "int \<Rightarrow> piece list" where
  "recent_pieces days = [Raw '' AND lastModified > now('', Lit (''-'' @ show_int days @ ''d''), Raw '')'']"

definition short_of :: "QueryIntent \<Rightarrow> string" where
  "short_of intent =
     (case qi_version_refs intent of
        r # _ \<Rightarrow> version_short r
      | [] \<Rightarrow> (case qi_confluence_keywords intent of k # _ \<Rightarrow> k | [] \<Rightarrow> []))"

definition abbrev_of :: "QueryIntent \<Rightarrow> string" where
  "abbrev_of intent =
     (if qi_version_refs intent \<noteq> [] then hd (split_char (CHR ''.'') (short_of intent)) else short_of intent)"

definition review_pieces :: "string list \<Rightarrow> int \<Rightarrow> piece list" where
  "review_pieces spaces days = [Raw ''title ~ '', Lit ''Review''] @ scope_pieces spaces @ recent_pieces days"

definition version_pieces :: "QueryIntent \<Rightarrow> string list \<Rightarrow> piece list" where
  "version_pieces intent spaces =
     (if abbrev_of intent = [] then [Raw ''text ~ '']
      else [Raw ''title ~ '', Lit (abbrev_of intent), Raw '' AND text ~ '']) @ Lit ''blocker'' # scope_pieces spaces"

definition text_pieces :: "QueryIntent \<Rightarrow> string list \<Rightarrow> int \<Rightarrow> piece list" where
  "text_pieces intent spaces days =
     (if short_of intent \<noteq> [] then [Raw ''text ~ '', Lit (short_of intent)] @ scope_pieces spaces @ recent_pieces days
      else if qi_confluence_keywords intent = [] then review_pieces spaces days
      else Raw ''text ~ ('' # lits '' OR '' (take 3 (qi_confluence_keywords intent)) @ [Raw '')''] @ scope_pieces spaces)"

lemma cql_text_simps [simp]:
  "cql_text [] = []" "cql_text (p # ps) = piece_text p @ cql_text ps" "cql_text (ps @ qs) = cql_text ps @ cql_text qs"
  by (simp_all add: cql_text_def)

lemma cql_text_lits [simp]: "cql_text (lits sep xs) = join sep (map quoted xs)"
  by (induction sep xs rule: lits.induct) simp_all

lemma quoted_not_Nil [simp]: "quoted s \<noteq> []"
  by (simp add: quoted_def)

lemma join_quoted_Nil [simp]: "join sep (map quoted xs) = [] \<longleftrightarrow> xs = []"
  by (cases "(sep, xs)" rule: join.cases) simp_all

lemma scope_text: "cql_text (scope_pieces spaces) = (if spaces = [] then [] else '' AND '' @ space_filter spaces)"
  by (simp add: scope_pieces_def space_filter_def)

lemma space_filter_Nil [simp]: "space_filter spaces = [] \<longleftrightarrow> spaces = []"
  by (simp add: space_filter_def)

lemma recent_text [simp]: "cql_text (recent_pieces days) = '' AND '' @ recent days"
  by (simp add: recent_pieces_def recent_def)

lemma variants_text:
  "cv_title_review (build_cql_variants intent spaces days) = cql_text (review_pieces spaces days)"
  "cv_title_version (build_cql_variants intent spaces days) = cql_text (version_pieces intent spaces)"
  "cv_text_version (build_cql_variants intent spaces days) = cql_text (text_pieces intent spaces days)"
  "reverse_query spaces key = cql_text ([Raw ''text ~ '', Lit key] @ scope_pieces spaces)"
proof -
  show "cv_title_review (build_cql_variants intent spaces days) = cql_text (review_pieces spaces days)"
    by (simp add: build_cql_variants_def Let_def review_pieces_def scope_text)
  show "cv_title_version (build_cql_variants intent spaces days) = cql_text (version_pieces intent spaces)"
    by (simp add: build_cql_variants_def Let_def version_pieces_def scope_text abbrev_of_def short_of_def)
  show "cv_text_version (build_cql_variants intent spaces days) = cql_text (text_pieces intent spaces days)"
    by (simp add: build_cql_variants_def Let_def text_pieces_def review_pieces_def scope_text short_of_def)
  show "reverse_query spaces key = cql_text ([Raw ''text ~ '', Lit key] @ scope_pieces spaces)"
    by (simp add: reverse_query_def space_clause_def scope_text space_filter_def)
qed

text \<open>The values that go into the text hold no quotation mark.\<close>

definition no_quotes :: "string list \<Rightarrow> bool" where
  "no_quotes xs \<longleftrightarrow> list_all (\<lambda>s. CHR 0x22 \<notin> set s) xs"

lemma lits_quote_free: "no_quotes xs \<Longrightarrow> CHR 0x22 \<notin> set sep \<Longrightarrow> list_all quote_free (lits sep xs)"
  by (induction sep xs rule: lits.induct) (simp_all add: no_quotes_def)

lemma split_char_chars: "w \<in> set (split_char c s) \<Longrightarrow> set w \<subseteq> set s"
proof (induction s arbitrary: w)
  case (Cons d s)
  obtain v vs where v: "split_char c s = v # vs" by (cases "split_char c s") auto
  show ?case using Cons v by (fastforce split: if_splits)
qed simp

lemma show_int_quote_free: "CHR 0x22 \<notin> set (show_int i)"
proof
  assume "CHR 0x22 \<in> set (show_int i)"
  then have "CHR 0x22 \<in> set (show_nat (nat i)) \<or> CHR 0x22 \<in> set (show_nat (nat (- i)))"
    by (auto simp: show_int_def split: if_splits)
  then have "is_digit (CHR 0x22)" using show_nat_digits by blast
  then show False by (simp add: is_digit_def ord_of_def)
qed

lemma values_quote_free:
  assumes "no_quotes (qi_version_refs intent)" "no_quotes (qi_confluence_keywords intent)"
  shows "CHR 0x22 \<notin> set (short_of intent)" and "CHR 0x22 \<notin> set (abbrev_of intent)"
proof -
  have last: "last (split_char c s) \<in> set (split_char c s)" and first: "hd (split_char c s) \<in> set (split_char c s)" for c s
    by simp_all
  show short: "CHR 0x22 \<notin> set (short_of intent)"
  proof (cases "qi_version_refs intent")
    case Nil
    then show ?thesis
      using assms(2) by (cases "qi_confluence_keywords intent") (simp_all add: short_of_def no_quotes_def)
  next
    case (Cons r rs)
    have "set (version_short r) \<subseteq> set r" unfolding version_short_def by (rule split_char_chars [OF last])
    then show ?thesis using assms(1) Cons by (auto simp: short_of_def no_quotes_def)
  qed
  have "set (abbrev_of intent) \<subseteq> set (short_of intent)"
    unfolding abbrev_of_def using split_char_chars [OF first] by simp
  then show "CHR 0x22 \<notin> set (abbrev_of intent)" using short by blast
qed

lemma scope_quote_free: "no_quotes spaces \<Longrightarrow> list_all quote_free (scope_pieces spaces)"
  by (simp add: scope_pieces_def lits_quote_free)

lemma recent_quote_free: "list_all quote_free (recent_pieces days)"
  by (simp add: recent_pieces_def show_int_quote_free)

subsection \<open>Properties\<close>

text \<open>C38: for values without quotation marks the three CQL variants and the reverse lookup mean
  what was intended: read back, each is the intended sequence of operators and of string
  literals, with every value in a literal of its own; and with a list of spaces each is
  restricted to these spaces.\<close>

theorem cql_reads_back:
  assumes "no_quotes (qi_version_refs intent)" "no_quotes (qi_confluence_keywords intent)" "no_quotes spaces"
    and "no_quotes [key]"
  shows "cql_tokens (cv_title_review (build_cql_variants intent spaces days)) = fuse (review_pieces spaces days) \<and>
     cql_tokens (cv_title_version (build_cql_variants intent spaces days)) = fuse (version_pieces intent spaces) \<and>
     cql_tokens (cv_text_version (build_cql_variants intent spaces days)) = fuse (text_pieces intent spaces days) \<and>
     cql_tokens (reverse_query spaces key) = fuse ([Raw ''text ~ '', Lit key] @ scope_pieces spaces) \<and>
     (spaces \<noteq> [] \<longrightarrow> list_all (\<lambda>q. contains q ('' AND '' @ space_filter spaces))
        (reverse_query spaces key # as_list (build_cql_variants intent spaces days)))"
proof -
  note free = values_quote_free [OF assms(1,2)] scope_quote_free [OF assms(3)] recent_quote_free
  have review: "list_all quote_free (review_pieces spaces days)" using free by (simp add: review_pieces_def)
  have ver: "list_all quote_free (version_pieces intent spaces)" using free by (simp add: version_pieces_def)
  have three: "no_quotes (take 3 (qi_confluence_keywords intent))"
    using assms(2) by (auto simp: no_quotes_def list_all_iff dest: in_set_takeD)
  have words: "list_all quote_free (text_pieces intent spaces days)"
    using free review lits_quote_free [OF three] by (simp add: text_pieces_def)
  have reverse: "list_all quote_free ([Raw ''text ~ '', Lit key] @ scope_pieces spaces)"
    using free assms(4) by (simp add: no_quotes_def)
  have scoped: "contains (a @ '' AND '' @ space_filter spaces @ b) ('' AND '' @ space_filter spaces)" for a b
    unfolding contains_iff_sublist by (intro exI [of _ a] exI [of _ b]) simp
  have scope: "contains (cql_text (ps @ scope_pieces spaces @ qs)) ('' AND '' @ space_filter spaces)"
    if "spaces \<noteq> []" for ps qs
    using scoped [of "cql_text ps" "cql_text qs"] that by (simp add: scope_text)
  have "list_all (\<lambda>q. contains q ('' AND '' @ space_filter spaces))
        (reverse_query spaces key # as_list (build_cql_variants intent spaces days))" if ne: "spaces \<noteq> []"
    unfolding as_list_def variants_text list.pred_inject
  proof (intro conjI TrueI)
    show "contains (cql_text ([Raw ''text ~ '', Lit key] @ scope_pieces spaces)) ('' AND '' @ space_filter spaces)"
      using scope [OF ne, of "[Raw ''text ~ '', Lit key]" "[]"] by simp
    show review: "contains (cql_text (review_pieces spaces days)) ('' AND '' @ space_filter spaces)"
      unfolding review_pieces_def by (rule scope [OF ne])
    show "contains (cql_text (version_pieces intent spaces)) ('' AND '' @ space_filter spaces)"
      using scope [OF ne, of "(if abbrev_of intent = [] then [Raw ''text ~ '']
        else [Raw ''title ~ '', Lit (abbrev_of intent), Raw '' AND text ~ '']) @ [Lit ''blocker'']" "[]"]
      by (simp add: version_pieces_def)
    show "contains (cql_text (text_pieces intent spaces days)) ('' AND '' @ space_filter spaces)"
      using review scope [OF ne, of "[Raw ''text ~ '', Lit (short_of intent)]" "recent_pieces days"]
        scope [OF ne, of "Raw ''text ~ ('' # lits '' OR '' (take 3 (qi_confluence_keywords intent)) @ [Raw '')'']" "[]"]
      by (simp add: text_pieces_def)
  qed simp
  then show ?thesis
    unfolding variants_text
    using tokens_text [OF review] tokens_text [OF ver] tokens_text [OF words] tokens_text [OF reverse] by blast
qed

definition sample_intent :: "string list \<Rightarrow> QueryIntent" where
  "sample_intent keywords = \<lparr>qi_version_refs = [], qi_project_keys = [], qi_risk_signals = [],
     qi_confluence_keywords = keywords, qi_suggested_spaces = [], qi_intent_type = Release_risk\<rparr>"

lemma show_30: "show_int 30 = ''30''"
  by code_simp

theorem cql_reads_back_witness:
  "cql_tokens (cv_text_version (build_cql_variants (sample_intent [''R1'']) [''ENG'', ''OPS''] 30)) =
     [Raw ''text ~ '', Lit ''R1'', Raw '' AND space IN ('', Lit ''ENG'', Raw '', '', Lit ''OPS'',
      Raw '') AND lastModified > now('', Lit ''-30d'', Raw '')'']"
  using cql_reads_back [of "sample_intent [''R1'']" "[''ENG'', ''OPS'']" "''A-1''" 30]
  by (simp add: no_quotes_def sample_intent_def text_pieces_def short_of_def scope_pieces_def recent_pieces_def
      show_30)

text \<open>Values are not escaped: a keyword with quotation marks leaves its literal, and the search
  leaves the spaces it was restricted to (\<open>AND\<close> binds tighter than \<open>OR\<close>).\<close>

theorem quoted_keyword_leaves_the_spaces:
  "cql_tokens (cv_text_version (build_cql_variants
       (sample_intent [''x'' @ [CHR 0x22] @ '' OR text ~ '' @ [CHR 0x22] @ ''y'']) [''ENG''] 30)) =
     [Raw ''text ~ '', Lit ''x'', Raw '' OR text ~ '', Lit ''y'', Raw '' AND space IN ('', Lit ''ENG'',
      Raw '') AND lastModified > now('', Lit ''-30d'', Raw '')'']"
  by code_simp

end
