(* ===== verification/Py_Scan.thy ===== *)
theory Py_Scan
  imports Py_Regex
begin

text \<open>
  \<open>re.finditer\<close> and \<open>re.sub(\<dots>, "")\<close> over a matcher \<open>m\<close>: \<open>m i = Some j\<close> when the engine,
  started at \<open>i\<close>, matches up to \<open>j\<close>. After a match the scan goes on at its end (one further
  after an empty one), after a failure at the next position.
\<close>

definition slice :: "nat \<Rightarrow> nat \<Rightarrow> string \<Rightarrow> string" where
  "slice i j s = take (j - i) (drop i s)"

definition first_end :: "re \<Rightarrow> string \<Rightarrow> nat \<Rightarrow> nat option" where
  "first_end r s i = (case ends r s i of [] \<Rightarrow> None | j # _ \<Rightarrow> Some j)"

function finditer :: "(nat \<Rightarrow> nat option) \<Rightarrow> nat \<Rightarrow> nat \<Rightarrow> (nat \<times> nat) list" where
  "finditer m n i =
     (if n < i then []
      else case m i of
        None \<Rightarrow> finditer m n (Suc i)
      | Some j \<Rightarrow> (i, j) # finditer m n (if i < j then j else Suc i))"
  by pat_completeness auto
termination by (relation "measure (\<lambda>(m, n, i). Suc n - i)") auto

declare finditer.simps [simp del]

lemma finditer_simps:
  "n < i \<Longrightarrow> finditer m n i = []"
  "i \<le> n \<Longrightarrow> m i = None \<Longrightarrow> finditer m n i = finditer m n (Suc i)"
  "i \<le> n \<Longrightarrow> m i = Some j \<Longrightarrow> finditer m n i = (i, j) # finditer m n (if i < j then j else Suc i)"
  by (simp_all add: finditer.simps [of m n i])

text \<open>The text outside the matches from position \<open>p\<close> on: \<open>re.sub\<close> with the empty string.\<close>

fun cut_out :: "string \<Rightarrow> nat \<Rightarrow> (nat \<times> nat) list \<Rightarrow> string" where
  "cut_out s p [] = drop p s"
| "cut_out s p ((i, j) # ms) = slice p i s @ cut_out s j ms"

subsection \<open>Slices\<close>

lemma slice_append: "i \<le> k \<Longrightarrow> k \<le> j \<Longrightarrow> slice i k s @ slice k j s = slice i j s"
proof -
  assume "i \<le> k" "k \<le> j"
  then have "take (j - i) (drop i s) = take ((k - i) + (j - k)) (drop i s)" by simp
  also have "\<dots> = take (k - i) (drop i s) @ take (j - k) (drop (k - i) (drop i s))" by (rule take_add)
  finally show ?thesis using \<open>i \<le> k\<close> by (simp add: slice_def)
qed

lemma length_slice: "i \<le> j \<Longrightarrow> j \<le> length s \<Longrightarrow> length (slice i j s) = j - i"
  by (simp add: slice_def)

lemma slice_same [simp]: "slice i i s = []"
  by (simp add: slice_def)

lemma slice_all [simp]: "slice 0 (length s) s = s"
  by (simp add: slice_def)

lemma slice_one: "i < length s \<Longrightarrow> slice i (Suc i) s = [s ! i]"
  by (simp add: slice_def take_Suc_conv_app_nth [of 0])

lemma nth_slice: "i \<le> k \<Longrightarrow> k < j \<Longrightarrow> j \<le> length s \<Longrightarrow> slice i j s ! (k - i) = s ! k"
  by (simp add: slice_def)

lemma contains_slice: "contains s (slice i j s)"
proof -
  have "s = take i s @ take (j - i) (drop i s) @ drop (j - i) (drop i s)" by (simp only: append_take_drop_id)
  then show ?thesis unfolding contains_iff_sublist slice_def by blast
qed

subsection \<open>What a scan finds\<close>

lemma finditer_in:
  "(a, b) \<in> set (finditer m n i) \<Longrightarrow> i \<le> a \<and> a \<le> n \<and> m a = Some b"
proof (induction m n i rule: finditer.induct)
  case (1 m n i)
  show ?case
  proof (cases "n < i")
    case True
    then show ?thesis using "1.prems" by (simp add: finditer_simps)
  next
    case False
    show ?thesis
    proof (cases "m i")
      case None
      then show ?thesis using "1.IH"(1) [OF False None] "1.prems" False by (simp add: finditer_simps)
    next
      case (Some j)
      then show ?thesis using "1.IH"(2) [OF False Some] "1.prems" False
        by (auto simp: finditer_simps split: if_splits)
    qed
  qed
qed

text \<open>Matches do not overlap, and a position where a match starts is in or at the start of one
  that was found.\<close>

lemma finditer_apart:
  "finditer m n i = xs @ (a, b) # ys \<Longrightarrow> (c, d) \<in> set ys \<Longrightarrow> b \<le> c \<and> a < c"
proof (induction m n i arbitrary: xs rule: finditer.induct)
  case (1 m n i)
  have "\<not> n < i" using "1.prems"(1) by (auto simp: finditer_simps)
  show ?case
  proof (cases "m i")
    case None
    then show ?thesis using "1.IH"(1) [OF \<open>\<not> n < i\<close> None] "1.prems" \<open>\<not> n < i\<close> by (simp add: finditer_simps)
  next
    case (Some j)
    let ?next = "if i < j then j else Suc i"
    have f: "(i, j) # finditer m n ?next = xs @ (a, b) # ys"
      using "1.prems"(1) \<open>\<not> n < i\<close> Some by (simp add: finditer_simps)
    show ?thesis
    proof (cases xs)
      case Nil
      then have "ys = finditer m n ?next \<and> a = i \<and> b = j"
        using f by (metis append_Nil list.inject prod.inject)
      then have "(c, d) \<in> set (finditer m n ?next)" "a = i" "b = j" using "1.prems"(2) by blast+
      then show ?thesis using finditer_in [of c d m n ?next] by (auto split: if_splits)
    next
      case (Cons x xs')
      then have "finditer m n ?next = xs' @ (a, b) # ys" using f by simp
      then show ?thesis using "1.IH"(2) [OF \<open>\<not> n < i\<close> Some] "1.prems"(2) by blast
    qed
  qed
qed

lemma finditer_covers:
  "i \<le> k \<Longrightarrow> k \<le> n \<Longrightarrow> m k \<noteq> None \<Longrightarrow> \<exists>(a, b) \<in> set (finditer m n i). a = k \<or> a < k \<and> k < b"
proof (induction m n i rule: finditer.induct)
  case (1 m n i)
  have "\<not> n < i" using "1.prems" by simp
  show ?case
  proof (cases "m i")
    case None
    then have "i \<noteq> k" using "1.prems"(3) by auto
    then show ?thesis
      using "1.IH"(1) [OF \<open>\<not> n < i\<close> None] "1.prems" \<open>\<not> n < i\<close> None by (simp add: finditer_simps)
  next
    case (Some j)
    let ?next = "if i < j then j else Suc i"
    show ?thesis
    proof (cases "k < ?next")
      case True
      then have "k = i \<or> i < k \<and> k < j" using "1.prems"(1) by (auto split: if_splits)
      then show ?thesis using \<open>\<not> n < i\<close> Some by (auto simp: finditer_simps)
    next
      case False
      then have "\<exists>(a, b) \<in> set (finditer m n ?next). a = k \<or> a < k \<and> k < b"
        using "1.IH"(2) [OF \<open>\<not> n < i\<close> Some] "1.prems" by simp
      then show ?thesis using \<open>\<not> n < i\<close> Some by (auto simp: finditer_simps)
    qed
  qed
qed

lemma finditer_length: "length (finditer m n i) \<le> Suc n - i"
proof (induction m n i rule: finditer.induct)
  case (1 m n i)
  then show ?case by (cases "n < i"; cases "m i") (auto simp: finditer_simps split: if_splits)
qed

subsection \<open>Runs of a character class\<close>

lemma ends_Star_Cls:
  "j \<in> set (ends (Star (Cls p)) s i) \<longleftrightarrow> i \<le> j \<and> (j = i \<or> j \<le> length s) \<and> list_all p (slice i j s)"
proof -
  have nth: "(\<forall>k. i \<le> k \<and> k < j \<longrightarrow> p (s ! k)) \<longleftrightarrow> list_all p (slice i j s)" if "i \<le> j" "j \<le> length s"
  proof -
    have "(\<forall>k. i \<le> k \<and> k < j \<longrightarrow> p (s ! k)) \<longleftrightarrow> (\<forall>m < j - i. p (s ! (i + m)))"
      using that(1) by (metis add.commute le_add1 le_add_diff_inverse2 less_diff_conv nat_add_left_cancel_less add_diff_inverse_nat not_less)
    also have "\<dots> \<longleftrightarrow> list_all p (slice i j s)"
      using that by (simp add: list_all_length length_slice) (simp add: slice_def)
    finally show ?thesis .
  qed
  have "j \<in> set (ends (Star (Cls p)) s i) \<longleftrightarrow>
     i \<le> j \<and> j \<le> i + (length s - i) \<and> (j = i \<or> j \<le> length s) \<and> (\<forall>k. i \<le> k \<and> k < j \<longrightarrow> p (s ! k))"
    by (simp add: set_iter_class del: ends.simps(2)) 
  then show ?thesis using nth by (cases "j = i") auto
qed

lemma ends_Cls: "j \<in> set (ends (Cls p) s i) \<longleftrightarrow> i < length s \<and> j = Suc i \<and> p (s ! i)"
  by auto

lemma ends_plus_Cls:
  "j \<in> set (ends (plus (Cls p)) s i) \<longleftrightarrow> i < j \<and> j \<le> length s \<and> list_all p (slice i j s)"
proof
  assume "j \<in> set (ends (plus (Cls p)) s i)"
  then have i: "i < length s" "p (s ! i)" and rest: "j \<in> set (ends (Star (Cls p)) s (Suc i))"
    by (auto simp: plus_def simp del: ends.simps(5) split: if_splits)
  have "Suc i \<le> j" "j \<le> length s" "list_all p (slice (Suc i) j s)" 
    using rest i unfolding ends_Star_Cls by auto
  moreover from this have "slice i j s = s ! i # slice (Suc i) j s"
    using slice_append [of i "Suc i" j s] slice_one [OF i(1)] by simp
  ultimately show "i < j \<and> j \<le> length s \<and> list_all p (slice i j s)" using i by simp
next
  assume a: "i < j \<and> j \<le> length s \<and> list_all p (slice i j s)"
  then have "slice i j s = s ! i # slice (Suc i) j s"
    using slice_append [of i "Suc i" j s] slice_one [of i s] by simp
  then have "p (s ! i)" "list_all p (slice (Suc i) j s)" using a by simp_all
  then have "j \<in> set (ends (Star (Cls p)) s (Suc i))" using a by (simp add: ends_Star_Cls del: ends.simps)
  then show "j \<in> set (ends (plus (Cls p)) s i)" using a \<open>p (s ! i)\<close> by (simp add: plus_def del: ends.simps(5))
qed

end
