(* ===== verification/Page_Text.thy ===== *)
theory Page_Text
  imports Py_Scan Netra_Models
begin

text \<open>
  What the program reads out of texts: issue keys (\<open>confluence/extraction/issue_key_parser.py\<close>
  and the \<open>JiraKey\<close> validator of \<open>confluence/models/extraction.py\<close>), the sections of a page
  (\<open>confluence/client/html_extractor.py\<close>) and the page id in a URL
  (\<open>confluence/client/url_parser.py\<close>).
\<close>

subsection \<open>Issue keys\<close>

definition key_char :: "char \<Rightarrow> bool" where
  "key_char c \<longleftrightarrow> is_ascii_upper c \<or> is_digit c"

text \<open>\<open>[A-Z][A-Z0-9]*_?[A-Z0-9]+-\d+\<close>\<close>

definition ISSUE_KEY :: re where
  "ISSUE_KEY = Seq (Cls is_ascii_upper) (Seq (Star (Cls key_char)) (Seq (opt (Cls (\<lambda>c. c = CHR ''_'')))
     (Seq (plus (Cls key_char)) (Seq (Cls (\<lambda>c. c = CHR ''-'')) (plus (Cls is_digit))))))"

definition JIRA_KEY_RE :: re where
  "JIRA_KEY_RE = Seq WordB (Seq ISSUE_KEY WordB)"

definition FALSE_POSITIVES :: "string list" where
  "FALSE_POSITIVES = [''HTTP-200'', ''HTTP-201'', ''HTTP-400'', ''HTTP-401'', ''HTTP-403'', ''HTTP-404'',
     ''HTTP-422'', ''HTTP-500'', ''HTTP-503'', ''CSS-1'', ''CSS-2'', ''CSS-3'', ''API-1'', ''API-2'',
     ''RFC-7231'', ''RFC-6749'', ''ISO-8601'', ''UTF-8'', ''UTF-16'', ''SHA-256'', ''MD-5'']"

definition key_matches :: "string \<Rightarrow> (nat \<times> nat) list" where
  "key_matches s = finditer (first_end JIRA_KEY_RE s) (length s) 0"

definition extract_issue_keys :: "string \<Rightarrow> string list" where
  "extract_issue_keys s =
     dedup (filter (\<lambda>k. k \<notin> set FALSE_POSITIVES) (map (\<lambda>(i, j). slice i j s) (key_matches s)))"

text \<open>\<open>_validate_jira_key\<close>; \<open>type_name v\<close> is \<open>type(v).__name__\<close>.\<close>

definition VALID_KEY_RE :: re where
  "VALID_KEY_RE = Seq BeginS (Seq ISSUE_KEY EndS)"

definition validate_jira_key :: "(pyval \<Rightarrow> string) \<Rightarrow> pyval \<Rightarrow> exn + string" where
  "validate_jira_key type_name v =
     (case v of
        PStr s \<Rightarrow>
          if re_match VALID_KEY_RE s then Inr s
          else Inl (ValueError ([CHR 0x27] @ s @ [CHR 0x27] @ '' is not a valid Jira issue key (expected PROJECT-123 format)''))
      | _ \<Rightarrow> Inl (ValueError (''JiraKey must be a string, got '' @ type_name v)))"

subsection \<open>Sections of a page\<close>

text \<open>
  \<open>html.parser\<close> is a function from a text to the data it passes to \<open>handle_data\<close>. The
  heading pattern \<open><h[1-6][^>]*>(.*?)</h[1-6]>\<close> is matched in its three parts: the opening tag
  ends in one way only, and the lazy group runs to the first closing tag.
\<close>

definition strip_html :: "(string \<Rightarrow> string list) \<Rightarrow> string \<Rightarrow> string" where
  "strip_html data html = join '' '' (filter (\<lambda>d. d \<noteq> []) (map strip (data html)))"

definition heading_level :: re where
  "heading_level = Seq (lit_ic ''h'') (Cls (\<lambda>c. CHR ''1'' \<le> c \<and> c \<le> CHR ''6''))"

definition OPEN_HEADING :: re where
  "OPEN_HEADING = Seq (lit ''<'') (Seq heading_level (Seq (Star (Cls (\<lambda>c. c \<noteq> CHR ''>''))) (lit ''>'')))"

definition CLOSE_HEADING :: re where
  "CLOSE_HEADING = Seq (lit ''</'') (Seq heading_level (lit ''>''))"

definition TAG_RE :: re where
  "TAG_RE = Seq (lit ''<'') (Seq (plus (Cls (\<lambda>c. c \<noteq> CHR ''>''))) (lit ''>''))"

text \<open>Of a heading that starts at \<open>i\<close>: the group and the end of the match.\<close>

definition heading_at :: "string \<Rightarrow> nat \<Rightarrow> (nat \<times> nat \<times> nat) option" where
  "heading_at html i =
     (case first_end OPEN_HEADING html i of
        None \<Rightarrow> None
      | Some k \<Rightarrow>
          (case filter (\<lambda>j. first_end CLOSE_HEADING html j \<noteq> None) [k..<Suc (length html)] of
             [] \<Rightarrow> None
           | j # _ \<Rightarrow> Some (k, j, the (first_end CLOSE_HEADING html j))))"

definition heading_end :: "string \<Rightarrow> nat \<Rightarrow> nat option" where
  "heading_end html i = map_option (\<lambda>(k, j, e). e) (heading_at html i)"

definition heading_matches :: "string \<Rightarrow> (nat \<times> nat) list" where
  "heading_matches html = finditer (heading_end html) (length html) 0"

definition strip_tags :: "string \<Rightarrow> string" where
  "strip_tags s = cut_out s 0 (finditer (first_end TAG_RE s) (length s) 0)"

definition heading_text :: "string \<Rightarrow> nat \<Rightarrow> string" where
  "heading_text html i =
     (case heading_at html i of None \<Rightarrow> [] | Some (k, j, e) \<Rightarrow> strip (strip_tags (slice k j html)))"

fun sections_onto :: "(string \<Rightarrow> string list) \<Rightarrow> string \<Rightarrow> (string \<times> string) list \<Rightarrow> int \<Rightarrow>
    (nat \<times> nat) list \<Rightarrow> (string \<times> string) list \<Rightarrow> (string \<times> string) list" where
  "sections_onto data html target_lower max_chars [] sections = sections"
| "sections_onto data html target_lower max_chars ((start, stop) # ms) sections =
     (case map_of target_lower (lower (heading_text html start)) of
        None \<Rightarrow> sections_onto data html target_lower max_chars ms sections
      | Some original \<Rightarrow>
          let content_end = (case ms of [] \<Rightarrow> length html | (next, _) # _ \<Rightarrow> next)
          in sections_onto data html target_lower max_chars ms
               (AList.update original (py_take max_chars (strip_html data (slice stop content_end html))) sections))"

definition extract_sections :: "(string \<Rightarrow> string list) \<Rightarrow> string \<Rightarrow> string list \<Rightarrow> int \<Rightarrow>
    (string \<times> string) list" where
  "extract_sections data html target_headings max_chars =
     (if target_headings = [] then []
      else sections_onto data html (dict_of (map (\<lambda>h. (lower h, h)) target_headings)) max_chars
             (heading_matches html) [])"

subsection \<open>The page id of a URL\<close>

definition PATH_ID_RE :: re where
  "PATH_ID_RE = Seq (lit ''/pages/'') (Seq (plus (Cls is_digit))
     (Alt (Cls (\<lambda>c. c \<in> {CHR ''/'', CHR ''?'', CHR ''#''})) EndS))"

text \<open>
  \<open>urlparse(url).query\<close>: leading blanks and controls and all tabs and line breaks are dropped;
  a host with one bracket raises, and one with both is checked by \<open>bracket_ok\<close>.
\<close>

definition clean_url :: "string \<Rightarrow> string" where
  "clean_url url = filter (\<lambda>c. ord_of c \<notin> {9, 10, 13}) (dropWhile (\<lambda>c. ord_of c \<le> 32) url)"

definition is_scheme :: "string \<Rightarrow> bool" where
  "is_scheme s \<longleftrightarrow> (case s of [] \<Rightarrow> False | c # _ \<Rightarrow> is_ascii_upper c \<or> is_ascii_lower c) \<and>
     list_all (\<lambda>c. is_ascii_upper c \<or> is_ascii_lower c \<or> is_digit c \<or> c \<in> {CHR ''+'', CHR ''-'', CHR ''.''}) s"

definition netloc_of :: "string \<Rightarrow> string option" where
  "netloc_of url =
     (let scheme = takeWhile (\<lambda>c. c \<noteq> CHR '':'') url;
          rest = (if scheme \<noteq> url \<and> is_scheme scheme then drop (Suc (length scheme)) url else url)
      in if startswith rest ''//''
         then Some (takeWhile (\<lambda>c. c \<notin> {CHR ''/'', CHR ''?'', CHR ''#''}) (drop 2 rest)) else None)"

definition url_query :: "(string \<Rightarrow> bool) \<Rightarrow> string \<Rightarrow> exn + string" where
  "url_query bracket_ok url0 =
     (let url = clean_url url0;
          bad = (case netloc_of url of
                   None \<Rightarrow> False
                 | Some host \<Rightarrow>
                     (CHR ''['' \<in> set host) \<noteq> (CHR '']'' \<in> set host) \<or>
                     CHR ''['' \<in> set host \<and> \<not> bracket_ok host)
      in if bad then Inl (ValueError ''Invalid IPv6 URL'')
         else Inr (drop 1 (dropWhile (\<lambda>c. c \<noteq> CHR ''?'') (takeWhile (\<lambda>c. c \<noteq> CHR ''#'') url))))"

text \<open>\<open>parse_qs(query).get(name)\<close>; \<open>unquote\<close> decodes the percent escapes.\<close>

definition qs_values :: "(string \<Rightarrow> string) \<Rightarrow> string \<Rightarrow> string \<Rightarrow> string list" where
  "qs_values unquote name query =
     concat (map (\<lambda>pair.
        let key = takeWhile (\<lambda>c. c \<noteq> CHR ''='') pair; v = drop (Suc (length key)) pair;
            plain = (\<lambda>s. unquote (replace_char (CHR ''+'') '' '' s))
        in if v \<noteq> [] \<and> plain key = name then [plain v] else [])
      (split_char (CHR ''&'') query))"

definition extract_page_id :: "(string \<Rightarrow> string) \<Rightarrow> (string \<Rightarrow> bool) \<Rightarrow> string \<Rightarrow> exn + string option" where
  "extract_page_id unquote bracket_ok url =
     (case re_search PATH_ID_RE url of
        Some (i, _) \<Rightarrow> Inr (Some (takeWhile is_digit (drop (i + 7) url)))
      | None \<Rightarrow>
          (case url_query bracket_ok url of
             Inl e \<Rightarrow> Inl e
           | Inr query \<Rightarrow>
               (case qs_values unquote ''pageId'' query of
                  [] \<Rightarrow> Inr None
                | v # _ \<Rightarrow> Inr (Some v))))"

lemma samples:
  "extract_issue_keys ''see AB-12, UTF-8 and X_Y2-3; AB-12 again'' = [''AB-12'', ''X_Y2-3'']"
  "extract_sections (\<lambda>s. [s]) ''a<h2 id=1>At <b>Risk</b></h2> x <H3>Other</H3>y'' [''At Risk''] 100 = [(''At Risk'', ''x'')]"
  "extract_page_id (\<lambda>s. s) (\<lambda>_. True) ''https://h/wiki/spaces/E/pages/123/T'' = Inr (Some ''123'')"
  "extract_page_id (\<lambda>s. s) (\<lambda>_. True) ''https://h/viewpage.action?x=1&pageId=abc#t'' = Inr (Some ''abc'')"
  "extract_page_id (\<lambda>s. s) (\<lambda>_. True) ''http://[x'' = Inl (ValueError ''Invalid IPv6 URL'')"
  "extract_page_id (\<lambda>s. s) (\<lambda>_. True) ''https://h/display/S/T'' = Inr None"
  by code_simp+

subsection \<open>Matches inside a slice\<close>

text \<open>A pattern without assertions sees only the text it matches.\<close>

primrec assertion_free :: "re \<Rightarrow> bool" where
  "assertion_free Eps = True"
| "assertion_free (Cls p) = True"
| "assertion_free (Seq a b) = (assertion_free a \<and> assertion_free b)"
| "assertion_free (Alt a b) = (assertion_free a \<and> assertion_free b)"
| "assertion_free (Star a) = assertion_free a"
| "assertion_free (Upto n a) = False"
| "assertion_free WordB = False"
| "assertion_free BeginS = False"
| "assertion_free EndS = False"

lemma iter_self: "i \<in> set (iter f n i)"
  by (cases n) simp_all

lemma iter_slice:
  assumes "\<And>i j. p \<le> i \<Longrightarrow> j \<in> set (f i) \<Longrightarrow> j \<le> m \<Longrightarrow> j - p \<in> set (g (i - p))"
  shows "p \<le> i \<Longrightarrow> j \<in> set (iter f n i) \<Longrightarrow> j \<le> m \<Longrightarrow> j - i \<le> n' \<Longrightarrow> j - p \<in> set (iter g n' (i - p))"
proof (induction n arbitrary: i n')
  case 0
  then show ?case using iter_self [of "i - p" g n'] by simp
next
  case (Suc n)
  from Suc.prems(2) consider "j = i" | k where "k \<in> set (f i)" "i < k" "j \<in> set (iter f n k)"
    by (auto split: if_splits)
  then show ?case
  proof cases
    case 1
    then show ?thesis using iter_self [of "i - p" g n'] by simp
  next
    case 2
    have "k \<le> j" using ends_iter_mono 2(3) by blast
    then obtain n'' where n': "n' = Suc n''" using 2(2) Suc.prems(4) by (cases n') simp_all
    have "j - p \<in> set (iter g n'' (k - p))"
      using Suc.IH [of k n''] 2 Suc.prems n' \<open>k \<le> j\<close> by simp
    moreover have "k - p \<in> set (g (i - p))" using assms 2 Suc.prems \<open>k \<le> j\<close> by simp
    moreover have "i - p < k - p" using 2(2) Suc.prems(1) by simp
    ultimately show ?thesis unfolding n' by auto
  qed
qed

lemma ends_slice:
  assumes "assertion_free r" "m \<le> length s"
  shows "p \<le> i \<Longrightarrow> j \<in> set (ends r s i) \<Longrightarrow> j \<le> m \<Longrightarrow> j - p \<in> set (ends r (slice p m s) (i - p))"
  using assms(1)
proof (induction r arbitrary: i j)
  case (Cls q)
  then have "i < length s" "q (s ! i)" "j = Suc i" by (auto split: if_splits)
  then show ?case using Cls.prems assms(2) nth_slice [of p i m s] by (simp add: length_slice Suc_diff_le)
next
  case (Seq a b)
  then obtain k where k: "k \<in> set (ends a s i)" "j \<in> set (ends b s k)" by auto
  then have "i \<le> k" "k \<le> j" using ends_ge by blast+
  then have "k - p \<in> set (ends a (slice p m s) (i - p))" "j - p \<in> set (ends b (slice p m s) (k - p))"
    using Seq.IH k Seq.prems by simp_all
  then show ?case by auto
next
  case (Star a)
  have "j \<in> set (iter (ends a s) (length s - i) i)" using Star.prems by simp
  moreover have "j - i \<le> length (slice p m s) - (i - p)"
    using Star.prems assms(2) by (simp add: slice_def)
  ultimately have "j - p \<in> set (iter (ends a (slice p m s)) (length (slice p m s) - (i - p)) (i - p))"
    using Star by (intro iter_slice [where f = "ends a s" and m = m]) simp_all
  then show ?case by simp
qed auto

lemma key_free [simp]: "assertion_free ISSUE_KEY"
  by (simp add: ISSUE_KEY_def opt_def plus_def)

lemma whole_slice_matches:
  assumes "assertion_free r" "j \<in> set (ends r s i)" "i \<le> length s"
  shows "re_match (Seq BeginS (Seq r EndS)) (slice i j s)"
proof -
  have j: "i \<le> j" "j \<le> length s" using assms ends_ge ends_le by blast+
  then have "j - i \<in> set (ends r (slice i j s) 0)" using ends_slice [OF assms(1) j(2) _ assms(2), of i] by simp
  moreover have "length (slice i j s) = j - i" using j by (rule length_slice)
  ultimately have "j - i \<in> set (ends (Seq BeginS (Seq r EndS)) (slice i j s) 0)"
    by (auto simp: at_dollar_def)
  then show ?thesis unfolding re_match_def ends_nonempty by blast
qed

lemma first_end_in: "first_end r s i = Some j \<Longrightarrow> j \<in> set (ends r s i)"
  by (auto simp: first_end_def split: list.splits)

subsection \<open>Properties\<close>

text \<open>C39: what is extracted are issue keys: every extracted key passes the \<open>JiraKey\<close> validator
  unchanged, occurs in the text and is not a known false positive, and none is extracted twice;
  and no match of the pattern is overlooked: wherever one starts, that position is in a match
  that was taken.\<close>

theorem extracted_keys_are_valid:
  "list_all (\<lambda>k. validate_jira_key type_name (PStr k) = Inr k \<and> contains text k \<and> k \<notin> set FALSE_POSITIVES)
     (extract_issue_keys text) \<and>
   distinct (extract_issue_keys text) \<and>
   list_all (\<lambda>i. \<exists>(a, b) \<in> set (key_matches text). a = i \<or> a < i \<and> i < b)
     (filter (\<lambda>i. ends JIRA_KEY_RE text i \<noteq> []) [0..<Suc (length text)])"
proof (intro conjI)
  have "re_match VALID_KEY_RE k \<and> contains text k" if hit: "k \<in> (\<lambda>(i, j). slice i j text) ` set (key_matches text)" for k
  proof -
    obtain x where x: "x \<in> set (key_matches text)" "k = (case x of (i, j) \<Rightarrow> slice i j text)" using hit by blast
    obtain i j where "x = (i, j)" by (cases x)
    then have k: "k = slice i j text" and ij: "(i, j) \<in> set (key_matches text)" using x by simp_all
    have i: "i \<le> length text" and m: "j \<in> set (ends JIRA_KEY_RE text i)"
      using finditer_in [OF ij [unfolded key_matches_def]] first_end_in by blast+
    then have "j \<in> set (ends ISSUE_KEY text i)" by (auto simp: JIRA_KEY_RE_def split: if_splits)
    then have "re_match VALID_KEY_RE k"
      unfolding k VALID_KEY_RE_def by (rule whole_slice_matches [OF key_free _ i])
    then show ?thesis using k contains_slice by simp
  qed
  then show "list_all (\<lambda>k. validate_jira_key type_name (PStr k) = Inr k \<and> contains text k \<and> k \<notin> set FALSE_POSITIVES)
     (extract_issue_keys text)"
    by (auto simp: list_all_iff extract_issue_keys_def validate_jira_key_def)
  show "distinct (extract_issue_keys text)" by (simp add: extract_issue_keys_def)
  show "list_all (\<lambda>i. \<exists>(a, b) \<in> set (key_matches text). a = i \<or> a < i \<and> i < b)
     (filter (\<lambda>i. ends JIRA_KEY_RE text i \<noteq> []) [0..<Suc (length text)])"
    unfolding list_all_iff
  proof
    fix i assume "i \<in> set (filter (\<lambda>i. ends JIRA_KEY_RE text i \<noteq> []) [0..<Suc (length text)])"
    then have i: "i \<le> length text" "ends JIRA_KEY_RE text i \<noteq> []" by (simp_all del: upt_Suc)
    then have "first_end JIRA_KEY_RE text i \<noteq> None" by (simp add: first_end_def split: list.split)
    then show "\<exists>(a, b) \<in> set (key_matches text). a = i \<or> a < i \<and> i < b"
      using i(1) unfolding key_matches_def by (intro finditer_covers) simp_all
  qed
qed

text \<open>The validator lets one line feed pass after a key, since \<open>$\<close> matches before it.\<close>

theorem key_with_line_feed_is_valid:
  "validate_jira_key type_name (PStr (''AB-1'' @ [CHR 0x0A])) = Inr (''AB-1'' @ [CHR 0x0A])"
proof -
  have "re_match VALID_KEY_RE (''AB-1'' @ [CHR 0x0A])" by code_simp
  then show ?thesis by (simp add: validate_jira_key_def)
qed

text \<open>The id of a \<open>viewpage\<close> URL is whatever text the parameter holds, and a malformed host
  raises.\<close>

theorem page_ids_of_odd_urls:
  "extract_page_id (\<lambda>s. s) (\<lambda>_. True) ''https://h/viewpage.action?pageId=abc'' = Inr (Some ''abc'') \<and>
   extract_page_id (\<lambda>s. s) (\<lambda>_. True) ''http://[x'' = Inl (ValueError ''Invalid IPv6 URL'')"
  by code_simp

text \<open>A page id taken from the path is a nonempty run of digits.\<close>

lemma ends_lit: "j \<in> set (ends (lit t) s i) \<Longrightarrow> j = i + length t"
proof (induction t arbitrary: i)
  case (Cons c t)
  have "j \<in> set (ends (lit t) s (Suc i))" using Cons.prems by (auto split: if_splits)
  then show ?case using Cons.IH [of "Suc i"] by simp
qed simp

lemma path_ids_are_numeric:
  assumes "re_search PATH_ID_RE url \<noteq> None"
  shows "\<exists>d. extract_page_id unquote bracket_ok url = Inr (Some d) \<and> d \<noteq> [] \<and> list_all is_digit d"
proof -
  obtain i j where s: "re_search PATH_ID_RE url = Some (i, j)" using assms by auto
  have "j \<in> set (ends PATH_ID_RE url i)" by (rule re_search_SomeD(1) [OF s])
  then obtain k m where k: "k \<in> set (ends (lit ''/pages/'') url i)" and m0: "m \<in> set (ends (plus (Cls is_digit)) url k)"
    unfolding PATH_ID_RE_def in_ends_Seq by blast
  have "k = i + 7" using ends_lit [OF k] by simp
  then have "m \<in> set (ends (plus (Cls is_digit)) url (i + 7))" using m0 by (simp only:)
  then have m: "i + 7 < m" "m \<le> length url" "list_all is_digit (slice (i + 7) m url)"
    unfolding ends_plus_Cls by blast+
  have "i + 7 < length url" using m by linarith
  then have "drop (i + 7) url = url ! (i + 7) # drop (Suc (i + 7)) url" by (rule Cons_nth_drop_Suc [symmetric])
  moreover have "is_digit (slice (i + 7) m url ! 0)" using m by (simp add: list_all_length length_slice)
  then have "is_digit (url ! (i + 7))" using m nth_slice [of "i + 7" "i + 7" m url] by simp
  ultimately have "takeWhile is_digit (drop (i + 7) url) \<noteq> []" by simp
  then show ?thesis using s by (auto simp: extract_page_id_def list_all_iff dest: set_takeWhileD)
qed

end
