(* ===== verification/Single_Flight.thy ===== *)
theory Single_Flight
  imports Netra_Errors
begin

text \<open>
  The double-checked cache that \<open>ConfluenceClient.get_page_sections\<close>
  (\<open>confluence/client/client.py\<close>) and \<open>ContextExtractor.extract\<close>
  (\<open>confluence/extraction/extractor.py\<close>) share: look into the cache, take the lock of the key,
  look again, compute (a page fetch, an LLM call), store, release.

  Concurrent calls are tasks on one event loop. A task runs from one \<open>await\<close> to the next
  without interruption, so a run of the system is a list of events: run task \<open>i\<close> until it
  waits, or drop an entry of the cache (time to live, size limit). A lock is an
  \<open>asyncio.Lock\<close>: a flag and a queue of waiters; a task takes it at once only if it is free and
  nobody queues, and a queued task takes it when it is free and the task is the first.
  \<open>force_refresh\<close> skips both looks. The outcome of the computation of task \<open>i\<close> is
  \<open>compute i\<close>.
\<close>

datatype 'v pc = Entering | Waiting | Computing | Finished "exn + 'v"

record 'k dtask =
  t_key :: 'k
  t_force :: bool

record ('k, 'v) dstate =
  d_cache :: "('k \<times> 'v) list"
  d_locked :: "'k list"
  d_waiters :: "'k \<Rightarrow> nat list"
  d_pcs :: "'v pc list"
  d_started :: "'k list"
  d_failed :: "'k list"

definition cache_hit :: "'k dtask list \<Rightarrow> nat \<Rightarrow> ('k, 'v) dstate \<Rightarrow> 'v option" where
  "cache_hit tasks i st =
     (if t_force (tasks ! i) then None else map_of (d_cache st) (t_key (tasks ! i)))"

definition finish :: "nat \<Rightarrow> exn + 'v \<Rightarrow> ('k, 'v) dstate \<Rightarrow> ('k, 'v) dstate" where
  "finish i r st = st\<lparr>d_pcs := (d_pcs st)[i := Finished r]\<rparr>"

text \<open>The body of \<open>async with lock\<close> up to the computation; a hit leaves it at once.\<close>

definition critical :: "'k dtask list \<Rightarrow> nat \<Rightarrow> ('k, 'v) dstate \<Rightarrow> ('k, 'v) dstate" where
  "critical tasks i st =
     (case cache_hit tasks i st of
        Some v \<Rightarrow> finish i (Inr v) st
      | None \<Rightarrow> st\<lparr>d_locked := t_key (tasks ! i) # d_locked st, d_started := t_key (tasks ! i) # d_started st,
                  d_pcs := (d_pcs st)[i := Computing]\<rparr>)"

definition dc_run :: "'k dtask list \<Rightarrow> (nat \<Rightarrow> exn + 'v) \<Rightarrow> nat \<Rightarrow> ('k, 'v) dstate \<Rightarrow> ('k, 'v) dstate" where
  "dc_run tasks compute i st =
     (if length (d_pcs st) \<le> i then st
      else let k = t_key (tasks ! i)
        in case d_pcs st ! i of
             Entering \<Rightarrow>
               (case cache_hit tasks i st of
                  Some v \<Rightarrow> finish i (Inr v) st
                | None \<Rightarrow>
                    if k \<notin> set (d_locked st) \<and> d_waiters st k = [] then critical tasks i st
                    else st\<lparr>d_waiters := (d_waiters st)(k := d_waiters st k @ [i]),
                            d_pcs := (d_pcs st)[i := Waiting]\<rparr>)
           | Waiting \<Rightarrow>
               if k \<notin> set (d_locked st) \<and> d_waiters st k \<noteq> [] \<and> hd (d_waiters st k) = i
               then critical tasks i (st\<lparr>d_waiters := (d_waiters st)(k := tl (d_waiters st k))\<rparr>)
               else st
           | Computing \<Rightarrow>
               (case compute i of
                  Inl e \<Rightarrow> finish i (Inl e)
                    (st\<lparr>d_locked := removeAll k (d_locked st), d_failed := k # d_failed st\<rparr>)
                | Inr v \<Rightarrow> finish i (Inr v)
                    (st\<lparr>d_locked := removeAll k (d_locked st), d_cache := AList.update k v (d_cache st)\<rparr>))
           | Finished r \<Rightarrow> st)"

datatype 'k devent = Run nat | Evict 'k

fun dc_event :: "'k dtask list \<Rightarrow> (nat \<Rightarrow> exn + 'v) \<Rightarrow> ('k, 'v) dstate \<Rightarrow> 'k devent \<Rightarrow> ('k, 'v) dstate" where
  "dc_event tasks compute st (Run i) = dc_run tasks compute i st"
| "dc_event tasks compute st (Evict k) = st\<lparr>d_cache := AList.delete k (d_cache st)\<rparr>"

definition dc_start :: "('k \<times> 'v) list \<Rightarrow> 'k dtask list \<Rightarrow> ('k, 'v) dstate" where
  "dc_start cache tasks = \<lparr>d_cache = cache, d_locked = [], d_waiters = (\<lambda>_. []),
     d_pcs = replicate (length tasks) Entering, d_started = [], d_failed = []\<rparr>"

definition dc_runs :: "('k \<times> 'v) list \<Rightarrow> 'k dtask list \<Rightarrow> (nat \<Rightarrow> exn + 'v) \<Rightarrow> 'k devent list \<Rightarrow>
    ('k, 'v) dstate" where
  "dc_runs cache tasks compute events = foldl (dc_event tasks compute) (dc_start cache tasks) events"

definition finished :: "('k, 'v) dstate \<Rightarrow> bool" where
  "finished st \<longleftrightarrow> list_all (\<lambda>p. case p of Finished _ \<Rightarrow> True | _ \<Rightarrow> False) (d_pcs st)"

subsection \<open>Locks and queues\<close>

definition tasks_at :: "'v pc \<Rightarrow> 'v pc list \<Rightarrow> nat set" where
  "tasks_at p pcs = {i. i < length pcs \<and> pcs ! i = p}"

definition locks_ok :: "'k dtask list \<Rightarrow> ('k, 'v) dstate \<Rightarrow> bool" where
  "locks_ok tasks st \<longleftrightarrow>
     inj_on (\<lambda>i. t_key (tasks ! i)) (tasks_at Computing (d_pcs st)) \<and>
     set (d_locked st) = (\<lambda>i. t_key (tasks ! i)) ` tasks_at Computing (d_pcs st)"

definition queues_ok :: "'k dtask list \<Rightarrow> ('k, 'v) dstate \<Rightarrow> bool" where
  "queues_ok tasks st \<longleftrightarrow>
     (\<forall>k. distinct (d_waiters st k) \<and>
        set (d_waiters st k) = {i \<in> tasks_at Waiting (d_pcs st). t_key (tasks ! i) = k})"

lemma tasks_at_update:
  "i < length pcs \<Longrightarrow> tasks_at p (pcs[i := q]) = (if p = q then insert i (tasks_at p pcs) else tasks_at p pcs - {i})"
  by (auto simp: tasks_at_def nth_list_update)

lemma in_tasks_at: "i \<in> tasks_at p pcs \<longleftrightarrow> i < length pcs \<and> pcs ! i = p"
  by (simp add: tasks_at_def)

text \<open>The effect of one step, in five cases; every invariant is checked on these.\<close>

lemma dc_run_cases:
  obtains (idle) "dc_run tasks compute i st = st"
  | (hit) v w where "i < length (d_pcs st)" "dc_run tasks compute i st = finish i (Inr v) (st\<lparr>d_waiters := w\<rparr>)"
      "cache_hit tasks i st = Some v" "d_pcs st ! i = Entering \<and> w = d_waiters st \<or>
        d_pcs st ! i = Waiting \<and> d_waiters st (t_key (tasks ! i)) = i # w (t_key (tasks ! i)) \<and>
          w = (d_waiters st)(t_key (tasks ! i) := tl (d_waiters st (t_key (tasks ! i))))"
  | (lock) w where "i < length (d_pcs st)" "cache_hit tasks i st = None" "t_key (tasks ! i) \<notin> set (d_locked st)"
      "dc_run tasks compute i st = st\<lparr>d_waiters := w, d_locked := t_key (tasks ! i) # d_locked st,
         d_started := t_key (tasks ! i) # d_started st, d_pcs := (d_pcs st)[i := Computing]\<rparr>"
      "d_pcs st ! i = Entering \<and> w = d_waiters st \<or>
        d_pcs st ! i = Waiting \<and> d_waiters st (t_key (tasks ! i)) = i # w (t_key (tasks ! i)) \<and>
          w = (d_waiters st)(t_key (tasks ! i) := tl (d_waiters st (t_key (tasks ! i))))"
  | (queue) "i < length (d_pcs st)" "d_pcs st ! i = Entering"
      "dc_run tasks compute i st = st\<lparr>d_waiters := (d_waiters st)(t_key (tasks ! i) := d_waiters st (t_key (tasks ! i)) @ [i]),
         d_pcs := (d_pcs st)[i := Waiting]\<rparr>"
  | (failed) e where "i < length (d_pcs st)" "d_pcs st ! i = Computing" "compute i = Inl e"
      "dc_run tasks compute i st = finish i (Inl e)
         (st\<lparr>d_locked := removeAll (t_key (tasks ! i)) (d_locked st), d_failed := t_key (tasks ! i) # d_failed st\<rparr>)"
  | (stored) v where "i < length (d_pcs st)" "d_pcs st ! i = Computing" "compute i = Inr v"
      "dc_run tasks compute i st = finish i (Inr v)
         (st\<lparr>d_locked := removeAll (t_key (tasks ! i)) (d_locked st), d_cache := AList.update (t_key (tasks ! i)) v (d_cache st)\<rparr>)"
proof (cases "length (d_pcs st) \<le> i")
  case True
  then show thesis by (intro idle) (simp add: dc_run_def)
next
  case False
  then have i: "i < length (d_pcs st)" by simp
  let ?k = "t_key (tasks ! i)"
  note run = dc_run_def [of tasks compute i st] critical_def
  show thesis
  proof (cases "d_pcs st ! i")
    case Entering
    show thesis
    proof (cases "cache_hit tasks i st")
      case (Some v)
      then show thesis using i Entering by (intro hit [of v "d_waiters st"]) (simp_all add: run Let_def)
    next
      case None
      show thesis
      proof (cases "?k \<notin> set (d_locked st) \<and> d_waiters st ?k = []")
        case True
        then show thesis using i Entering None by (intro lock [of "d_waiters st"]) (simp_all add: run Let_def)
      next
        case False
        then have "dc_run tasks compute i st = st\<lparr>d_waiters := (d_waiters st)(?k := d_waiters st ?k @ [i]),
            d_pcs := (d_pcs st)[i := Waiting]\<rparr>"
          using i Entering None by (auto simp: dc_run_def Let_def)
        then show thesis using i Entering by (intro queue) simp_all
      qed
    qed
  next
    case Waiting
    show thesis
    proof (cases "?k \<notin> set (d_locked st) \<and> d_waiters st ?k \<noteq> [] \<and> hd (d_waiters st ?k) = i")
      case True
      let ?w = "(d_waiters st)(?k := tl (d_waiters st ?k))"
      have w: "d_waiters st ?k = i # ?w ?k" using True by (metis fun_upd_same list.collapse)
      have r: "dc_run tasks compute i st = critical tasks i (st\<lparr>d_waiters := ?w\<rparr>)"
        using True i Waiting by (simp add: dc_run_def Let_def)
      have c: "cache_hit tasks i (st\<lparr>d_waiters := ?w\<rparr>) = cache_hit tasks i st" by (simp add: cache_hit_def)
      show thesis
      proof (cases "cache_hit tasks i st")
        case (Some v)
        then show thesis using i Waiting w r c by (intro hit [of v ?w]) (simp_all add: critical_def)
      next
        case None
        then show thesis using i Waiting w r c True by (intro lock [of ?w]) (simp_all add: critical_def)
      qed
    next
      case False
      then show thesis using i Waiting by (intro idle) (auto simp: dc_run_def Let_def)
    qed
  next
    case Computing
    then show thesis
      using i by (cases "compute i") (rule failed stored; simp add: dc_run_def Let_def)+
  next
    case (Finished r)
    then show thesis using i by (intro idle) (simp add: dc_run_def)
  qed
qed

lemma pcs_dc_run [simp]: "length (d_pcs (dc_run tasks compute i st)) = length (d_pcs st)"
  by (cases rule: dc_run_cases [of tasks compute i st]) (simp_all add: finish_def)

lemma locks_ok_run:
  assumes ok: "locks_ok tasks st"
  shows "locks_ok tasks (dc_run tasks compute i st)"
proof -
  let ?key = "\<lambda>i. t_key (tasks ! i)"
  let ?C = "tasks_at Computing (d_pcs st)"
  have inj: "inj_on ?key ?C" and keys: "set (d_locked st) = ?key ` ?C" using ok by (simp_all add: locks_ok_def)
  have free: "inj_on ?key (?C - {i}) \<and> set (removeAll (?key i) (d_locked st)) = ?key ` (?C - {i})"
    if "i \<in> ?C"
    using inj that by (simp add: keys inj_on_diff inj_on_image_set_diff [OF inj])
  show ?thesis
  proof (cases rule: dc_run_cases [of tasks compute i st])
    case idle
    then show ?thesis using ok by simp
  next
    case (hit v w)
    then have "i \<notin> ?C" by (auto simp: in_tasks_at)
    then show ?thesis using inj keys hit(1) unfolding hit(2) locks_ok_def finish_def by (simp add: tasks_at_update)
  next
    case (lock w)
    then have "i \<notin> ?C" "?key i \<notin> ?key ` ?C" using keys by (auto simp: in_tasks_at)
    then show ?thesis using inj keys lock(1) unfolding lock(4) locks_ok_def by (simp add: tasks_at_update)
  next
    case queue
    then have "i \<notin> ?C" by (auto simp: in_tasks_at)
    then show ?thesis using inj keys queue(1) unfolding queue(3) locks_ok_def by (simp add: tasks_at_update)
  next
    case (failed e)
    then show ?thesis using free unfolding failed(4) locks_ok_def finish_def
      by (simp add: tasks_at_update in_tasks_at)
  next
    case (stored v)
    then show ?thesis using free unfolding stored(4) locks_ok_def finish_def
      by (simp add: tasks_at_update in_tasks_at)
  qed
qed

lemma queues_ok_run:
  assumes ok: "queues_ok tasks st"
  shows "queues_ok tasks (dc_run tasks compute i st)"
proof -
  let ?key = "\<lambda>i. t_key (tasks ! i)"
  let ?W = "tasks_at Waiting (d_pcs st)"
  have dist: "distinct (d_waiters st k)" and mem: "set (d_waiters st k) = {i \<in> ?W. ?key i = k}" for k
    using ok by (simp_all add: queues_ok_def)
  have pop: "distinct (w k) \<and> set (w k) = {j \<in> ?W - {i}. ?key j = k}"
    if "d_pcs st ! i = Entering \<and> w = d_waiters st \<or> d_pcs st ! i = Waiting \<and> d_waiters st (?key i) = i # w (?key i) \<and>
        w = (d_waiters st)(?key i := tl (d_waiters st (?key i)))" for w k
    using that
  proof
    assume "d_pcs st ! i = Entering \<and> w = d_waiters st"
    then have "w k = d_waiters st k" "i \<notin> ?W" by (simp_all add: in_tasks_at)
    then show ?thesis using dist [of k] mem [of k] by simp
  next
    assume e: "d_pcs st ! i = Waiting \<and> d_waiters st (?key i) = i # w (?key i) \<and>
        w = (d_waiters st)(?key i := tl (d_waiters st (?key i)))"
    show ?thesis
    proof (cases "k = ?key i")
      case True
      have q: "d_waiters st k = i # w k" unfolding True using e by blast
      have "distinct (i # w k)" using dist [of k] unfolding q .
      then have "distinct (w k)" "set (w k) = set (d_waiters st k) - {i}" unfolding q by auto
      then show ?thesis using mem [of k] by auto
    next
      case False
      then have "w k = d_waiters st k" using e by (metis fun_upd_other)
      then show ?thesis using False dist [of k] mem [of k] by auto
    qed
  qed
  show ?thesis
  proof (cases rule: dc_run_cases [of tasks compute i st])
    case idle
    then show ?thesis using ok by simp
  next
    case (hit v w)
    show ?thesis using pop [OF hit(4)] hit(1) unfolding hit(2) queues_ok_def finish_def by (simp add: tasks_at_update)
  next
    case (lock w)
    show ?thesis using pop [OF lock(5)] lock(1) unfolding lock(4) queues_ok_def by (simp add: tasks_at_update)
  next
    case queue
    then have "i \<notin> ?W" by (simp add: in_tasks_at)
    then show ?thesis using dist mem queue(1) unfolding queue(3) queues_ok_def
      by (auto simp: tasks_at_update)
  next
    case (failed e)
    then have "i \<notin> ?W" by (simp add: in_tasks_at)
    then show ?thesis using dist mem failed(1) unfolding failed(4) queues_ok_def finish_def
      by (simp add: tasks_at_update)
  next
    case (stored v)
    then have "i \<notin> ?W" by (simp add: in_tasks_at)
    then show ?thesis using dist mem stored(1) unfolding stored(4) queues_ok_def finish_def
      by (simp add: tasks_at_update)
  qed
qed

lemma locks_ok_event: "locks_ok tasks st \<Longrightarrow> locks_ok tasks (dc_event tasks compute st ev)"
  by (cases ev) (simp_all add: locks_ok_run, simp add: locks_ok_def)

lemma queues_ok_event: "queues_ok tasks st \<Longrightarrow> queues_ok tasks (dc_event tasks compute st ev)"
  by (cases ev) (simp_all add: queues_ok_run, simp add: queues_ok_def)

lemma start_ok: "locks_ok tasks (dc_start cache tasks)" "queues_ok tasks (dc_start cache tasks)"
  by (auto simp: locks_ok_def queues_ok_def dc_start_def tasks_at_def inj_on_def)

lemma foldl_invariant:
  assumes "P st" "\<And>st ev. ev \<in> set events \<Longrightarrow> P st \<Longrightarrow> P (f st ev)"
  shows "P (foldl f st events)"
  using assms by (induction events arbitrary: st) auto

lemma runs_ok: "locks_ok tasks (dc_runs cache tasks compute events)" "queues_ok tasks (dc_runs cache tasks compute events)"
  unfolding dc_runs_def by (rule foldl_invariant; simp add: start_ok locks_ok_event queues_ok_event)+

lemma length_event [simp]: "length (d_pcs (dc_event tasks compute st ev)) = length (d_pcs st)"
  by (cases ev) simp_all

lemma length_runs [simp]: "length (d_pcs (dc_runs cache tasks compute events)) = length tasks"
  unfolding dc_runs_def by (rule foldl_invariant) (simp_all add: dc_start_def)

subsection \<open>Counting computations\<close>

text \<open>
  Without \<open>force_refresh\<close> and evictions: the computations started for a key, and one for an entry the cache
  had at the start, are those that failed, the one in flight, and the one that filled the cache.
\<close>

definition one_if :: "bool \<Rightarrow> nat" where
  "one_if b = (if b then 1 else 0)"

definition counts_ok :: "('k \<times> 'v) list \<Rightarrow> 'k dtask list \<Rightarrow> ('k, 'v) dstate \<Rightarrow> bool" where
  "counts_ok cache tasks st \<longleftrightarrow>
     (\<forall>k. count_list (d_started st) k + one_if (k \<in> fst ` set cache) =
        count_list (d_failed st) k + one_if (k \<in> set (d_locked st)) + one_if (k \<in> fst ` set (d_cache st))) \<and>
     distinct (d_locked st) \<and> set (d_locked st) \<inter> fst ` set (d_cache st) = {}"

definition results_ok :: "'k dtask list \<Rightarrow> ('k, 'v) dstate \<Rightarrow> bool" where
  "results_ok tasks st \<longleftrightarrow>
     (\<forall>i v. i < length (d_pcs st) \<longrightarrow> d_pcs st ! i = Finished (Inr v) \<longrightarrow> map_of (d_cache st) (t_key (tasks ! i)) = Some v)"

lemma count_list_Cons: "count_list (x # xs) y = count_list xs y + one_if (y = x)"
  by (simp add: one_if_def)

lemma results_ok_update:
  assumes ok: "results_ok tasks st" and pcs: "d_pcs st' = (d_pcs st)[i := p]"
    and grow: "\<And>k v. map_of (d_cache st) k = Some v \<Longrightarrow> map_of (d_cache st') k = Some v"
    and new: "\<And>v. p = Finished (Inr v) \<Longrightarrow> map_of (d_cache st') (t_key (tasks ! i)) = Some v"
  shows "results_ok tasks st'"
  unfolding results_ok_def
proof (intro allI impI)
  fix j v
  assume j: "j < length (d_pcs st')" and v: "d_pcs st' ! j = Finished (Inr v)"
  show "map_of (d_cache st') (t_key (tasks ! j)) = Some v"
  proof (cases "j = i")
    case True
    then show ?thesis using new [of v] j v by (simp add: pcs)
  next
    case False
    then have "map_of (d_cache st) (t_key (tasks ! j)) = Some v"
      using ok j v by (simp add: pcs results_ok_def)
    then show ?thesis by (rule grow)
  qed
qed

lemma results_run:
  assumes plain: "\<not> t_force (tasks ! i)" and counts: "counts_ok cache tasks st" and ok: "results_ok tasks st"
    and locks: "locks_ok tasks st"
  shows "results_ok tasks (dc_run tasks compute i st)"
proof (cases rule: dc_run_cases [of tasks compute i st])
  case idle
  then show ?thesis using ok by simp
next
  case (hit v w)
  have "map_of (d_cache st) (t_key (tasks ! i)) = Some v" using hit(3) plain by (simp add: cache_hit_def)
  then show ?thesis
    by (intro results_ok_update [OF ok, where i = i and p = "Finished (Inr v)"]) (simp_all add: hit(2) finish_def)
next
  case (lock w)
  show ?thesis by (intro results_ok_update [OF ok, where i = i and p = Computing]) (simp_all add: lock(4))
next
  case queue
  show ?thesis by (intro results_ok_update [OF ok, where i = i and p = Waiting]) (simp_all add: queue(3))
next
  case (failed e)
  show ?thesis
    by (intro results_ok_update [OF ok, where i = i and p = "Finished (Inl e)"]) (simp_all add: failed(4) finish_def)
next
  case (stored v)
  have "t_key (tasks ! i) \<in> set (d_locked st)" using locks stored(1,2) by (auto simp: locks_ok_def in_tasks_at)
  then have "map_of (d_cache st) (t_key (tasks ! i)) = None"
    using counts unfolding map_of_eq_None_iff counts_ok_def by blast
  then show ?thesis
    by (intro results_ok_update [OF ok, where i = i and p = "Finished (Inr v)"]) (auto simp: stored(4) finish_def)
qed

lemma counts_run:
  assumes plain: "\<not> t_force (tasks ! i)" and ok: "counts_ok cache tasks st" and locks: "locks_ok tasks st"
  shows "counts_ok cache tasks (dc_run tasks compute i st)"
proof -
  let ?k = "t_key (tasks ! i)"
  have counts: "count_list (d_started st) k + one_if (k \<in> fst ` set cache) =
        count_list (d_failed st) k + one_if (k \<in> set (d_locked st)) + one_if (k \<in> fst ` set (d_cache st))" for k
    using ok by (simp add: counts_ok_def)
  have dist: "distinct (d_locked st)" and apart: "set (d_locked st) \<inter> fst ` set (d_cache st) = {}"
    using ok by (simp_all add: counts_ok_def)
  have held: "?k \<in> set (d_locked st)" if "i < length (d_pcs st)" "d_pcs st ! i = Computing"
    using locks that by (auto simp: locks_ok_def in_tasks_at)
  show ?thesis
  proof (cases rule: dc_run_cases [of tasks compute i st])
    case idle
    then show ?thesis using ok by simp
  next
    case (hit v w)
    show ?thesis unfolding hit(2) counts_ok_def finish_def using counts dist apart by simp
  next
    case (lock w)
    have none: "?k \<notin> fst ` set (d_cache st)" using lock(2) plain by (simp add: cache_hit_def map_of_eq_None_iff)
    have "count_list (?k # d_started st) k + one_if (k \<in> fst ` set cache) =
        count_list (d_failed st) k + one_if (k \<in> set (?k # d_locked st)) + one_if (k \<in> fst ` set (d_cache st))" for k
      using counts [of k] lock(3) none by (cases "k = ?k") (simp_all add: one_if_def)
    then show ?thesis using dist apart lock(3) none unfolding lock(4) counts_ok_def by simp
  next
    case queue
    show ?thesis unfolding queue(3) counts_ok_def using counts dist apart by simp
  next
    case (failed e)
    have "count_list (d_started st) k + one_if (k \<in> fst ` set cache) =
        count_list (?k # d_failed st) k + one_if (k \<in> set (removeAll ?k (d_locked st))) + one_if (k \<in> fst ` set (d_cache st))" for k
      using counts [of k] held [OF failed(1,2)] by (cases "k = ?k") (simp_all add: one_if_def)
    then show ?thesis using dist apart unfolding failed(4) counts_ok_def finish_def
      by (auto simp: distinct_removeAll)
  next
    case (stored v)
    have k: "?k \<in> set (d_locked st)" by (rule held [OF stored(1,2)])
    then have new: "?k \<notin> fst ` set (d_cache st)" using apart by blast
    have "count_list (d_started st) k + one_if (k \<in> fst ` set cache) =
        count_list (d_failed st) k + one_if (k \<in> set (removeAll ?k (d_locked st))) +
        one_if (k \<in> fst ` set (AList.update ?k v (d_cache st)))" for k
      using counts [of k] k new by (cases "k = ?k") (simp_all add: one_if_def keys_update)
    then show ?thesis using dist apart unfolding stored(4) counts_ok_def finish_def
      by (auto simp: distinct_removeAll keys_update)
  qed
qed

definition plain_run :: "'k dtask list \<Rightarrow> 'k devent list \<Rightarrow> bool" where
  "plain_run tasks events \<longleftrightarrow> list_all (\<lambda>t. \<not> t_force t) tasks \<and>
     list_all (\<lambda>ev. case ev of Run _ \<Rightarrow> True | Evict _ \<Rightarrow> False) events"

lemma plain_runs_ok:
  assumes "plain_run tasks events"
  shows "counts_ok cache tasks (dc_runs cache tasks compute events) \<and>
     results_ok tasks (dc_runs cache tasks compute events)"
proof -
  let ?P = "\<lambda>st. length (d_pcs st) = length tasks \<and> locks_ok tasks st \<and> counts_ok cache tasks st \<and> results_ok tasks st"
  have "?P (dc_event tasks compute st ev)" if ev: "ev \<in> set events" and P: "?P st" for st ev
  proof -
    obtain i where e: "ev = Run i" using assms ev by (cases ev) (auto simp: plain_run_def list_all_iff)
    show ?thesis
    proof (cases "i < length tasks")
      case True
      then have "\<not> t_force (tasks ! i)" using assms by (simp add: plain_run_def list_all_length)
      then show ?thesis
        using P e counts_run [of tasks i cache st compute] results_run [of tasks i cache st compute]
        by (simp add: locks_ok_run)
    next
      case False
      then show ?thesis using P e by (simp add: dc_run_def)
    qed
  qed
  moreover have "?P (dc_start cache tasks)"
    by (simp add: start_ok) (simp add: counts_ok_def results_ok_def dc_start_def one_if_def)
  ultimately have "?P (foldl (dc_event tasks compute) (dc_start cache tasks) events)"
    by (intro foldl_invariant [of ?P])
  then show ?thesis by (simp add: dc_runs_def)
qed

subsection \<open>Progress\<close>

fun pc_work :: "'v pc \<Rightarrow> nat" where
  "pc_work Entering = 3"
| "pc_work Waiting = 2"
| "pc_work Computing = 1"
| "pc_work (Finished _) = 0"

definition work :: "('k, 'v) dstate \<Rightarrow> nat" where
  "work st = sum_list (map pc_work (d_pcs st))"

lemma sum_list_update_less:
  fixes xs :: "nat list"
  shows "i < length xs \<Longrightarrow> y < xs ! i \<Longrightarrow> sum_list (xs[i := y]) < sum_list xs"
proof (induction xs arbitrary: i)
  case (Cons x xs)
  then show ?case by (cases i) simp_all
qed simp

lemma work_update:
  "i < length (d_pcs st) \<Longrightarrow> pc_work p < pc_work (d_pcs st ! i) \<Longrightarrow>
     sum_list (map pc_work ((d_pcs st)[i := p])) < work st"
  using sum_list_update_less [of i "map pc_work (d_pcs st)" "pc_work p"] by (simp add: work_def map_update)

lemma step_works: "dc_run tasks compute i st = st \<or> work (dc_run tasks compute i st) < work st"
proof (cases rule: dc_run_cases [of tasks compute i st])
  case (hit v w)
  then have "pc_work (Finished (Inr v)) < pc_work (d_pcs st ! i)" by auto
  from work_update [OF hit(1) this] show ?thesis by (simp add: hit(2) finish_def work_def)
next
  case (lock w)
  then have "pc_work Computing < pc_work (d_pcs st ! i)" by auto
  from work_update [OF lock(1) this] show ?thesis by (simp add: lock(4) work_def)
next
  case queue
  then have "pc_work Waiting < pc_work (d_pcs st ! i)" by simp
  from work_update [OF queue(1) this] show ?thesis by (simp add: queue(3) work_def)
next
  case (failed e)
  then have "pc_work (Finished (Inl e)) < pc_work (d_pcs st ! i)" by simp
  from work_update [OF failed(1) this] show ?thesis by (simp add: failed(4) finish_def work_def)
next
  case (stored v)
  then have "pc_work (Finished (Inr v)) < pc_work (d_pcs st ! i)" by simp
  from work_update [OF stored(1) this] show ?thesis by (simp add: stored(4) finish_def work_def)
qed simp

text \<open>Somebody can always move: the task that computes, or one that enters, or the first of a queue.\<close>

lemma somebody_moves:
  assumes "locks_ok tasks st" "queues_ok tasks st" "\<not> finished st"
  shows "\<exists>i. dc_run tasks compute i st \<noteq> st"
proof -
  obtain i where i: "i < length (d_pcs st)" and ni: "\<nexists>r. d_pcs st ! i = Finished r"
  proof -
    obtain i where "i < length (d_pcs st)" "\<not> (case d_pcs st ! i of Finished _ \<Rightarrow> True | _ \<Rightarrow> False)"
      using assms(3) unfolding finished_def list_all_length by blast
    then show ?thesis by (intro that [of i]) auto
  qed
  have moved: "dc_run tasks compute j st \<noteq> st" if "d_pcs (dc_run tasks compute j st) ! j \<noteq> d_pcs st ! j" for j
    using that by metis
  consider (computing) j where "j < length (d_pcs st)" "d_pcs st ! j = Computing"
    | (entering) "d_pcs st ! i = Entering" "tasks_at Computing (d_pcs st) = {}"
    | (waiting) "d_pcs st ! i = Waiting" "tasks_at Computing (d_pcs st) = {}"
    using ni i by (cases "d_pcs st ! i") (auto simp: tasks_at_def)
  then show ?thesis
  proof cases
    case computing
    then have "dc_run tasks compute j st \<noteq> st"
      by (intro moved) (simp add: dc_run_def finish_def Let_def split: sum.split)
    then show ?thesis by blast
  next
    case entering
    then have "dc_run tasks compute i st \<noteq> st"
      using i by (intro moved) (simp add: dc_run_def finish_def critical_def Let_def split: option.split)
    then show ?thesis by blast
  next
    case waiting
    let ?k = "t_key (tasks ! i)"
    have free: "d_locked st = []" using assms(1) waiting(2) by (simp add: locks_ok_def)
    have "i \<in> set (d_waiters st ?k)" using assms(2) waiting(1) i by (simp add: queues_ok_def in_tasks_at)
    then obtain j ws where q: "d_waiters st ?k = j # ws" by (cases "d_waiters st ?k") auto
    then have "j \<in> set (d_waiters st ?k)" by simp
    then have j: "j < length (d_pcs st)" "d_pcs st ! j = Waiting" "t_key (tasks ! j) = ?k"
      using assms(2) unfolding queues_ok_def by (auto simp: in_tasks_at)
    then have "dc_run tasks compute j st \<noteq> st"
      using q free by (intro moved) (simp add: dc_run_def finish_def critical_def cache_hit_def Let_def split: option.split)
    then show ?thesis by blast
  qed
qed

lemma can_finish:
  assumes "locks_ok tasks st" "queues_ok tasks st"
  shows "\<exists>js. length js \<le> work st \<and> finished (foldl (\<lambda>st i. dc_run tasks compute i st) st js)"
  using assms
proof (induction "work st" arbitrary: st rule: less_induct)
  case less
  show ?case
  proof (cases "finished st")
    case True
    then show ?thesis by (intro exI [of _ "[]"]) simp
  next
    case False
    then obtain i where i: "dc_run tasks compute i st \<noteq> st" using somebody_moves less.prems by blast
    let ?st = "dc_run tasks compute i st"
    have w: "work ?st < work st" using step_works i by blast
    obtain js where "length js \<le> work ?st" "finished (foldl (\<lambda>st i. dc_run tasks compute i st) ?st js)"
      using less.hyps [OF w] less.prems locks_ok_run queues_ok_run by blast
    then show ?thesis using w by (intro exI [of _ "i # js"]) simp
  qed
qed

text \<open>The number of steps of a run that move a task.\<close>

fun moves :: "'k dtask list \<Rightarrow> (nat \<Rightarrow> exn + 'v) \<Rightarrow> ('k, 'v) dstate \<Rightarrow> 'k devent list \<Rightarrow> nat" where
  "moves tasks compute st [] = 0"
| "moves tasks compute st (ev # evs) =
     (if d_pcs (dc_event tasks compute st ev) = d_pcs st then 0 else 1) +
     moves tasks compute (dc_event tasks compute st ev) evs"

lemma moves_work: "moves tasks compute st events + work (foldl (dc_event tasks compute) st events) \<le> work st"
proof (induction events arbitrary: st)
  case (Cons ev evs)
  have "work (dc_event tasks compute st ev) + (if d_pcs (dc_event tasks compute st ev) = d_pcs st then 0 else 1) \<le> work st"
  proof (cases ev)
    case (Run i)
    then show ?thesis using step_works [of tasks compute i st] by (auto simp: work_def)
  next
    case (Evict k)
    then show ?thesis by (simp add: work_def)
  qed
  then show ?case using Cons.IH [of "dc_event tasks compute st ev"] by simp
qed simp

lemma work_start: "work (dc_start cache tasks) = 3 * length tasks"
  by (simp add: work_def dc_start_def sum_list_replicate)

subsection \<open>Properties\<close>

text \<open>C17: the per-key lock is exclusive: under every interleaving, with any mix of forced and
  plain calls, failures and evictions, no two computations (page fetches, LLM calls) for one key
  are in flight at the same time.\<close>

theorem one_computation_in_flight:
  "inj_on (\<lambda>i. t_key (tasks ! i))
     {i. i < length tasks \<and> d_pcs (dc_runs cache tasks compute events) ! i = Computing}"
  using runs_ok(1) [of tasks cache compute events]
  by (auto simp: locks_ok_def in_tasks_at inj_on_def)

text \<open>C19: the double-checked lock does its work once: calls without \<open>force_refresh\<close>, while no
  entry is dropped from the cache, start at most one computation for each key beyond the failed
  ones, none if the key was cached, whatever the interleaving; and all calls for one key that
  return a value return the same.\<close>

theorem computed_once:
  assumes "plain_run tasks events"
  shows "let st = dc_runs cache tasks compute events
    in count_list (d_started st) k + (if k \<in> fst ` set cache then 1 else 0) \<le> count_list (d_failed st) k + 1 \<and>
       (\<forall>i j v w. i < length tasks \<and> j < length tasks \<and> t_key (tasks ! i) = t_key (tasks ! j) \<and>
          d_pcs st ! i = Finished (Inr v) \<and> d_pcs st ! j = Finished (Inr w) \<longrightarrow> v = w)"
proof -
  let ?st = "dc_runs cache tasks compute events"
  have c: "counts_ok cache tasks ?st" and r: "results_ok tasks ?st" using plain_runs_ok [OF assms, of cache compute] by simp_all
  have "one_if (k \<in> set (d_locked ?st)) + one_if (k \<in> fst ` set (d_cache ?st)) \<le> 1"
    using c by (auto simp: counts_ok_def one_if_def)
  moreover have "count_list (d_started ?st) k + one_if (k \<in> fst ` set cache) =
      count_list (d_failed ?st) k + one_if (k \<in> set (d_locked ?st)) + one_if (k \<in> fst ` set (d_cache ?st))"
    using c by (simp add: counts_ok_def)
  ultimately have "count_list (d_started ?st) k + one_if (k \<in> fst ` set cache) \<le> count_list (d_failed ?st) k + 1" by linarith
  moreover have "v = w" if "i < length tasks" "j < length tasks" "t_key (tasks ! i) = t_key (tasks ! j)"
      "d_pcs ?st ! i = Finished (Inr v)" "d_pcs ?st ! j = Finished (Inr w)" for i j v w
  proof -
    have "map_of (d_cache ?st) (t_key (tasks ! i)) = Some v" "map_of (d_cache ?st) (t_key (tasks ! j)) = Some w"
      using r that(1,2,4,5) unfolding results_ok_def length_runs by blast+
    then show ?thesis using that(3) by simp
  qed
  ultimately show ?thesis unfolding Let_def one_if_def by blast
qed

text \<open>C18: the calls terminate: in any run at most three steps for each call move a task, and
  from every reachable state at most that many steps bring all calls to their end, so no
  interleaving deadlocks on the locks and none runs forever.\<close>

theorem calls_terminate:
  "moves tasks compute (dc_start cache tasks) events \<le> 3 * length tasks \<and>
   (\<exists>js. length js \<le> 3 * length tasks \<and>
      finished (foldl (\<lambda>st i. dc_run tasks compute i st) (dc_runs cache tasks compute events) js))"
proof -
  have w: "moves tasks compute (dc_start cache tasks) events + work (dc_runs cache tasks compute events) \<le> 3 * length tasks"
    unfolding dc_runs_def using moves_work [of tasks compute "dc_start cache tasks" events] by (simp only: work_start)
  obtain js where "length js \<le> work (dc_runs cache tasks compute events)"
    and "finished (foldl (\<lambda>st i. dc_run tasks compute i st) (dc_runs cache tasks compute events) js)"
    using can_finish [OF runs_ok] by blast
  with w show ?thesis by (intro conjI exI [of _ js]) linarith+
qed

text \<open>Two calls for \<open>''a''\<close> and one for \<open>''b''\<close>, interleaved: one computation each.\<close>

theorem computed_once_witness:
  "plain_run [\<lparr>t_key = ''a'', t_force = False\<rparr>, \<lparr>t_key = ''a'', t_force = False\<rparr>, \<lparr>t_key = ''b'', t_force = False\<rparr>]
     [Run 0, Run 1, Run 2, Run 0, Run 2, Run 1] \<and>
   count_list (d_started (dc_runs ([] :: (string \<times> nat) list)
     [\<lparr>t_key = ''a'', t_force = False\<rparr>, \<lparr>t_key = ''a'', t_force = False\<rparr>, \<lparr>t_key = ''b'', t_force = False\<rparr>] Inr
     [Run 0, Run 1, Run 2, Run 0, Run 2, Run 1])) ''a'' \<le>
   count_list (d_failed (dc_runs ([] :: (string \<times> nat) list)
     [\<lparr>t_key = ''a'', t_force = False\<rparr>, \<lparr>t_key = ''a'', t_force = False\<rparr>, \<lparr>t_key = ''b'', t_force = False\<rparr>] Inr
     [Run 0, Run 1, Run 2, Run 0, Run 2, Run 1])) ''a'' + 1"
proof -
  have "plain_run [\<lparr>t_key = ''a'', t_force = False\<rparr>, \<lparr>t_key = ''a'', t_force = False\<rparr>, \<lparr>t_key = ''b'', t_force = False\<rparr>]
     [Run 0, Run 1, Run 2, Run 0, Run 2, Run 1]" by (simp add: plain_run_def)
  then show ?thesis using computed_once [of _ _ "[] :: (string \<times> nat) list" Inr "''a''"] by (simp add: Let_def)
qed

end
