(* ===== verification/Confluence_Client.thy ===== *)
theory Confluence_Client
  imports Json Cql Page_Text Single_Flight
begin

text \<open>
  \<open>confluence/client/client.py\<close> and the models of \<open>confluence/models/page.py\<close>: searches with
  retries and result parsing, the merge of the three variants, the reverse lookup, the page
  cache. The library \<open>atlassian-python-api\<close> is third-party code: what attempt \<open>n\<close> of a call
  returns is an argument. Waiting times between attempts are not modelled. The per-page lock and
  the concurrent use of the cache are in \<open>Single_Flight\<close>; here a call runs alone.
\<close>

record ConfluencePage =
  cp_page_id :: string
  cp_title :: string
  cp_space_key :: string
  cp_url :: string
  cp_last_modified :: string
  cp_cql_excerpt :: string

record conf_client =
  cc_search_limit :: int
  cc_max_retries :: int
  cc_content_max_chars :: int
  cc_page_cache :: "(string \<times> string) list"

subsection \<open>Retries\<close>

text \<open>\<open>requests\<close>' \<open>ConnectionError\<close> and \<open>Timeout\<close> are retried, all else is raised.\<close>

fun transient :: "exn \<Rightarrow> bool" where
  "transient (TransportError _) = True"
| "transient _ = False"

function conf_retry :: "(nat \<Rightarrow> exn + 'a) \<Rightarrow> int \<Rightarrow> nat \<Rightarrow> exn + 'a" where
  "conf_retry outcome max_retries n =
     (case outcome n of
        Inr r \<Rightarrow> Inr r
      | Inl e \<Rightarrow>
          if transient e \<and> int n < max_retries then conf_retry outcome max_retries (Suc n) else Inl e)"
  by pat_completeness auto
termination by (relation "measure (\<lambda>(_, m, n). nat (m - int n))") auto

declare conf_retry.simps [simp del]

subsection \<open>Parsing a search result\<close>

definition or_get :: "json \<Rightarrow> exn + json \<Rightarrow> exn + json" where
  "or_get v other = (if json_truth v then Inr v else other)"

text \<open>\<open>(j.get(k) or {})\<close>\<close>

definition sub_object :: "json \<Rightarrow> string \<Rightarrow> exn + json" where
  "sub_object j k = andthen (json_get j k JNull) (\<lambda>v. or_get v (Inr (JObj [])))"

definition parse_cql_result :: "(json \<Rightarrow> string) \<Rightarrow> json \<Rightarrow> exn + ConfluencePage" where
  "parse_cql_result repr item =
     andthen (json_get item ''content'' JNull) (\<lambda>c.
     let content = (if json_truth c then c else item) in
     andthen (json_item content ''id'') (\<lambda>pid.
     andthen (andthen (json_get content ''title'' JNull) (\<lambda>t. or_get t (json_get item ''title'' (JStr [])))) (\<lambda>title.
     andthen (andthen (andthen (sub_object content ''space'') (\<lambda>sp. json_get sp ''key'' JNull))
       (\<lambda>k. or_get k (andthen (json_get item ''space'' (JObj [])) (\<lambda>sp. json_get sp ''key'' (JStr []))))) (\<lambda>space.
     andthen (andthen (andthen (sub_object content ''_links'') (\<lambda>l. json_get l ''webui'' JNull))
       (\<lambda>u. or_get u (json_get item ''url'' (JStr [])))) (\<lambda>url.
     andthen (andthen (andthen (andthen (sub_object content ''history'')
         (\<lambda>h. json_get h ''lastUpdated'' (JObj []))) (\<lambda>u. json_get u ''when'' JNull))
       (\<lambda>w. or_get w (json_get item ''lastModified'' (JStr [])))) (\<lambda>modified.
     andthen (json_get item ''excerpt'' (JStr [])) (\<lambda>excerpt.
     Inr \<lparr>cp_page_id = json_str repr pid, cp_title = json_str repr title,
        cp_space_key = json_str repr space, cp_url = json_str repr url,
        cp_last_modified = json_str repr modified, cp_cql_excerpt = json_str repr excerpt\<rparr>)))))))"

fun skipped :: "exn \<Rightarrow> bool" where
  "skipped (KeyError _) = True"
| "skipped e = is_ValueError e"

fun parse_results :: "(json \<Rightarrow> string) \<Rightarrow> json list \<Rightarrow> exn + ConfluencePage list" where
  "parse_results repr [] = Inr []"
| "parse_results repr (item # items) =
     (case parse_cql_result repr item of
        Inr page \<Rightarrow> andthen (parse_results repr items) (\<lambda>pages. Inr (page # pages))
      | Inl e \<Rightarrow> if skipped e then parse_results repr items else Inl e)"

definition search_one :: "(json \<Rightarrow> string) \<Rightarrow> int \<Rightarrow> (nat \<Rightarrow> exn + json) \<Rightarrow> exn + ConfluencePage list" where
  "search_one repr max_retries call =
     andthen (conf_retry call max_retries 1) (\<lambda>raw.
       if json_truth raw then andthen (json_iter raw) (parse_results repr) else Inr [])"

subsection \<open>\<open>search_pages_multi\<close>\<close>

fun merge_onto :: "ConfluencePage list \<Rightarrow> ConfluencePage list \<Rightarrow> ConfluencePage list" where
  "merge_onto seen [] = seen"
| "merge_onto seen (p # ps) =
     merge_onto (if cp_page_id p \<in> cp_page_id ` set seen then seen else seen @ [p]) ps"

fun merge_results :: "ConfluencePage list \<Rightarrow> (exn + ConfluencePage list) list \<Rightarrow> ConfluencePage list" where
  "merge_results seen [] = seen"
| "merge_results seen (Inl e # rs) = merge_results seen rs"
| "merge_results seen (Inr ps # rs) = merge_results (merge_onto seen ps) rs"

text \<open>\<open>search cql variant\<close> is what \<open>_search_one\<close> does for a query.\<close>

definition search_pages_multi :: "(string \<Rightarrow> string \<Rightarrow> exn + ConfluencePage list) \<Rightarrow> QueryIntent \<Rightarrow>
    string list \<Rightarrow> int \<Rightarrow> ConfluencePage list" where
  "search_pages_multi search intent spaces recency_days =
     (let v = build_cql_variants intent spaces recency_days
      in merge_results []
           [search (cv_title_review v) ''title_review'', search (cv_title_version v) ''title_version'',
            search (cv_text_version v) ''text_version''])"

subsection \<open>\<open>find_pages_mentioning_keys\<close>\<close>

fun reverse_onto :: "(string \<Rightarrow> string \<Rightarrow> exn + ConfluencePage list) \<Rightarrow> string list \<Rightarrow>
    (string \<times> ConfluencePage list) list \<Rightarrow> string list \<Rightarrow> (string \<times> ConfluencePage list) list" where
  "reverse_onto search spaces result [] = result"
| "reverse_onto search spaces result (key # keys) =
     reverse_onto search spaces
       (case search (reverse_query spaces key) ''reverse_lookup'' of
          Inl e \<Rightarrow> result
        | Inr pages \<Rightarrow> if pages = [] then result else AList.update key pages result) keys"

definition find_pages_mentioning_keys :: "(string \<Rightarrow> string \<Rightarrow> exn + ConfluencePage list) \<Rightarrow>
    string list \<Rightarrow> string list \<Rightarrow> (string \<times> ConfluencePage list) list" where
  "find_pages_mentioning_keys search issue_keys spaces = reverse_onto search spaces [] issue_keys"

subsection \<open>Pages\<close>

definition page_body :: "json \<Rightarrow> exn + json" where
  "page_body raw = andthen (json_get raw ''body'' (JObj [])) (\<lambda>b.
     andthen (json_get b ''view'' (JObj [])) (\<lambda>v. json_get v ''value'' (JStr [])))"

definition fetch_page_html :: "(json \<Rightarrow> string) \<Rightarrow> int \<Rightarrow> (nat \<Rightarrow> exn + json) \<Rightarrow> exn + string" where
  "fetch_page_html repr max_retries call =
     andthen (conf_retry call max_retries 1) (\<lambda>raw. andthen (page_body raw) (\<lambda>b. Inr (json_str repr b)))"

text \<open>\<open>get_page_sections\<close> of one call alone; \<open>call\<close> is the library's answer to the fetch.\<close>

definition get_page_sections :: "(json \<Rightarrow> string) \<Rightarrow> (string \<Rightarrow> string list) \<Rightarrow> (nat \<Rightarrow> exn + json) \<Rightarrow>
    string \<Rightarrow> string list \<Rightarrow> bool \<Rightarrow> conf_client \<Rightarrow> (exn + (string \<times> string) list) \<times> conf_client" where
  "get_page_sections repr data call page_id target_headings force_refresh cl =
     (case (if force_refresh then None else map_of (cc_page_cache cl) page_id) of
        Some html \<Rightarrow> (Inr (extract_sections data html target_headings (cc_content_max_chars cl)), cl)
      | None \<Rightarrow>
          (case fetch_page_html repr (cc_max_retries cl) call of
             Inl e \<Rightarrow> (Inl e, cl)
           | Inr html \<Rightarrow>
               (Inr (extract_sections data html target_headings (cc_content_max_chars cl)),
                cl\<lparr>cc_page_cache := AList.update page_id html (cc_page_cache cl)\<rparr>)))"

text \<open>\<open>fetch_page_metadata\<close>: the body goes to the cache before the metadata are read. The body of a
  page is a string; here the cache keeps the text of whatever the server sent.\<close>

definition page_metadata :: "(json \<Rightarrow> string) \<Rightarrow> string \<Rightarrow> json \<Rightarrow> exn + ConfluencePage" where
  "page_metadata repr source_url raw =
     andthen (json_item raw ''id'') (\<lambda>pid.
     andthen (json_get raw ''title'' (JStr [])) (\<lambda>title.
     andthen (andthen (sub_object raw ''space'') (\<lambda>sp. json_get sp ''key'' (JStr []))) (\<lambda>space.
     andthen (andthen (sub_object raw ''version'') (\<lambda>v. json_get v ''when'' (JStr []))) (\<lambda>modified.
     Inr \<lparr>cp_page_id = json_str repr pid, cp_title = json_str repr title,
        cp_space_key = json_str repr space, cp_url = source_url,
        cp_last_modified = json_str repr modified, cp_cql_excerpt = []\<rparr>))))"

definition fetch_page_metadata :: "(json \<Rightarrow> string) \<Rightarrow> (nat \<Rightarrow> exn + json) \<Rightarrow> string \<Rightarrow> string \<Rightarrow>
    conf_client \<Rightarrow> (exn + ConfluencePage) \<times> conf_client" where
  "fetch_page_metadata repr call page_id source_url cl =
     (case conf_retry call (cc_max_retries cl) 1 of
        Inl e \<Rightarrow> (Inl e, cl)
      | Inr raw \<Rightarrow>
          (case page_body raw of
             Inl e \<Rightarrow> (Inl e, cl)
           | Inr html \<Rightarrow>
               (page_metadata repr source_url raw,
                cl\<lparr>cc_page_cache := AList.update page_id (json_str repr html) (cc_page_cache cl)\<rparr>)))"

subsection \<open>Laws\<close>

lemma conf_retry_step:
  "conf_retry outcome m n =
     (case outcome n of Inr r \<Rightarrow> Inr r
      | Inl e \<Rightarrow> if transient e \<and> int n < m then conf_retry outcome m (Suc n) else Inl e)"
  by (rule conf_retry.simps)

lemma conf_retry_last:
  "\<exists>k \<ge> n. conf_retry outcome m n = outcome k \<and> (k = n \<or> int k \<le> m) \<and>
     (\<forall>j. n \<le> j \<and> j < k \<longrightarrow> (\<exists>e. outcome j = Inl e \<and> transient e)) \<and>
     (\<forall>e. outcome k = Inl e \<and> transient e \<longrightarrow> m \<le> int k)"
proof (induction outcome m n rule: conf_retry.induct)
  case (1 outcome m n)
  show ?case
  proof (cases "\<exists>e. outcome n = Inl e \<and> transient e \<and> int n < m")
    case True
    then obtain e where e: "outcome n = Inl e" "transient e" "int n < m" by blast
    obtain k where k: "Suc n \<le> k" "conf_retry outcome m (Suc n) = outcome k" "k = Suc n \<or> int k \<le> m"
      "\<forall>j. Suc n \<le> j \<and> j < k \<longrightarrow> (\<exists>e. outcome j = Inl e \<and> transient e)"
      "\<forall>e. outcome k = Inl e \<and> transient e \<longrightarrow> m \<le> int k"
      using "1.IH" [OF e(1)] e by blast
    have "\<exists>e. outcome j = Inl e \<and> transient e" if "n \<le> j" "j < k" for j
      using that k(4) e by (cases "j = n") auto
    moreover have "conf_retry outcome m n = outcome k" using e k(2) by (simp add: conf_retry_step [of outcome m n])
    ultimately show ?thesis using k e(3) by (intro exI [of _ k]) auto
  next
    case False
    then have "conf_retry outcome m n = outcome n"
      by (auto simp: conf_retry_step [of outcome m n] split: sum.split)
    then show ?thesis using False by (intro exI [of _ n]) auto
  qed
qed

lemma ids_merge_onto: "cp_page_id ` set (merge_onto seen ps) = cp_page_id ` set seen \<union> cp_page_id ` set ps"
  by (induction ps arbitrary: seen) auto

lemma distinct_merge_onto: "distinct (map cp_page_id seen) \<Longrightarrow> distinct (map cp_page_id (merge_onto seen ps))"
  by (induction ps arbitrary: seen) auto

lemma set_merge_onto: "set (merge_onto seen ps) \<subseteq> set seen \<union> set ps"
  by (induction ps arbitrary: seen) (auto split: if_splits, fastforce)

definition found_pages :: "(exn + ConfluencePage list) list \<Rightarrow> ConfluencePage list" where
  "found_pages rs = concat (map (\<lambda>r. case r of Inl _ \<Rightarrow> [] | Inr ps \<Rightarrow> ps) rs)"

lemma found_pages_simps [simp]:
  "found_pages [] = []" "found_pages (Inl e # rs) = found_pages rs" "found_pages (Inr ps # rs) = ps @ found_pages rs"
  by (simp_all add: found_pages_def)

lemma merge_results_simps:
  "distinct (map cp_page_id seen) \<Longrightarrow> distinct (map cp_page_id (merge_results seen rs))"
  "cp_page_id ` set (merge_results seen rs) = cp_page_id ` set seen \<union> cp_page_id ` set (found_pages rs)"
  "set (merge_results seen rs) \<subseteq> set seen \<union> set (found_pages rs)"
proof -
  show "distinct (map cp_page_id seen) \<Longrightarrow> distinct (map cp_page_id (merge_results seen rs))"
    by (induction seen rs rule: merge_results.induct) (simp_all add: distinct_merge_onto)
  show "cp_page_id ` set (merge_results seen rs) = cp_page_id ` set seen \<union> cp_page_id ` set (found_pages rs)"
    by (induction seen rs rule: merge_results.induct) (simp_all add: ids_merge_onto image_Un Un_assoc)
  show "set (merge_results seen rs) \<subseteq> set seen \<union> set (found_pages rs)"
  proof (induction seen rs rule: merge_results.induct)
    case (3 seen ps rs)
    then show ?case using set_merge_onto [of seen ps] by auto
  qed simp_all
qed

lemma search_pages_distinct: "distinct (map cp_page_id (search_pages_multi search intent spaces days))"
  by (simp add: search_pages_multi_def Let_def merge_results_simps(1) del: merge_results.simps)

lemma map_of_reverse_onto:
  "map_of (reverse_onto search spaces result keys) k =
     (if k \<in> set keys then
        (case search (reverse_query spaces k) ''reverse_lookup'' of
           Inl e \<Rightarrow> map_of result k | Inr ps \<Rightarrow> if ps = [] then map_of result k else Some ps)
      else map_of result k)"
  by (induction search spaces result keys rule: reverse_onto.induct) (auto split: sum.splits)

lemma dict_ok_reverse_onto: "dict_ok result \<Longrightarrow> dict_ok (reverse_onto search spaces result keys)"
  by (induction search spaces result keys rule: reverse_onto.induct) (simp_all split: sum.split)

text \<open>The page cache alone: a call is the run of one task of \<open>Single_Flight\<close>.\<close>

lemma lone_call:
  assumes "fetch_page_html repr (cc_max_retries cl) call = compute 0"
  shows "(let tasks = [\<lparr>t_key = page_id, t_force = force\<rparr>];
              st = dc_runs (cc_page_cache cl) tasks compute [Run 0, Run 0];
              out = get_page_sections repr data call page_id headings force cl
          in d_cache st = cc_page_cache (snd out) \<and>
             (case d_pcs st ! 0 of
                Finished r \<Rightarrow> fst out = andthen r (\<lambda>html. Inr (extract_sections data html headings (cc_content_max_chars cl)))
              | _ \<Rightarrow> False))"
  using assms
  by (cases force; cases "map_of (cc_page_cache cl) page_id"; cases "compute 0")
    (simp_all add: dc_runs_def dc_start_def dc_run_def cache_hit_def critical_def finish_def
      get_page_sections_def Let_def)

end
