(* ===== verification/Confluence_Research.thy ===== *)
theory Confluence_Research
  imports Confluence_Client LLM_Boundary
begin

text \<open>
  The Confluence side of \<open>core/briefing_orchestrator.py\<close>: \<open>_run_confluence_research\<close>,
  \<open>_research_topic\<close>, \<open>_fetch_and_extract\<close>, \<open>_extract_relevant_passage\<close>,
  \<open>search_context\<close>; with \<open>ContextExtractor.extract\<close> (\<open>confluence/extraction/extractor.py\<close>)
  and \<open>QueryIntentAnalyser.analyse\<close> (\<open>core/query_intent_analyser.py\<close>). The page and topic
  tasks of a call are gathered in order, so their results are lists in that order; the
  interleaving of their cache accesses is in \<open>Single_Flight\<close>. The LLM agents are functions from
  the prompt.
\<close>

record ContextExtractionOutput =
  ce_jira_keys_mentioned :: "string list"
  ce_mitigation_owners :: "string list"
  ce_severity_signals :: "string list"
  ce_action_items :: "string list"

record ContextSearchResult =
  sr_page :: ConfluencePage
  sr_jira_keys_mentioned :: "string list"
  sr_extracted_mitigations :: "string list"
  sr_extracted_owners :: "string list"

record ConfluenceContextResponse =
  xr_results :: "ContextSearchResult list"
  xr_total_pages_found :: nat
  xr_cql_used :: "string list"
  xr_errors :: "string list"

subsection \<open>Intent and extraction\<close>

definition general_intent :: QueryIntent where
  "general_intent = \<lparr>qi_version_refs = [], qi_project_keys = [], qi_risk_signals = [],
     qi_confluence_keywords = [], qi_suggested_spaces = [], qi_intent_type = General\<rparr>"

definition analyse_intent :: "(string \<Rightarrow> exn + QueryIntent) \<Rightarrow> string \<Rightarrow> exn + QueryIntent" where
  "analyse_intent agent query =
     (case agent (''QUERY: '' @ query @ [CHR 0x0A, CHR 0x0A] @ ''Extract structured intent.'') of
        Inr intent \<Rightarrow> Inr intent
      | Inl e \<Rightarrow> if is_AgentError e then Inr general_intent else Inl e)"

definition extraction_lines :: "ConfluencePage \<Rightarrow> (string \<times> string) list \<Rightarrow> string list" where
  "extraction_lines page sections =
     [''OPERATION: EXTRACT CONFLUENCE CONTEXT'', ''PAGE: '' @ cp_title page, ''SPACE: '' @ cp_space_key page,
      ''LAST MODIFIED: '' @ cp_last_modified page, []] @
     (if sections \<noteq> []
      then concat (map (\<lambda>(heading, content). [''=== '' @ heading @ '' ==='', take 2000 content, []]) sections)
      else [''(no target sections found in this page)'', []]) @
     [''-> Extract jira_keys_mentioned: all Jira issue keys (PROJECT-NNN format) found.'',
      ''-> Extract mitigation_owners: person names in owner / responsible / action columns.'',
      ''-> Extract severity_signals: words like blocked, escalated, at risk, critical.'',
      ''-> Extract action_items: explicit action/task lines or table rows with owners/dates.'',
      ''-> Return empty lists for categories not found. Never fabricate data.'']"

definition build_extraction_prompt :: "ConfluencePage \<Rightarrow> (string \<times> string) list \<Rightarrow> string" where
  "build_extraction_prompt page sections = join [CHR 0x0A] (extraction_lines page sections)"

type_synonym xcache = "((string \<times> string) \<times> ContextExtractionOutput) list"

definition extract_context :: "(string \<Rightarrow> exn + ContextExtractionOutput) \<Rightarrow> ConfluencePage \<Rightarrow>
    (string \<times> string) list \<Rightarrow> bool \<Rightarrow> xcache \<Rightarrow> (exn + ContextExtractionOutput) \<times> xcache" where
  "extract_context agent page sections force_refresh cache =
     (let key = (cp_page_id page, cp_last_modified page)
      in case (if force_refresh then None else map_of cache key) of
           Some out \<Rightarrow> (Inr out, cache)
         | None \<Rightarrow>
             (case agent (build_extraction_prompt page sections) of
                Inr out \<Rightarrow> (Inr out, AList.update key out cache)
              | Inl e \<Rightarrow>
                  (Inl (if is_AgentError e
                        then AnalysisError (''context extraction LLM call failed for page '' @ cp_page_id page @
                               '': '' @ exn_str e)
                        else e), cache)))"

text \<open>A call that finds nothing in the cache keeps the contract of an LLM call.\<close>

interpretation extraction: llm_boundary
  "\<lambda>agent (page, sections). fst (extract_context agent page sections force_refresh [])"
  "\<lambda>(page, sections). build_extraction_prompt page sections" "\<lambda>_ out. out" is_AnalysisError for force_refresh
  by unfold_locales (auto simp: extract_context_def Let_def)

definition extract_relevant_passage :: "ContextExtractionOutput \<Rightarrow> string \<Rightarrow> string" where
  "extract_relevant_passage x key =
     (case filter (\<lambda>item. contains item key) (ce_action_items x) of
        item # _ \<Rightarrow> take 300 item
      | [] \<Rightarrow>
          (case filter (\<lambda>signal. contains signal key) (ce_severity_signals x) of
             signal # _ \<Rightarrow> take 300 signal
           | [] \<Rightarrow> (case ce_action_items x of item # _ \<Rightarrow> take 300 item | [] \<Rightarrow> [])))"

definition TARGET_HEADINGS :: "string list" where
  "TARGET_HEADINGS = [''At Risk'', ''Blocked'', ''Blocker'', ''Mitigation'', ''Action Items'', ''Actions'',
     ''Risk'', ''Escalation'', ''Open Items'', ''Status'']"

subsection \<open>One topic\<close>

text \<open>
  What the pipeline calls: the intent of a query, a search (\<open>_search_one\<close> of the client), the
  sections of a page, the extraction, the metadata of a pinned page.
\<close>

record renv =
  re_analyse :: "string \<Rightarrow> exn + QueryIntent"
  re_find :: "string \<Rightarrow> string \<Rightarrow> exn + ConfluencePage list"
  re_sections :: "string \<Rightarrow> string list \<Rightarrow> bool \<Rightarrow> exn + (string \<times> string) list"
  re_extract :: "ConfluencePage \<Rightarrow> (string \<times> string) list \<Rightarrow> bool \<Rightarrow> exn + ContextExtractionOutput"
  re_metadata :: "string \<Rightarrow> string \<Rightarrow> bool \<Rightarrow> exn + ConfluencePage"

record rsettings =
  r_recency_days :: int
  r_max_pages_total :: int
  r_default_spaces :: "string list"

definition page_extraction :: "renv \<Rightarrow> bool \<Rightarrow> ConfluencePage \<Rightarrow> exn + ContextExtractionOutput" where
  "page_extraction env force page =
     andthen (re_sections env (cp_page_id page) TARGET_HEADINGS force) (\<lambda>s. re_extract env page s force)"

definition page_ref :: "ConfluencePage \<Rightarrow> string \<Rightarrow> ConfluenceReference" where
  "page_ref page passage = \<lparr>cr_page_id = cp_page_id page, cr_page_title = cp_title page,
     cr_cql_excerpt = cp_cql_excerpt page, cr_relevant_passage = passage\<rparr>"

definition fetch_and_extract :: "renv \<Rightarrow> bool \<Rightarrow> ConfluencePage \<Rightarrow>
    exn + string list \<times> (string \<times> ConfluenceReference) list" where
  "fetch_and_extract env force page =
     andthen (page_extraction env force page) (\<lambda>x.
       Inr (ce_jira_keys_mentioned x,
            dict_of (map (\<lambda>k. (k, page_ref page (extract_relevant_passage x k))) (ce_jira_keys_mentioned x))))"

text \<open>The first page wins for each key.\<close>

fun first_wins :: "(string \<times> 'v) list \<Rightarrow> (string \<times> 'v) list \<Rightarrow> (string \<times> 'v) list" where
  "first_wins d [] = d"
| "first_wins d ((k, v) # kvs) = first_wins (if k \<in> fst ` set d then d else d @ [(k, v)]) kvs"

fun merge_pages :: "string list \<Rightarrow> (string \<times> ConfluenceReference) list \<Rightarrow>
    (exn + string list \<times> (string \<times> ConfluenceReference) list) list \<Rightarrow>
    string list \<times> (string \<times> ConfluenceReference) list" where
  "merge_pages ks d [] = (ks, d)"
| "merge_pages ks d (Inl e # rs) = merge_pages ks d rs"
| "merge_pages ks d (Inr (keys, refs) # rs) = merge_pages (ks @ keys) (first_wins d refs) rs"

definition research_topic :: "renv \<Rightarrow> rsettings \<Rightarrow> AgendaTopic \<Rightarrow> string list \<Rightarrow> bool \<Rightarrow>
    exn + string list \<times> (string \<times> ConfluenceReference) list" where
  "research_topic env cfg topic spaces force =
     andthen (re_analyse env (at_suggested_query topic)) (\<lambda>intent.
       if qi_intent_type intent = General \<or> qi_confluence_keywords intent = [] then Inr ([], [])
       else
         let pages = py_take (r_max_pages_total cfg)
                       (search_pages_multi (re_find env) intent spaces (r_recency_days cfg))
         in if pages = [] then Inr ([], [])
            else Inr (merge_pages [] [] (map (fetch_and_extract env force) pages)))"

subsection \<open>\<open>_run_confluence_research\<close>\<close>

type_synonym ref_lists = "(string \<times> ConfluenceReference list) list"

definition append_ref :: "string \<Rightarrow> ConfluenceReference \<Rightarrow> ref_lists \<Rightarrow> ref_lists" where
  "append_ref k r d = AList.update k ((case map_of d k of None \<Rightarrow> [] | Some rs \<Rightarrow> rs) @ [r]) d"

fun add_topics :: "ref_lists \<Rightarrow> (exn + string list \<times> (string \<times> ConfluenceReference) list) list \<Rightarrow> ref_lists" where
  "add_topics d [] = d"
| "add_topics d (Inl e # rs) = add_topics d rs"
| "add_topics d (Inr (keys, refs) # rs) = add_topics (foldl (\<lambda>d (k, r). append_ref k r d) d refs) rs"

fun add_reverse :: "string \<Rightarrow> string set \<Rightarrow> ConfluencePage list \<Rightarrow> ref_lists \<Rightarrow> ref_lists" where
  "add_reverse k seen [] d = d"
| "add_reverse k seen (p # ps) d =
     (if cp_page_id p \<in> seen then add_reverse k seen ps d
      else add_reverse k (insert (cp_page_id p) seen) ps (append_ref k (page_ref p []) d))"

definition ids_of :: "ref_lists \<Rightarrow> string \<Rightarrow> string set" where
  "ids_of d k = cr_page_id ` set (case map_of d k of None \<Rightarrow> [] | Some rs \<Rightarrow> rs)"

definition run_confluence_research :: "renv \<Rightarrow> rsettings \<Rightarrow> AgendaTopic list \<Rightarrow> string list \<Rightarrow>
    string list option \<Rightarrow> bool \<Rightarrow> ref_lists" where
  "run_confluence_research env cfg topics all_jira_keys spaces force =
     (let resolved = (case spaces of Some (s # ss) \<Rightarrow> s # ss | _ \<Rightarrow> r_default_spaces cfg);
          refs = add_topics [] (map (\<lambda>t. research_topic env cfg t resolved force) topics);
          reverse_keys = filter (\<lambda>k. k \<notin> fst ` set refs) all_jira_keys
      in if reverse_keys \<noteq> [] \<and> resolved \<noteq> []
         then foldl (\<lambda>d (k, pages). add_reverse k (ids_of d k) pages d) refs
                (find_pages_mentioning_keys (re_find env) reverse_keys resolved)
         else refs)"

subsection \<open>\<open>search_context\<close>\<close>

text \<open>The pinned URLs: errors, and the ids to fetch with the URL they came from, each id once.\<close>

fun parse_pins :: "(string \<Rightarrow> string) \<Rightarrow> (string \<Rightarrow> exn + string option) \<Rightarrow> string list \<Rightarrow> (string \<times> string) list \<Rightarrow>
    string list \<Rightarrow> exn + (string \<times> string) list \<times> string list" where
  "parse_pins repr page_id_of [] valid errors = Inr (valid, errors)"
| "parse_pins repr page_id_of (url # urls) valid errors =
     andthen (page_id_of url) (\<lambda>pid. case pid of
         None \<Rightarrow> parse_pins repr page_id_of urls valid
                   (errors @ [''cannot extract page ID from URL: '' @ repr url])
       | Some i \<Rightarrow> parse_pins repr page_id_of urls
                   (if i \<in> snd ` set valid then valid else valid @ [(url, i)]) errors)"

definition pin_errors :: "(string \<Rightarrow> string) \<Rightarrow> (string \<times> (exn + ConfluencePage)) list \<Rightarrow> string list" where
  "pin_errors repr fetched =
     concat (map (\<lambda>(url, r). case r of Inl e \<Rightarrow> [''failed to fetch pinned page '' @ repr url @ '': '' @ exn_str e]
                                     | Inr _ \<Rightarrow> []) fetched)"

definition page_errors :: "(ConfluencePage \<times> (exn + 'a)) list \<Rightarrow> string list" where
  "page_errors xs =
     concat (map (\<lambda>(p, r). case r of Inl e \<Rightarrow> [''page '' @ cp_page_id p @ '': '' @ exn_str e] | Inr _ \<Rightarrow> []) xs)"

definition page_results :: "(ConfluencePage \<times> (exn + ContextExtractionOutput)) list \<Rightarrow> ContextSearchResult list" where
  "page_results xs =
     concat (map (\<lambda>(p, r). case r of Inl e \<Rightarrow> []
       | Inr x \<Rightarrow> [\<lparr>sr_page = p, sr_jira_keys_mentioned = ce_jira_keys_mentioned x,
                    sr_extracted_mitigations = ce_action_items x, sr_extracted_owners = ce_mitigation_owners x\<rparr>]) xs)"

definition successes :: "('k \<times> (exn + 'a)) list \<Rightarrow> 'a list" where
  "successes xs = concat (map (\<lambda>(_, r). case r of Inl _ \<Rightarrow> [] | Inr p \<Rightarrow> [p]) xs)"

definition empty_context :: ConfluenceContextResponse where
  "empty_context = \<lparr>xr_results = [], xr_total_pages_found = 0, xr_cql_used = [], xr_errors = []\<rparr>"

text \<open>The keyword search: the pages and the queries used.\<close>

definition keyword_search :: "renv \<Rightarrow> string \<Rightarrow> string list \<Rightarrow> int \<Rightarrow> int \<Rightarrow>
    exn + ConfluencePage list \<times> string list" where
  "keyword_search env query spaces recency limit =
     andthen (re_analyse env query) (\<lambda>intent.
       Inr (py_take limit (search_pages_multi (re_find env) intent spaces recency),
            as_list (build_cql_variants intent spaces recency)))"

definition search_context :: "(string \<Rightarrow> string) \<Rightarrow> (string \<Rightarrow> exn + string option) \<Rightarrow> renv option \<Rightarrow> rsettings \<Rightarrow>
    string \<Rightarrow> string list option \<Rightarrow> int option \<Rightarrow> int \<Rightarrow> bool \<Rightarrow> string list option \<Rightarrow>
    exn + ConfluenceContextResponse" where
  "search_context repr page_id_of configured cfg query spaces recency_days limit force page_urls =
     (case configured of
        None \<Rightarrow> Inr empty_context
      | Some env \<Rightarrow>
          let resolved = (case spaces of Some (s # ss) \<Rightarrow> s # ss | _ \<Rightarrow> r_default_spaces cfg);
              recency = (case recency_days of Some d \<Rightarrow> d | None \<Rightarrow> r_recency_days cfg)
          in andthen (parse_pins repr page_id_of (case page_urls of None \<Rightarrow> [] | Some us \<Rightarrow> us) [] [])
               (\<lambda>(valid, errors1).
             andthen (if int (length valid) < limit then keyword_search env query resolved recency limit
                      else Inr ([], [])) (\<lambda>(cql_pages, cql_used).
             let fetched = map (\<lambda>(url, pid). (url, re_metadata env pid url force)) valid;
                 pinned = successes fetched;
                 errors2 = errors1 @ pin_errors repr fetched;
                 seen = cp_page_id ` set pinned;
                 pages = py_take limit (pinned @ filter (\<lambda>p. cp_page_id p \<notin> seen) cql_pages);
                 gathered = map (\<lambda>p. (p, page_extraction env force p)) pages
             in Inr \<lparr>xr_results = page_results gathered, xr_total_pages_found = length pages,
                     xr_cql_used = cql_used, xr_errors = errors2 @ page_errors gathered\<rparr>)))"

end
