(* ===== verification/Issue_Analysis.thy ===== *)
theory Issue_Analysis
  imports Netra_Models "HOL-Library.Char_ord" "HOL-Library.List_Lexorder"
begin

text \<open>
  \<open>core/issue_analyser.py\<close>: the facts of one issue, the prompt, the analysis with its cache,
  and the concurrent analysis of many keys. A task reads the cache in one step and stores its
  result in a later one, with the LLM call between them; a schedule is the list of the steps
  taken, each with the LLM as it answers at that time, so that a statement over all schedules
  covers every interleaving. The date of a time stamp (\<open>datetime.fromisoformat(ts).date()\<close>) is
  the parameter \<open>ts_date\<close>, \<open>None\<close> being its \<open>ValueError\<close>; dates are ordinals.
\<close>

subsection \<open>Facts\<close>

definition DEFAULT_BLOCKED_STATUSES :: "string list" where
  "DEFAULT_BLOCKED_STATUSES = [''blocked'', ''stalled'', ''on hold'', ''waiting'']"

record analyser =
  az_blocked_statuses :: "string list"
  az_max_concurrency :: int
  az_cache_max_size :: int
  az_today :: int
  az_ts_date :: "string \<Rightarrow> int option"

definition blocked_statuses_of :: "string list \<Rightarrow> string list" where
  "blocked_statuses_of configured =
     (let ss = map (\<lambda>s. lower (strip s)) configured
      in if ss = [] then DEFAULT_BLOCKED_STATUSES else ss)"

definition compute_days_blocked :: "analyser \<Rightarrow> IssueDetail \<Rightarrow> int" where
  "compute_days_blocked az issue =
     (case rev (id_changelog issue) of
        [] \<Rightarrow> 0
      | entry # _ \<Rightarrow>
          if lower (strip (ce_to_value entry)) \<notin> set (az_blocked_statuses az) then 0
          else (case az_ts_date az (ce_timestamp entry) of
                  None \<Rightarrow> 0
                | Some d \<Rightarrow> max 0 (az_today az - d)))"

text \<open>\<open>sorted(comments, key=created, reverse=True)\<close>: newest first, ties in input order.\<close>

definition newest_first :: "IssueComment list \<Rightarrow> IssueComment list" where
  "newest_first cs = rev (sort_key ic_created (rev cs))"

definition degraded :: "string \<Rightarrow> string \<Rightarrow> BlockerAnalysis" where
  "degraded key reason = \<lparr>ba_issue_key = key, ba_summary = ''(analysis unavailable)'',
     ba_blocked_reason = reason, ba_days_blocked = 0, ba_owner = ''unknown'', ba_priority = None,
     ba_dependent_issues = [], ba_due_date = None, ba_flagged = False,
     ba_suggested_resolution = ''(unavailable)'', ba_mitigation = ''(unavailable)'',
     ba_risk_note = ''(unavailable)'', ba_evidence = [], ba_score = 0, ba_confluence_refs = []\<rparr>"

subsection \<open>The prompt\<close>

definition DQ :: string where
  "DQ = [CHR 0x22]"

fun direction_name :: "link_direction \<Rightarrow> string" where
  "direction_name Outward = ''outward''"
| "direction_name Inward = ''inward''"

definition link_line :: "IssueLink \<Rightarrow> string" where
  "link_line l = ''  - '' @ il_type l @ '' ('' @ direction_name (il_direction l) @ ''): '' @ il_linked_issue_key l
     @ (if given (il_linked_issue_summary l) then '' - '' @ the (il_linked_issue_summary l) else [])"

definition comment_line :: "IssueComment \<Rightarrow> string" where
  "comment_line c = ''  [id:'' @ ic_id c @ ''] '' @ ic_author c @ '' ('' @ take 10 (ic_created c) @ ''): '' @ ic_body c"

definition ref_lines :: "ConfluenceReference \<Rightarrow> string list" where
  "ref_lines r = [''[Page: '' @ DQ @ cr_page_title r @ DQ @ '']'']
     @ (if cr_relevant_passage r = [] then [] else [''Passage: '' @ take 300 (cr_relevant_passage r)])"

definition prompt_lines :: "IssueDetail \<Rightarrow> string \<Rightarrow> IssueComment list \<Rightarrow> ConfluenceReference list \<Rightarrow> string list"
  where
  "prompt_lines issue summary comments refs =
     [''OPERATION: ANALYSE ISSUE'', ''ISSUE KEY: '' @ id_key issue, ''SUMMARY: '' @ summary,
      ''PRIORITY: '' @ or_else (id_priority issue) ''unknown'',
      ''ASSIGNEE: '' @ or_else (id_assignee issue) ''unassigned'',
      ''DUE DATE: '' @ or_else (id_due_date issue) ''not set'',
      ''FLAGGED: '' @ (if id_flagged issue then ''True'' else ''False'')]
   @ (if id_links issue = [] then [''ISSUE LINKS: none'']
      else ''ISSUE LINKS:'' # map link_line (id_links issue))
   @ (if comments = [] then [''COMMENTS: none'']
      else ''COMMENTS (newest first, with comment IDs for citation):'' # map comment_line comments)
   @ (if refs = [] then []
      else [[], ''CONFLUENCE CONTEXT (external pages mentioning this issue - '' @
             ''treat as background, not authoritative fact):'']
        @ concat (map ref_lines refs)
        @ [''(Use Confluence context only to enrich suggested_resolution, mitigation, '' @
           ''and risk_note. Never use it for fact fields like days_blocked or owner.)''])
   @ [[], ''-> Fill suggested_resolution, mitigation, and risk_note (2-3 sentences each).'',
      ''-> In evidence, cite only comment IDs listed above that directly support your analysis.'',
      ''-> Never invent facts. Work only from the provided issue data.'']"

definition build_prompt :: "IssueDetail \<Rightarrow> string \<Rightarrow> IssueComment list \<Rightarrow> ConfluenceReference list \<Rightarrow> string"
  where
  "build_prompt issue summary comments refs = join [CHR 0x0A] (prompt_lines issue summary comments refs)"

subsection \<open>One issue\<close>

text \<open>What the agent call does: an \<open>AgentRunError\<close> or \<open>UserError\<close> (\<open>AgentFailed\<close>) is
  translated, another exception is not.\<close>

datatype agent_result = AgentFailed string | AgentRaised exn | AgentOutput IssueAnalysisSuggestions

type_synonym agent = "string \<Rightarrow> agent_result"

definition blocked_reason_of :: "IssueComment list \<Rightarrow> string" where
  "blocked_reason_of comments =
     (case comments of
        [] \<Rightarrow> ''No comments available - blocked reason unclear.''
      | latest # _ \<Rightarrow> ''Latest comment ('' @ ic_author latest @ ''): '' @ take 200 (ic_body latest))"

definition summary_of :: "IssueDetail \<Rightarrow> (string \<times> string) list \<Rightarrow> string" where
  "summary_of issue summaries =
     or_else (id_summary issue) (or_else (map_of summaries (id_key issue)) ''(no summary)'')"

definition assemble :: "analyser \<Rightarrow> IssueDetail \<Rightarrow> (string \<times> string) list \<Rightarrow> ConfluenceReference list \<Rightarrow>
    IssueAnalysisSuggestions \<Rightarrow> BlockerAnalysis" where
  "assemble az issue summaries refs s =
     \<lparr>ba_issue_key = id_key issue, ba_summary = summary_of issue summaries,
      ba_blocked_reason = blocked_reason_of (newest_first (id_comments issue)),
      ba_days_blocked = compute_days_blocked az issue,
      ba_owner = or_else (id_assignee issue) ''Unassigned'', ba_priority = id_priority issue,
      ba_dependent_issues = map il_linked_issue_key (id_links issue), ba_due_date = id_due_date issue,
      ba_flagged = id_flagged issue, ba_suggested_resolution = sg_suggested_resolution s,
      ba_mitigation = sg_mitigation s, ba_risk_note = sg_risk_note s, ba_evidence = sg_evidence s,
      ba_score = 0, ba_confluence_refs = refs\<rparr>"

definition analyse_one :: "analyser \<Rightarrow> agent \<Rightarrow> IssueDetail \<Rightarrow> (string \<times> string) list \<Rightarrow>
    ConfluenceReference list \<Rightarrow> exn + BlockerAnalysis" where
  "analyse_one az agent issue summaries refs =
     (case agent (build_prompt issue (summary_of issue summaries) (newest_first (id_comments issue)) refs) of
        AgentFailed m \<Rightarrow> Inl (AnalysisError (''analysis LLM call failed for '' @ id_key issue @ '': '' @ m))
      | AgentRaised e \<Rightarrow> Inl e
      | AgentOutput s \<Rightarrow> Inr (assemble az issue summaries refs s))"

subsection \<open>The cache\<close>

type_synonym acache = "((string \<times> string) \<times> BlockerAnalysis) list"

record analysis_input =
  ai_issue_map :: "(string \<times> IssueDetail) list"
  ai_summaries :: "(string \<times> string) list"
  ai_refs :: "(string \<times> ConfluenceReference list) list"
  ai_force_refresh :: bool

definition input_of :: "IssueDetailsResponse \<Rightarrow> (string \<times> string) list \<Rightarrow>
    (string \<times> ConfluenceReference list) list \<Rightarrow> bool \<Rightarrow> analysis_input" where
  "input_of details summaries refs force =
     \<lparr>ai_issue_map = dict_of (map (\<lambda>d. (id_key d, d)) (dr_issues details)),
      ai_summaries = summaries, ai_refs = refs, ai_force_refresh = force\<rparr>"

definition refs_for :: "analysis_input \<Rightarrow> string \<Rightarrow> ConfluenceReference list" where
  "refs_for inp key = (case map_of (ai_refs inp) key of None \<Rightarrow> [] | Some rs \<Rightarrow> rs)"

definition cache_key :: "string \<Rightarrow> IssueDetail \<Rightarrow> string \<times> string" where
  "cache_key key issue =
     (key, if id_changelog issue = [] then [] else ce_timestamp (last (id_changelog issue)))"

definition cache_put :: "analyser \<Rightarrow> string \<times> string \<Rightarrow> BlockerAnalysis \<Rightarrow> acache \<Rightarrow> acache" where
  "cache_put az k r cache =
     (if 0 < az_cache_max_size az then
        AList.update k r
          (if az_cache_max_size az \<le> int (length cache) then AList.delete (fst (hd cache)) cache else cache)
      else cache)"

text \<open>The first step of a task: a result without an LLM call, if there is one.\<close>

definition lookup_step :: "analysis_input \<Rightarrow> string \<Rightarrow> acache \<Rightarrow> BlockerAnalysis option" where
  "lookup_step inp key cache =
     (case map_of (ai_issue_map inp) key of
        None \<Rightarrow> Some (degraded key ''issue not found in /issue_details response'')
      | Some issue \<Rightarrow>
          if ai_force_refresh inp then None
          else (case map_of cache (cache_key key issue) of
                  None \<Rightarrow> None
                | Some cached \<Rightarrow>
                    Some (if refs_for inp key \<noteq> [] \<and> ba_confluence_refs cached = []
                          then cached\<lparr>ba_confluence_refs := refs_for inp key\<rparr> else cached)))"

text \<open>The second step: the LLM call has ended.\<close>

definition finish_step :: "analyser \<Rightarrow> agent \<Rightarrow> analysis_input \<Rightarrow> string \<Rightarrow> acache \<Rightarrow>
    (exn + BlockerAnalysis) \<times> acache" where
  "finish_step az agent inp key cache =
     (let issue = the (map_of (ai_issue_map inp) key)
      in case analyse_one az agent issue (ai_summaries inp) (refs_for inp key) of
           Inl e \<Rightarrow> (Inl e, cache)
         | Inr r \<Rightarrow> (Inr r, cache_put az (cache_key key issue) r cache))"

subsection \<open>Many issues\<close>

datatype task = Waiting | Running | Done "exn + BlockerAnalysis"

record astate =
  as_cache :: acache
  as_tasks :: "task list"

definition running :: "task list \<Rightarrow> nat" where
  "running ts = length (filter (\<lambda>t. t = Running) ts)"

definition advance :: "analyser \<Rightarrow> analysis_input \<Rightarrow> string list \<Rightarrow> nat \<times> agent \<Rightarrow> astate \<Rightarrow> astate" where
  "advance az inp keys step st =
     (let i = fst step in
      if length (as_tasks st) \<le> i then st
      else case as_tasks st ! i of
             Waiting \<Rightarrow>
               if int (running (as_tasks st)) < az_max_concurrency az then
                 (case lookup_step inp (keys ! i) (as_cache st) of
                    Some r \<Rightarrow> st\<lparr>as_tasks := (as_tasks st)[i := Done (Inr r)]\<rparr>
                  | None \<Rightarrow> st\<lparr>as_tasks := (as_tasks st)[i := Running]\<rparr>)
               else st
           | Running \<Rightarrow>
               (case finish_step az (snd step) inp (keys ! i) (as_cache st) of
                  (r, cache) \<Rightarrow> st\<lparr>as_cache := cache, as_tasks := (as_tasks st)[i := Done r]\<rparr>)
           | Done _ \<Rightarrow> st)"

definition start :: "string list \<Rightarrow> acache \<Rightarrow> astate" where
  "start keys cache = \<lparr>as_cache = cache, as_tasks = replicate (length keys) Waiting\<rparr>"

definition run_schedule :: "analyser \<Rightarrow> analysis_input \<Rightarrow> string list \<Rightarrow> (nat \<times> agent) list \<Rightarrow> acache \<Rightarrow> astate"
  where
  "run_schedule az inp keys sched cache =
     foldl (\<lambda>st step. advance az inp keys step st) (start keys cache) sched"

fun task_result :: "string \<Rightarrow> task \<Rightarrow> BlockerAnalysis option" where
  "task_result key (Done (Inr r)) = Some r"
| "task_result key (Done (Inl e)) = Some (degraded key (''analysis failed: '' @ exn_str e))"
| "task_result key _ = None"

text \<open>\<open>analyse\<close> returns when every task has ended; \<open>None\<close> is a schedule that has not got there.\<close>

definition analyse :: "analyser \<Rightarrow> analysis_input \<Rightarrow> string list \<Rightarrow> (nat \<times> agent) list \<Rightarrow> acache \<Rightarrow>
    BlockerAnalysis list option \<times> acache" where
  "analyse az inp keys sched cache =
     (let st = run_schedule az inp keys sched cache;
          rs = map2 task_result keys (as_tasks st)
      in (if None \<in> set rs then None else Some (map the rs), as_cache st))"

subsection \<open>Laws of the cache and of a step\<close>

lemma length_delete_hd: "d \<noteq> [] \<Longrightarrow> length (AList.delete (fst (hd d)) d) < length d"
  by (cases d) (auto simp: AList.delete_eq intro: le_imp_less_Suc length_filter_le)

lemma cache_put_bounded:
  assumes "int (length cache) \<le> max 0 (az_cache_max_size az)"
  shows "int (length (cache_put az k r cache)) \<le> max 0 (az_cache_max_size az)"
proof (cases "az_cache_max_size az \<le> int (length cache) \<and> 0 < az_cache_max_size az")
  case True
  then have "cache \<noteq> []" by auto
  from length_delete_hd [OF this] show ?thesis
    using True assms length_update_le [of k r "AList.delete (fst (hd cache)) cache"]
    by (simp add: cache_put_def)
next
  case False
  then show ?thesis using assms length_update_le [of k r cache] by (auto simp: cache_put_def)
qed

lemma set_cache_put: "set (cache_put az k r cache) \<subseteq> insert (k, r) (set cache)"
proof -
  have "set (AList.update k r d) \<subseteq> insert (k, r) (set cache)" if "set d \<subseteq> set cache" for d
    using set_update_subset [of k r d] that by blast
  then show ?thesis using set_delete_subset [of "fst (hd cache)" cache] by (auto simp: cache_put_def)
qed

lemma finish_cache_bounded:
  "int (length cache) \<le> max 0 (az_cache_max_size az) \<Longrightarrow>
     int (length (snd (finish_step az ag inp key cache))) \<le> max 0 (az_cache_max_size az)"
  by (simp add: finish_step_def Let_def cache_put_bounded split: sum.split)

lemma advance_length [simp]: "length (as_tasks (advance az inp keys step st)) = length (as_tasks st)"
  by (auto simp: advance_def Let_def split: task.splits option.splits prod.splits)

lemma advance_cases:
  obtains (idle) "advance az inp keys (i, ag) st = st"
  | (hit) r where "i < length (as_tasks st)" "as_tasks st ! i = Waiting"
      "lookup_step inp (keys ! i) (as_cache st) = Some r"
      "advance az inp keys (i, ag) st = st\<lparr>as_tasks := (as_tasks st)[i := Done (Inr r)]\<rparr>"
  | (call) "i < length (as_tasks st)" "as_tasks st ! i = Waiting"
      "lookup_step inp (keys ! i) (as_cache st) = None"
      "int (running (as_tasks st)) < az_max_concurrency az"
      "advance az inp keys (i, ag) st = st\<lparr>as_tasks := (as_tasks st)[i := Running]\<rparr>"
  | (finish) r cache where "i < length (as_tasks st)" "as_tasks st ! i = Running"
      "finish_step az ag inp (keys ! i) (as_cache st) = (r, cache)"
      "advance az inp keys (i, ag) st = st\<lparr>as_cache := cache, as_tasks := (as_tasks st)[i := Done r]\<rparr>"
proof (cases "i < length (as_tasks st)")
  case False
  then show thesis by (intro idle) (simp add: advance_def)
next
  case i: True
  show thesis
  proof (cases "as_tasks st ! i")
    case Waiting
    show thesis
    proof (cases "int (running (as_tasks st)) < az_max_concurrency az")
      case True
      then show thesis using i Waiting hit call
        by (cases "lookup_step inp (keys ! i) (as_cache st)") (simp_all add: advance_def)
    next
      case False
      then show thesis using i Waiting by (intro idle) (simp add: advance_def)
    qed
  next
    case Running
    then show thesis using i finish
      by (cases "finish_step az ag inp (keys ! i) (as_cache st)") (simp add: advance_def)
  next
    case (Done r)
    then show thesis using i by (intro idle) (simp add: advance_def)
  qed
qed

lemma run_induct:
  assumes "P (start keys cache)" and "\<And>st i ag. P st \<Longrightarrow> P (advance az inp keys (i, ag) st)"
  shows "P (run_schedule az inp keys sched cache)"
proof -
  have "P st \<Longrightarrow> P (foldl (\<lambda>st step. advance az inp keys step st) st sched)" for st
    using assms(2) by (induction sched arbitrary: st) auto
  then show ?thesis using assms(1) by (simp add: run_schedule_def)
qed

lemma run_length [simp]: "length (as_tasks (run_schedule az inp keys sched cache)) = length keys"
  by (rule run_induct [where P = "\<lambda>st. length (as_tasks st) = length keys"]) (simp_all add: start_def)

text \<open>The number of tasks in their LLM call.\<close>

lemma running_replicate [simp]: "running (replicate n Waiting) = 0"
  by (simp add: running_def)

lemma running_Cons: "running (t # ts) = (if t = Running then 1 else 0) + running ts"
  by (simp add: running_def)

lemma running_update:
  "i < length ts \<Longrightarrow> int (running (ts[i := t])) =
     int (running ts) - (if ts ! i = Running then 1 else 0) + (if t = Running then 1 else 0)"
proof (induction ts arbitrary: i)
  case (Cons u ts)
  show ?case
  proof (cases i)
    case (Suc j)
    then have "int (running (ts[j := t])) =
        int (running ts) - (if ts ! j = Running then 1 else 0) + (if t = Running then 1 else 0)"
      using Cons by simp
    then show ?thesis by (simp add: Suc running_Cons)
  qed (simp add: running_Cons)
qed simp

lemma advance_running:
  assumes "int (running (as_tasks st)) \<le> max 0 (az_max_concurrency az)"
  shows "int (running (as_tasks (advance az inp keys (i, ag) st))) \<le> max 0 (az_max_concurrency az)"
  by (cases rule: advance_cases [of az inp keys i ag st])
    (use assms in \<open>auto simp: running_update\<close>)

text \<open>
  What holds of every result: a property \<open>Q\<close> of the result of a key and a property \<open>C\<close> of a
  cache entry that it rests on, kept by a missing issue, a cached result and a fresh one.
\<close>

locale task_invariant =
  fixes az :: analyser and inp :: analysis_input
    and C :: "string \<times> string \<Rightarrow> BlockerAnalysis \<Rightarrow> bool" and Q :: "string \<Rightarrow> BlockerAnalysis \<Rightarrow> bool"
  assumes missing: "Q k (degraded k reason)"
    and cached: "\<not> ai_force_refresh inp \<Longrightarrow> map_of (ai_issue_map inp) k = Some issue \<Longrightarrow>
           C (cache_key k issue) r \<Longrightarrow> Q k r"
    and cached_refs: "\<not> ai_force_refresh inp \<Longrightarrow> map_of (ai_issue_map inp) k = Some issue \<Longrightarrow> C (cache_key k issue) r \<Longrightarrow>
           Q k (r\<lparr>ba_confluence_refs := rs\<rparr>)"
    and fresh: "map_of (ai_issue_map inp) k = Some issue \<Longrightarrow> Q k (assemble az issue sums rs s)"
    and fresh_entry: "map_of (ai_issue_map inp) k = Some issue \<Longrightarrow>
           C (cache_key k issue) (assemble az issue sums rs s)"
begin

definition holds :: "string list \<Rightarrow> astate \<Rightarrow> bool" where
  "holds keys st \<longleftrightarrow> length (as_tasks st) = length keys \<and> (\<forall>(k, r) \<in> set (as_cache st). C k r) \<and>
     (\<forall>i < length keys. (as_tasks st ! i = Running \<longrightarrow> map_of (ai_issue_map inp) (keys ! i) \<noteq> None) \<and>
        (\<forall>r. as_tasks st ! i = Done (Inr r) \<longrightarrow> Q (keys ! i) r))"

lemma lookup_holds:
  assumes "\<forall>(k, r) \<in> set cache. C k r" "lookup_step inp key cache = Some r"
  shows "Q key r"
proof (cases "map_of (ai_issue_map inp) key")
  case None
  then show ?thesis using assms(2) missing by (auto simp: lookup_step_def)
next
  case (Some issue)
  then have force: "\<not> ai_force_refresh inp" using assms(2) by (auto simp: lookup_step_def)
  obtain c where c: "map_of cache (cache_key key issue) = Some c"
    and r: "r = c \<or> r = c\<lparr>ba_confluence_refs := refs_for inp key\<rparr>"
    using assms(2) Some by (auto simp: lookup_step_def split: option.splits if_splits)
  have "C (cache_key key issue) c" using assms(1) map_of_SomeD [OF c] by blast
  then show ?thesis using r cached [OF force Some] cached_refs [OF force Some] by blast
qed

lemma finish_holds:
  assumes "finish_step az ag inp key cache = (r, cache')" "map_of (ai_issue_map inp) key \<noteq> None"
    and "\<forall>(k, r) \<in> set cache. C k r"
  shows "(\<forall>v. r = Inr v \<longrightarrow> Q key v) \<and> (\<forall>(k, r) \<in> set cache'. C k r)"
proof -
  obtain issue where i: "map_of (ai_issue_map inp) key = Some issue" using assms(2) by auto
  show ?thesis
  proof (cases "analyse_one az ag issue (ai_summaries inp) (refs_for inp key)")
    case (Inl e)
    then show ?thesis using assms i by (auto simp: finish_step_def)
  next
    case (Inr v)
    then obtain s where "v = assemble az issue (ai_summaries inp) (refs_for inp key) s"
      by (auto simp: analyse_one_def split: agent_result.splits)
    then show ?thesis
      using assms i Inr fresh [OF i] fresh_entry [OF i] set_cache_put [of az "cache_key key issue" v cache]
      by (auto simp: finish_step_def)
  qed
qed

lemma advance_holds:
  assumes "holds keys st"
  shows "holds keys (advance az inp keys (i, ag) st)"
proof (cases rule: advance_cases [of az inp keys i ag st])
  case idle
  then show ?thesis using assms by simp
next
  case (hit r)
  then show ?thesis using assms lookup_holds [of "as_cache st" "keys ! i" r]
    by (auto simp: holds_def nth_list_update)
next
  case call
  then have "map_of (ai_issue_map inp) (keys ! i) \<noteq> None" by (auto simp: lookup_step_def split: option.splits)
  then show ?thesis using call assms by (auto simp: holds_def nth_list_update)
next
  case (finish r cache)
  then have "map_of (ai_issue_map inp) (keys ! i) \<noteq> None" using assms by (auto simp: holds_def)
  then have "(\<forall>v. r = Inr v \<longrightarrow> Q (keys ! i) v) \<and> (\<forall>(k, r) \<in> set cache. C k r)"
    using finish_holds [OF finish(3)] assms by (auto simp: holds_def)
  then show ?thesis using finish assms by (auto simp: holds_def nth_list_update)
qed

lemma run_holds:
  assumes "\<forall>(k, r) \<in> set cache. C k r"
  shows "holds keys (run_schedule az inp keys sched cache)"
proof (rule run_induct [where P = "holds keys"])
  show "holds keys (start keys cache)" using assms by (auto simp: start_def holds_def)
qed (rule advance_holds)

lemma analyse_holds:
  assumes "analyse az inp keys sched cache = (Some rs, cache')" "\<forall>(k, r) \<in> set cache. C k r"
  shows "length rs = length keys" "\<forall>i < length keys. Q (keys ! i) (rs ! i)" "\<forall>(k, r) \<in> set cache'. C k r"
proof -
  let ?st = "run_schedule az inp keys sched cache"
  let ?ts = "as_tasks ?st"
  have h: "holds keys ?st" by (rule run_holds [OF assms(2)])
  have some: "None \<notin> set (map2 task_result keys ?ts)" and rs: "rs = map the (map2 task_result keys ?ts)"
    and c: "cache' = as_cache ?st"
    using assms(1) by (auto simp: analyse_def Let_def split: if_splits)
  show "length rs = length keys" by (simp add: rs)
  show "\<forall>(k, r) \<in> set cache'. C k r" using h c by (simp add: holds_def)
  show "\<forall>i < length keys. Q (keys ! i) (rs ! i)"
  proof (intro allI impI)
    fix i assume i: "i < length keys"
    have "task_result (keys ! i) (?ts ! i) \<in> set (map2 task_result keys ?ts)"
      using i by (auto simp: set_conv_nth intro!: exI [of _ i])
    then have "task_result (keys ! i) (?ts ! i) \<noteq> None" using some by metis
    then obtain out where "?ts ! i = Done out" by (cases "?ts ! i") auto
    then show "Q (keys ! i) (rs ! i)"
      using i h missing by (cases out) (auto simp: rs holds_def)
  qed
qed

end

subsection \<open>Alignment and facts\<close>

lemma input_map_key:
  "map_of (ai_issue_map (input_of d sums refs force)) k = Some issue \<Longrightarrow>
     id_key issue = k \<and> issue \<in> set (dr_issues d)"
proof -
  assume "map_of (ai_issue_map (input_of d sums refs force)) k = Some issue"
  then have "map_of (rev (map (\<lambda>d. (id_key d, d)) (dr_issues d))) k = Some issue"
    by (simp add: input_of_def map_of_dict_of)
  then have "(k, issue) \<in> set (rev (map (\<lambda>d. (id_key d, d)) (dr_issues d)))" by (rule map_of_SomeD)
  then show ?thesis by auto
qed

definition facts_match :: "analyser \<Rightarrow> IssueDetail \<Rightarrow> BlockerAnalysis \<Rightarrow> bool" where
  "facts_match az issue r \<longleftrightarrow>
     ba_issue_key r = id_key issue \<and> ba_days_blocked r = compute_days_blocked az issue \<and>
     ba_owner r = or_else (id_assignee issue) ''Unassigned'' \<and> ba_priority r = id_priority issue \<and>
     ba_dependent_issues r = map il_linked_issue_key (id_links issue) \<and>
     ba_due_date r = id_due_date issue \<and> ba_flagged r = id_flagged issue \<and>
     ba_blocked_reason r = blocked_reason_of (newest_first (id_comments issue))"

lemma facts_assemble [simp]: "facts_match az issue (assemble az issue sums rs s)"
  by (simp add: facts_match_def assemble_def)

lemma facts_refs [simp]: "facts_match az issue (r\<lparr>ba_confluence_refs := rs\<rparr>) = facts_match az issue r"
  by (simp add: facts_match_def)

lemma degraded_key [simp]: "ba_issue_key (degraded k reason) = k"
  by (simp add: degraded_def)

interpretation aligned: task_invariant az "input_of d sums refs force"
    "\<lambda>k r. ba_issue_key r = fst k" "\<lambda>k r. ba_issue_key r = k"
  for az d sums refs force
  by unfold_locales (auto simp: cache_key_def assemble_def dest: input_map_key)

text \<open>
  The source of a result: a day and an issue the backend returned on it, under the key and the
  last time stamp the cache files it under. \<open>S\<close> holds the sources of earlier calls; a call that
  forces a refresh uses its own only.
\<close>

definition sourced :: "analyser \<Rightarrow> (int \<times> IssueDetail) set \<Rightarrow> string \<times> string \<Rightarrow> BlockerAnalysis \<Rightarrow> bool" where
  "sourced az S k r \<longleftrightarrow> (\<exists>(day, issue) \<in> S. cache_key (id_key issue) issue = k \<and>
     facts_match (az\<lparr>az_today := day\<rparr>) issue r)"

definition own_sources :: "analyser \<Rightarrow> IssueDetailsResponse \<Rightarrow> (int \<times> IssueDetail) set" where
  "own_sources az d = {az_today az} \<times> set (dr_issues d)"

lemma sourced_mono: "S \<subseteq> T \<Longrightarrow> sourced az S k r \<Longrightarrow> sourced az T k r"
  unfolding sourced_def by blast

lemma sourced_refs [simp]: "sourced az S k (r\<lparr>ba_confluence_refs := rs\<rparr>) = sourced az S k r"
  by (simp add: sourced_def)

lemma sourced_own:
  assumes "map_of (ai_issue_map (input_of d sums refs force)) k = Some issue"
  shows "sourced az (own_sources az d) (cache_key k issue) (assemble az issue sums' rs s)"
  using input_map_key [OF assms] unfolding sourced_def own_sources_def
  by (intro bexI [of _ "(az_today az, issue)"]) auto

interpretation facts: task_invariant az "input_of d sums refs force" "sourced az (S \<union> own_sources az d)"
    "\<lambda>k r. (\<exists>reason. r = degraded k reason) \<or>
       (\<exists>now \<in> set (dr_issues d). id_key now = k \<and>
          sourced az (if force then own_sources az d else S \<union> own_sources az d) (cache_key k now) r)"
  for az d sums refs force S
proof unfold_locales
  fix k issue r rs assume n: "\<not> ai_force_refresh (input_of d sums refs force)"
    and i: "map_of (ai_issue_map (input_of d sums refs force)) k = Some issue"
    and c: "sourced az (S \<union> own_sources az d) (cache_key k issue) r"
  have "\<not> force" using n by (simp add: input_of_def)
  then have now: "\<exists>now \<in> set (dr_issues d). id_key now = k \<and>
      sourced az (if force then own_sources az d else S \<union> own_sources az d) (cache_key k now) r"
    using input_map_key [OF i] c by auto
  then show "(\<exists>reason. r = degraded k reason) \<or> (\<exists>now \<in> set (dr_issues d). id_key now = k \<and>
      sourced az (if force then own_sources az d else S \<union> own_sources az d) (cache_key k now) r)" ..
  show "(\<exists>reason. r\<lparr>ba_confluence_refs := rs\<rparr> = degraded k reason) \<or> (\<exists>now \<in> set (dr_issues d). id_key now = k \<and>
      sourced az (if force then own_sources az d else S \<union> own_sources az d) (cache_key k now)
        (r\<lparr>ba_confluence_refs := rs\<rparr>))"
    unfolding sourced_refs using now ..
next
  fix k issue sums' rs s assume i: "map_of (ai_issue_map (input_of d sums refs force)) k = Some issue"
  have own: "own_sources az d \<subseteq> (if force then own_sources az d else S \<union> own_sources az d)"
    "own_sources az d \<subseteq> S \<union> own_sources az d" by auto
  show "sourced az (S \<union> own_sources az d) (cache_key k issue) (assemble az issue sums' rs s)"
    by (rule sourced_mono [OF own(2) sourced_own [OF i]])
  show "(\<exists>reason. assemble az issue sums' rs s = degraded k reason) \<or> (\<exists>now \<in> set (dr_issues d). id_key now = k \<and>
      sourced az (if force then own_sources az d else S \<union> own_sources az d) (cache_key k now)
        (assemble az issue sums' rs s))"
    using input_map_key [OF i] sourced_mono [OF own(1) sourced_own [OF i]] by blast
qed auto

text \<open>The cache after any number of earlier analyses, each on its day and in its schedule.\<close>

record analysis_call =
  an_today :: int
  an_details :: IssueDetailsResponse
  an_summaries :: "(string \<times> string) list"
  an_refs :: "(string \<times> ConfluenceReference list) list"
  an_force :: bool
  an_keys :: "string list"
  an_schedule :: "(nat \<times> agent) list"

definition call_state :: "analyser \<Rightarrow> acache \<Rightarrow> analysis_call \<Rightarrow> astate" where
  "call_state az cache c = run_schedule (az\<lparr>az_today := an_today c\<rparr>)
     (input_of (an_details c) (an_summaries c) (an_refs c) (an_force c)) (an_keys c) (an_schedule c) cache"

definition cache_after :: "analyser \<Rightarrow> analysis_call list \<Rightarrow> acache" where
  "cache_after az calls = foldl (\<lambda>cache c. as_cache (call_state az cache c)) [] calls"

lemma cache_after_snoc:
  "cache_after az (calls @ [c]) = as_cache (call_state az (cache_after az calls) c)"
  by (simp add: cache_after_def)

lemma cache_after_aligned: "\<forall>(k, r) \<in> set (cache_after az calls). ba_issue_key r = fst k"
proof (induction calls rule: rev_induct)
  case (snoc c calls)
  have "aligned.holds (an_details c) (an_summaries c) (an_refs c) (an_force c) (an_keys c)
      (call_state az (cache_after az calls) c)"
    unfolding call_state_def by (rule aligned.run_holds [OF snoc])
  then show ?case by (simp add: aligned.holds_def cache_after_snoc)
qed (simp add: cache_after_def)

text \<open>The sources of the calls made so far.\<close>

definition sources :: "analysis_call list \<Rightarrow> (int \<times> IssueDetail) set" where
  "sources calls = (\<Union>c \<in> set calls. {an_today c} \<times> set (dr_issues (an_details c)))"

lemma sources_snoc: "sources (calls @ [c]) = sources calls \<union> own_sources (az\<lparr>az_today := an_today c\<rparr>) (an_details c)"
  by (auto simp: sources_def own_sources_def)

lemma sourced_today [simp]: "sourced (az\<lparr>az_today := t\<rparr>) = sourced az"
  by (simp add: sourced_def fun_eq_iff)

lemma cache_after_sourced: "\<forall>(k, r) \<in> set (cache_after az calls). sourced az (sources calls) k r"
proof (induction calls rule: rev_induct)
  case (snoc c calls)
  let ?az = "az\<lparr>az_today := an_today c\<rparr>"
  have "\<forall>(k, r) \<in> set (cache_after az calls). sourced ?az (sources calls \<union> own_sources ?az (an_details c)) k r"
    using snoc sourced_mono [of "sources calls" "sources calls \<union> own_sources ?az (an_details c)"]
    unfolding sourced_today by blast
  then have "facts.holds (an_details c) (an_summaries c) (an_refs c) (an_force c) ?az (sources calls) (an_keys c)
      (call_state az (cache_after az calls) c)"
    unfolding call_state_def by (rule facts.run_holds)
  then have "\<forall>(k, r) \<in> set (as_cache (call_state az (cache_after az calls) c)).
      sourced ?az (sources calls \<union> own_sources ?az (an_details c)) k r"
    unfolding facts.holds_def by blast
  then show ?case unfolding cache_after_snoc sources_snoc [of _ _ az] sourced_today .
qed (simp add: cache_after_def)

lemma call_state_bounds:
  assumes "int (length cache) \<le> max 0 (az_cache_max_size az)"
  shows "int (length (as_cache (call_state az cache c))) \<le> max 0 (az_cache_max_size az) \<and>
     int (running (as_tasks (call_state az cache c))) \<le> max 0 (az_max_concurrency az)"
proof -
  let ?az = "az\<lparr>az_today := an_today c\<rparr>"
  let ?P = "\<lambda>st. int (length (as_cache st)) \<le> max 0 (az_cache_max_size ?az) \<and>
     int (running (as_tasks st)) \<le> max 0 (az_max_concurrency ?az)"
  have "?P (call_state az cache c)"
    unfolding call_state_def
  proof (rule run_induct [where P = ?P])
    show "?P (start (an_keys c) cache)" using assms by (simp add: start_def)
    fix st :: astate and i ag assume p: "?P st"
    let ?inp = "input_of (an_details c) (an_summaries c) (an_refs c) (an_force c)"
    have "int (length (as_cache (advance ?az ?inp (an_keys c) (i, ag) st))) \<le> max 0 (az_cache_max_size ?az)"
    proof (cases rule: advance_cases [of ?az ?inp "an_keys c" i ag st])
      case (finish r cache)
      then show ?thesis using p finish_cache_bounded [of "as_cache st" ?az ag ?inp "an_keys c ! i"] by simp
    qed (use p in simp_all)
    then show "?P (advance ?az ?inp (an_keys c) (i, ag) st)" using p advance_running by blast
  qed
  then show ?thesis by simp
qed

lemma cache_after_bounded: "int (length (cache_after az calls)) \<le> max 0 (az_cache_max_size az)"
  by (induction calls rule: rev_induct) (simp add: cache_after_def, simp add: cache_after_snoc call_state_bounds)

subsection \<open>Progress\<close>

text \<open>Steps still to take: two for a waiting task, one for a running one.\<close>

fun effort :: "task list \<Rightarrow> nat" where
  "effort [] = 0"
| "effort (Waiting # ts) = 2 + effort ts"
| "effort (Running # ts) = 1 + effort ts"
| "effort (Done _ # ts) = effort ts"

lemma effort_update: "i < length ts \<Longrightarrow> effort [t] < effort [ts ! i] \<Longrightarrow> effort (ts[i := t]) < effort ts"
proof (induction ts arbitrary: i)
  case (Cons u ts)
  have split: "effort (v # vs) = effort [v] + effort vs" for v vs by (cases v) simp_all
  show ?case
  proof (cases i)
    case 0
    then show ?thesis using Cons.prems split [of t ts] split [of u ts] by simp
  next
    case (Suc j)
    then have "effort (ts[j := t]) < effort ts" using Cons by simp
    then show ?thesis using Suc split [of u "ts[j := t]"] split [of u ts] by simp
  qed
qed simp

lemma effort_0: "effort ts = 0 \<longleftrightarrow> (\<forall>t \<in> set ts. \<exists>r. t = Done r)"
  by (induction ts rule: effort.induct) auto

lemma not_running: "running ts = 0 \<longleftrightarrow> Running \<notin> set ts"
  by (auto simp: running_def filter_empty_conv)

lemma can_advance:
  assumes "1 \<le> az_max_concurrency az" "effort (as_tasks st) \<noteq> 0"
  shows "\<exists>i. effort (as_tasks (advance az inp keys (i, ag) st)) < effort (as_tasks st)"
proof (cases "Running \<in> set (as_tasks st)")
  case True
  then obtain i where i: "i < length (as_tasks st)" "as_tasks st ! i = Running" by (auto simp: in_set_conv_nth)
  obtain r cache where "finish_step az ag inp (keys ! i) (as_cache st) = (r, cache)" by fastforce
  then have "as_tasks (advance az inp keys (i, ag) st) = (as_tasks st)[i := Done r]"
    using i by (simp add: advance_def)
  then show ?thesis using effort_update [of i "as_tasks st" "Done r"] i by (intro exI [of _ i]) simp
next
  case False
  then have idle: "running (as_tasks st) = 0" by (simp add: not_running)
  obtain t where "t \<in> set (as_tasks st)" "\<not> (\<exists>r. t = Done r)" using assms(2) by (auto simp: effort_0)
  then have "Waiting \<in> set (as_tasks st)" using False by (metis task.exhaust)
  then obtain i where i: "i < length (as_tasks st)" "as_tasks st ! i = Waiting" by (auto simp: in_set_conv_nth)
  have "\<exists>t. effort [t] < 2 \<and> as_tasks (advance az inp keys (i, ag) st) = (as_tasks st)[i := t]"
    using assms(1) i
  proof (cases "lookup_step inp (keys ! i) (as_cache st)")
    case None
    then show ?thesis using idle assms(1) i by (intro exI [of _ Running]) (simp add: advance_def)
  next
    case (Some r)
    then show ?thesis using idle assms(1) i by (intro exI [of _ "Done (Inr r)"]) (simp add: advance_def)
  qed
  then show ?thesis using effort_update [of i "as_tasks st"] i by (intro exI [of _ i]) auto
qed

lemma run_append:
  "run_schedule az inp keys (sched @ later) cache =
     foldl (\<lambda>st step. advance az inp keys step st) (run_schedule az inp keys sched cache) later"
  by (simp add: run_schedule_def)

lemma analyse_done:
  assumes "effort (as_tasks (run_schedule az inp keys sched cache)) = 0"
  shows "fst (analyse az inp keys sched cache) \<noteq> None"
proof -
  have "None \<notin> set (map2 task_result keys (as_tasks (run_schedule az inp keys sched cache)))"
  proof
    assume "None \<in> set (map2 task_result keys (as_tasks (run_schedule az inp keys sched cache)))"
    then obtain k t where kt: "t \<in> set (as_tasks (run_schedule az inp keys sched cache))" "task_result k t = None"
      by (metis (no_types, lifting) imageE list.set_map case_prod_unfold prod.collapse set_zip_rightD)
    then obtain r where "t = Done r" using assms by (auto simp: effort_0)
    then show False using kt(2) by (cases r) auto
  qed
  then show ?thesis by (simp add: analyse_def Let_def)
qed

text \<open>A schedule that is followed by enough rounds over all tasks gets to the end.\<close>

definition rounds :: "agent \<Rightarrow> nat \<Rightarrow> nat \<Rightarrow> (nat \<times> agent) list" where
  "rounds ag n k = map (\<lambda>i. (i, ag)) (concat (replicate k [0..<n]))"

lemma advance_effort:
  "advance az inp keys (i, ag) st = st \<or>
     effort (as_tasks (advance az inp keys (i, ag) st)) < effort (as_tasks st)"
  by (cases rule: advance_cases [of az inp keys i ag st]) (auto intro!: effort_update)

lemma steps_effort:
  "foldl (\<lambda>st step. advance az inp keys step st) st (map (\<lambda>i. (i, ag)) is) = st \<and>
     (\<forall>i \<in> set is. advance az inp keys (i, ag) st = st) \<or>
   effort (as_tasks (foldl (\<lambda>st step. advance az inp keys step st) st (map (\<lambda>i. (i, ag)) is))) < effort (as_tasks st)"
proof (induction "is" arbitrary: st)
  case (Cons i "is")
  show ?case
    using advance_effort [of az inp keys i ag st] Cons.IH [of "advance az inp keys (i, ag) st"] by auto
qed simp

lemma advance_beyond: "length (as_tasks st) \<le> i \<Longrightarrow> advance az inp keys (i, ag) st = st"
  by (simp add: advance_def)

lemma round_effort:
  assumes "1 \<le> az_max_concurrency az" "effort (as_tasks st) \<noteq> 0"
  shows "effort (as_tasks (foldl (\<lambda>st step. advance az inp keys step st) st
     (map (\<lambda>i. (i, ag)) [0..<length (as_tasks st)]))) < effort (as_tasks st)"
proof -
  obtain i where i: "effort (as_tasks (advance az inp keys (i, ag) st)) < effort (as_tasks st)"
    using can_advance [OF assms] by blast
  then have "i \<in> set [0..<length (as_tasks st)]" using advance_beyond [of st i az inp keys ag] by force
  moreover have "advance az inp keys (i, ag) st \<noteq> st" using i by auto
  ultimately show ?thesis using steps_effort [of az inp keys st ag "[0..<length (as_tasks st)]"] by blast
qed

lemma steps_length:
  "length (as_tasks (foldl (\<lambda>st step. advance az inp keys step st) st steps)) = length (as_tasks st)"
  by (induction steps arbitrary: st) simp_all

lemma rounds_effort:
  assumes "1 \<le> az_max_concurrency az" "effort (as_tasks st) \<le> k" "length (as_tasks st) = n"
  shows "effort (as_tasks (foldl (\<lambda>st step. advance az inp keys step st) st (rounds ag n k))) = 0"
  using assms(2,3)
proof (induction k arbitrary: st)
  case (Suc k)
  let ?st = "foldl (\<lambda>st step. advance az inp keys step st) st (map (\<lambda>i. (i, ag)) [0..<n])"
  have "effort (as_tasks ?st) \<le> k"
  proof (cases "effort (as_tasks st) = 0")
    case True
    then have "effort (as_tasks ?st) = 0" using steps_effort [of az inp keys st ag "[0..<n]"] by auto
    then show ?thesis by simp
  next
    case False
    from round_effort [OF assms(1) this, of inp keys ag] show ?thesis using Suc.prems by simp
  qed
  from Suc.IH [OF this] show ?case using Suc.prems(2) by (simp add: rounds_def steps_length)
qed (simp add: rounds_def)

lemma effort_le: "effort ts \<le> 2 * length ts"
  by (induction ts rule: effort.induct) simp_all

lemma settles:
  assumes "1 \<le> az_max_concurrency az"
  shows "fst (analyse az inp keys (sched @ rounds ag (length keys) (2 * length keys)) cache) \<noteq> None"
proof -
  have "effort (as_tasks (run_schedule az inp keys sched cache)) \<le> 2 * length keys"
    using effort_le [of "as_tasks (run_schedule az inp keys sched cache)"] by simp
  from rounds_effort [OF assms this, of "length keys" inp keys ag] show ?thesis
    by (intro analyse_done) (simp add: run_append)
qed

lemma no_slot_no_result:
  assumes "az_max_concurrency az < 1" "keys \<noteq> []"
  shows "fst (analyse az inp keys sched cache) = None"
proof -
  have "as_tasks (run_schedule az inp keys sched cache) = replicate (length keys) Waiting"
    by (rule run_induct [where P = "\<lambda>st. as_tasks st = replicate (length keys) Waiting"])
      (use assms(1) in \<open>simp_all add: start_def advance_def\<close>)
  moreover have "None \<in> set (map2 task_result keys (replicate (length keys) Waiting))"
    using assms(2) by (cases keys) simp_all
  ultimately show ?thesis by (simp add: analyse_def Let_def)
qed

subsection \<open>A concrete issue\<close>

definition sample_issue :: IssueDetail where
  "sample_issue = \<lparr>id_key = ''A-1'', id_summary = None, id_priority = None, id_assignee = Some ''kim'',
     id_due_date = None, id_fix_versions = [], id_flagged = False, id_comments = [], id_links = [],
     id_changelog = [\<lparr>ce_field = ''status'', ce_from_value = None, ce_to_value = ''Blocked '', ce_author = ''kim'', ce_timestamp = ''t''\<rparr>]\<rparr>"

definition sample_details :: IssueDetailsResponse where
  "sample_details = \<lparr>dr_issues = [sample_issue], dr_not_found = [], dr_error = None\<rparr>"

definition sample_analyser :: analyser where
  "sample_analyser = \<lparr>az_blocked_statuses = DEFAULT_BLOCKED_STATUSES, az_max_concurrency = 1,
     az_cache_max_size = 10, az_today = 105, az_ts_date = (\<lambda>_. Some 100)\<rparr>"

definition sample_agent :: agent where
  "sample_agent prompt = AgentOutput \<lparr>sg_suggested_resolution = ''r'', sg_mitigation = ''m'', sg_risk_note = ''n'',
     sg_evidence = []\<rparr>"

definition sample_call :: "int \<Rightarrow> analysis_call" where
  "sample_call today = \<lparr>an_today = today, an_details = sample_details, an_summaries = [], an_refs = [],
     an_force = False, an_keys = [''A-1'', ''A-2''],
     an_schedule = [(0, sample_agent), (1, sample_agent), (0, sample_agent), (1, sample_agent)]\<rparr>"

definition call_results :: "analyser \<Rightarrow> acache \<Rightarrow> analysis_call \<Rightarrow> BlockerAnalysis list option" where
  "call_results az cache c = fst (analyse (az\<lparr>az_today := an_today c\<rparr>)
     (input_of (an_details c) (an_summaries c) (an_refs c) (an_force c)) (an_keys c) (an_schedule c) cache)"

lemma sample_call_results:
  "map_option (map (\<lambda>r. (ba_issue_key r, ba_days_blocked r, ba_owner r)))
     (call_results sample_analyser [] (sample_call 105)) = Some [(''A-1'', 5, ''kim''), (''A-2'', 0, ''unknown'')]"
  by code_simp

subsection \<open>Properties\<close>

text \<open>C14: the results of a call stand in the order of the keys asked for, one for each key,
  whatever the interleaving of the tasks, the failures of the LLM, missing issues, repeated keys,
  and whatever earlier calls left in the cache.\<close>

theorem results_follow_the_keys:
  assumes "call_results az (cache_after az calls) c = Some rs"
  shows "map ba_issue_key rs = an_keys c"
proof -
  let ?inp = "input_of (an_details c) (an_summaries c) (an_refs c) (an_force c)"
  let ?a = "analyse (az\<lparr>az_today := an_today c\<rparr>) ?inp (an_keys c) (an_schedule c) (cache_after az calls)"
  have a: "?a = (Some rs, snd ?a)" using assms by (simp add: call_results_def prod_eq_iff)
  note r = aligned.analyse_holds [OF a cache_after_aligned]
  show ?thesis by (rule nth_equalityI) (use r in auto)
qed

theorem results_follow_the_keys_witness:
  "\<exists>rs. call_results sample_analyser (cache_after sample_analyser []) (sample_call 105) = Some rs \<and>
     map ba_issue_key rs = [''A-1'', ''A-2'']"
proof -
  have "cache_after sample_analyser [] = []" by (simp add: cache_after_def)
  then obtain rs where rs: "call_results sample_analyser (cache_after sample_analyser []) (sample_call 105) = Some rs"
    using sample_call_results by auto
  from results_follow_the_keys [OF this] rs show ?thesis by (simp add: sample_call_def)
qed

text \<open>C15: trust boundary: whatever the LLM answers, in whatever order the tasks run and whatever
  was analysed before, every result is either the degraded placeholder of its key or carries
  exactly the facts (days blocked, owner, priority, dependent issues, due date, flag, blocked
  reason) of an issue the backend returned in this call or an earlier one, as of the day of that
  call, with the key and the last time stamp of the issue this call got; with a forced refresh the
  issue is of this call.\<close>

theorem facts_come_from_jira:
  assumes "call_results az (cache_after az calls) c = Some rs"
  shows "\<forall>i < length (an_keys c). (\<exists>reason. rs ! i = degraded (an_keys c ! i) reason) \<or>
     (\<exists>now \<in> set (dr_issues (an_details c)). \<exists>c' \<in> set (if an_force c then [c] else calls @ [c]).
        \<exists>issue \<in> set (dr_issues (an_details c')).
          id_key now = an_keys c ! i \<and> cache_key (id_key issue) issue = cache_key (id_key now) now \<and>
          facts_match (az\<lparr>az_today := an_today c'\<rparr>) issue (rs ! i))"
proof -
  let ?az = "az\<lparr>az_today := an_today c\<rparr>"
  let ?a = "analyse ?az
      (input_of (an_details c) (an_summaries c) (an_refs c) (an_force c)) (an_keys c) (an_schedule c) (cache_after az calls)"
  have a: "?a = (Some rs, snd ?a)" using assms by (simp add: call_results_def prod_eq_iff)
  have "\<forall>(k, r) \<in> set (cache_after az calls). sourced ?az (sources calls \<union> own_sources ?az (an_details c)) k r"
    using cache_after_sourced [of az calls] sourced_mono [of "sources calls" "sources calls \<union> own_sources ?az (an_details c)"]
    unfolding sourced_today by blast
  from facts.analyse_holds(2) [OF a this] show ?thesis
    unfolding sourced_today by (auto simp: sourced_def sources_def own_sources_def) blast+
qed

theorem facts_come_from_jira_witness:
  "\<exists>rs. call_results sample_analyser (cache_after sample_analyser [sample_call 105]) (sample_call 107) = Some rs \<and>
     map ba_days_blocked rs = [5, 0] \<and>
     ((\<exists>reason. rs ! 0 = degraded ''A-1'' reason) \<or> facts_match sample_analyser sample_issue (rs ! 0) \<or>
      facts_match (sample_analyser\<lparr>az_today := 107\<rparr>) sample_issue (rs ! 0))"
proof -
  have "map_option (map ba_days_blocked)
     (call_results sample_analyser (cache_after sample_analyser [sample_call 105]) (sample_call 107)) = Some [5, 0]"
    by code_simp
  then obtain rs where rs: "call_results sample_analyser (cache_after sample_analyser [sample_call 105]) (sample_call 107) = Some rs"
    and d: "map ba_days_blocked rs = [5, 0]" by auto
  have "sample_analyser\<lparr>az_today := 105\<rparr> = sample_analyser" by (simp add: sample_analyser_def)
  moreover have "0 < length (an_keys (sample_call 107))" by (simp add: sample_call_def)
  note facts_come_from_jira [OF rs, rule_format, OF this]
  ultimately show ?thesis using rs d by (auto simp: sample_call_def sample_details_def)
qed

text \<open>C24: at every moment of every call the cache holds at most \<open>cache_max_size\<close> entries and at
  most \<open>max_concurrency\<close> LLM calls are in flight.\<close>

theorem analysis_stays_bounded:
  "int (length (as_cache (call_state az (cache_after az calls) c))) \<le> max 0 (az_cache_max_size az) \<and>
   int (running (as_tasks (call_state az (cache_after az calls) c))) \<le> max 0 (az_max_concurrency az)"
  by (rule call_state_bounds [OF cache_after_bounded])

text \<open>C20: no interleaving gets stuck: with at least one slot, every partial schedule, whatever the
  LLM did in it, can be continued, with any LLM, to one in which the call returns; and with no slot,
  which the settings admit, no call with a key to analyse ever returns.\<close>

theorem analysis_never_deadlocks:
  "(\<exists>is. fst (analyse az inp keys (sched @ map (\<lambda>i. (i, ag)) is) cache) \<noteq> None) \<longleftrightarrow>
     1 \<le> az_max_concurrency az \<or> keys = []"
proof (cases "1 \<le> az_max_concurrency az")
  case True
  have "fst (analyse az inp keys (sched @ map (\<lambda>i. (i, ag)) (concat (replicate (2 * length keys) [0..<length keys]))) cache)
      \<noteq> None"
    using settles [OF True, of inp keys sched ag cache] by (simp add: rounds_def)
  then show ?thesis using True by blast
next
  case False
  have "fst (analyse az inp keys s cache) = None" if "keys \<noteq> []" for s
    using no_slot_no_result [OF _ that] False by simp
  moreover have "fst (analyse az inp [] sched cache) \<noteq> None" by (simp add: analyse_def Let_def)
  then have "\<exists>is. fst (analyse az inp [] (sched @ map (\<lambda>i. (i, ag)) is) cache) \<noteq> None"
    by (intro exI [of _ "[]"]) simp
  ultimately show ?thesis using False by (cases "keys = []") simp_all
qed

text \<open>A cached analysis keeps the day count of the day it was made: two days later, with the
  issue unchanged and still blocked, the days blocked reported are those of the first day.\<close>

theorem cached_days_blocked_are_stale:
  "map_option (map ba_days_blocked)
     (call_results sample_analyser (cache_after sample_analyser [sample_call 105]) (sample_call 107)) = Some [5, 0]
   \<and> compute_days_blocked (sample_analyser\<lparr>az_today := 107\<rparr>) sample_issue = 7"
  by code_simp

end
