(* ===== verification/Server.thy ===== *)
theory Server
  imports Agenda Clarifier Clients Fields_Loader Frontend_Bridge Report_Files LLM_Agents Lite_Client Server_Logging Wire_Models
    Valkey_Stores Confluence_Research Issue_Analysis
begin

text \<open>
  \<open>server.py\<close>, the composition root: what happens at startup (paths, metadata files, model,
  components), the object graphs it wires from the settings, and the MCP tools. Everything
  outside the process is a record of parameters, which may depend on the calls made so far, as in
  \<open>Orchestrator\<close>; the framework that registers the tools and runs the transport is left out, and
  so is logging.
\<close>

subsection \<open>Startup: paths and metadata files\<close>

definition anchored :: "string \<Rightarrow> string \<Rightarrow> string" where
  "anchored root p = (if is_absolute p then p else path_join root p)"

definition resolve_relative_paths :: "string \<Rightarrow> Settings \<Rightarrow> Settings" where
  "resolve_relative_paths root s =
     (let clr = st_clarification s; ana = st_analysis s
      in s\<lparr>st_delivery := (st_delivery s)\<lparr>dl_output_dir := anchored root (dl_output_dir (st_delivery s))\<rparr>,
           st_log := (st_log s)\<lparr>lg_log_file := map_option (anchored root) (lg_log_file (st_log s))\<rparr>,
           st_clarification := clr\<lparr>cl_vocab_path := anchored root (cl_vocab_path clr),
             cl_prompt_path := anchored root (cl_prompt_path clr),
             cl_conventions_path := anchored root (cl_conventions_path clr),
             cl_jira_fields_path := map_option (anchored root) (cl_jira_fields_path clr),
             cl_allowed_values_path := map_option (anchored root) (cl_allowed_values_path clr)\<rparr>,
           st_analysis := ana\<lparr>an_prompt_path := anchored root (an_prompt_path ana),
             an_ranking_rule_path := anchored root (an_ranking_rule_path ana),
             an_agenda_prompt_path := anchored root (an_agenda_prompt_path ana)\<rparr>\<rparr>)"

text \<open>One target: \<open>get\<close> is the download with its status check, \<open>write\<close> writes the file.\<close>

definition fetch_target :: "(string \<Rightarrow> exn + string) \<Rightarrow> (string \<Rightarrow> string \<Rightarrow> exn + unit) \<Rightarrow> string option \<Rightarrow>
    string option \<Rightarrow> string \<Rightarrow> exn + string option" where
  "fetch_target get write url existing filename =
     (if given url \<and> existing = None then
        let dest = path_join ''/tmp'' filename
        in case andthen (get (the url)) (write dest) of
             Inr _ \<Rightarrow> Inr (Some dest)
           | Inl e \<Rightarrow> if is_HTTPError e then Inr None else Inl e
      else Inr existing)"

definition fetch_fields_files :: "(string \<Rightarrow> exn + string) \<Rightarrow> (string \<Rightarrow> string \<Rightarrow> exn + unit) \<Rightarrow> Settings \<Rightarrow>
    exn + Settings" where
  "fetch_fields_files get write s =
     (let clr = st_clarification s
      in andthen (fetch_target get write (cl_jira_fields_url clr) (cl_jira_fields_path clr) ''jira_fields.json'')
           (\<lambda>fields_path.
         andthen (fetch_target get write (cl_allowed_values_url clr) (cl_allowed_values_path clr)
             ''jira_allowed_values.json'') (\<lambda>values_path.
         Inr (s\<lparr>st_clarification := clr\<lparr>cl_jira_fields_path := fields_path,
                  cl_allowed_values_path := values_path\<rparr>\<rparr>))))"

subsection \<open>The query graph\<close>

definition lite_settings :: "BackendSettings \<Rightarrow> LiteSettings" where
  "lite_settings b = \<lparr>ls_query_path = bk_query_path b, ls_health_path = bk_health_path b,
     ls_issue_details_path = bk_issue_details_path b, ls_api_key = bk_api_key b,
     ls_max_retries = bk_max_retries b, ls_default_limit = bk_default_limit b,
     ls_comments_limit_default = bk_comments_limit_default b\<rparr>"

definition orch_settings :: "Settings \<Rightarrow> settings" where
  "orch_settings s = \<lparr>s_max_rounds = cl_max_rounds (st_clarification s),
     s_max_fields_in_prompt = cl_max_fields_in_prompt (st_clarification s),
     s_delivery_enabled = dl_enabled (st_delivery s), s_max_issues = dl_max_issues (st_delivery s),
     s_renderer = Some (sv_public_url (st_server s))\<rparr>"

record outside =
  ou_question_agent :: "call list \<Rightarrow> string \<Rightarrow> exn + ClarificationNeeded"
  ou_answer_agent :: "call list \<Rightarrow> string \<Rightarrow> exn + TermResolutionOutput list"
  ou_post :: "call list \<Rightarrow> post"
  ou_uuid :: "call list \<Rightarrow> string"
  ou_bridge :: "call list \<Rightarrow> string \<Rightarrow> InjectRequest \<Rightarrow> (string \<times> string) list \<Rightarrow> exn + bridge_response"
  ou_write :: "call list \<Rightarrow> write_fault"
  ou_disk :: disk
  ou_decode :: "string \<Rightarrow> exn + json"
  ou_validate :: "json \<Rightarrow> exn + JiraField"
  ou_conv_enc :: "Convention list \<Rightarrow> string"
  ou_conv_io :: "call list \<Rightarrow> io_fault"
  ou_clock :: "call list \<Rightarrow> int"
  ou_utc :: "call list \<Rightarrow> int"
  ou_isoformat :: "call list \<Rightarrow> string"
  ou_stamp :: "call list \<Rightarrow> string"
  ou_hex8 :: "call list \<Rightarrow> string"

definition new_loader :: "ClarificationSettings \<Rightarrow> loader" where
  "new_loader clr = \<lparr>fl_fields_path = cl_jira_fields_path clr, fl_allowed_values_path = cl_allowed_values_path clr,
     fl_fields = None, fl_allowed_values = None\<rparr>"

text \<open>The acknowledgement of the bridge client, which never raises with a bridge as documented.\<close>

definition ack_of :: "exn + InjectAck \<Rightarrow> InjectAck" where
  "ack_of r = (case r of Inr a \<Rightarrow> a | Inl e \<Rightarrow> (inject_ack False)\<lparr>ia_detail := Some (exn_str e)\<rparr>)"

definition build_orchestrator :: "Settings \<Rightarrow> outside \<Rightarrow> (call list \<Rightarrow> string \<Rightarrow> string option) option \<Rightarrow> env" where
  "build_orchestrator s out elicit = \<lparr>
     e_formulate = (\<lambda>h query terms v convs jira_fields.
       andthen (formulate_question (ou_question_agent out h) query terms v convs jira_fields) (\<lambda>q. Inr (cn_question q))),
     e_resolve = (\<lambda>h query terms answer v. resolve_answer (ou_answer_agent out h) query terms answer v),
     e_elicit = elicit,
     e_query = (\<lambda>h txt limit. lite_query (lite_settings (st_lite s)) (ou_post out h) (ou_uuid out h) txt limit None None None),
     e_inject = (\<lambda>h query. ack_of (inject (ou_bridge out h) (st_frontend s) (ou_uuid out h) query None)),
     e_deliver = (\<lambda>h report_id content.
       fst (build_delivery_channel (st_delivery s) (ou_write out h) report_id content (\<lambda>_. None))),
     e_load_fields = fst (load_fields (ou_disk out) (ou_decode out) (ou_validate out) (new_loader (st_clarification s))),
     e_conv_enc = ou_conv_enc out, e_conv_io = ou_conv_io out, e_clock = ou_clock out, e_utc = ou_utc out,
     e_isoformat = ou_isoformat out, e_stamp = ou_stamp out, e_hex8 = ou_hex8 out\<rparr>"

subsection \<open>Elicitation and \<open>query_jira\<close>\<close>

text \<open>What \<open>ctx.elicit\<close> does: it raises, or returns an object with an action and data.\<close>

datatype elicitation = ElicitRaised exn | Elicited "string option" "json option"

definition make_elicit :: "(call list \<Rightarrow> string \<Rightarrow> elicitation) \<Rightarrow> call list \<Rightarrow> string \<Rightarrow> string option" where
  "make_elicit ctx h question =
     (case ctx h question of
        ElicitRaised e \<Rightarrow> None
      | Elicited action data \<Rightarrow>
          if action \<noteq> Some ''accept'' then None
          else (case data of Some (JStr answer) \<Rightarrow> Some answer | _ \<Rightarrow> None))"

definition tool_elicit :: "Settings \<Rightarrow> (call list \<Rightarrow> string \<Rightarrow> elicitation) option \<Rightarrow>
    (call list \<Rightarrow> string \<Rightarrow> string option) option" where
  "tool_elicit s ctx =
     (case ctx of
        Some c \<Rightarrow> if sv_transport (st_server s) = Streamable_http then None else Some (make_elicit c)
      | None \<Rightarrow> None)"

definition query_jira :: "Settings \<Rightarrow> outside \<Rightarrow> (call list \<Rightarrow> string \<Rightarrow> elicitation) option \<Rightarrow> vocab \<Rightarrow> qargs \<Rightarrow>
    orch \<Rightarrow> (exn + QueryResponse) \<times> orch" where
  "query_jira s out ctx v a st = handle_query (orch_settings s) (build_orchestrator s out (tool_elicit s ctx)) v a st"

subsection \<open>The briefing graph and its tools\<close>

definition briefing_settings :: "Settings \<Rightarrow> RankingRule \<Rightarrow> bsettings" where
  "briefing_settings s rule = \<lparr>b_issues_per_topic = br_issues_per_topic (st_briefing s),
     b_top_n = br_top_n (st_briefing s), b_max_analysed_issues = br_max_analysed_issues (st_briefing s),
     b_view_url_base = br_view_url_base (st_briefing s),
     b_comments_limit = bk_comments_limit_default (st_lite s),
     b_delivery_enabled = dl_enabled (st_delivery s), b_rule = rule\<rparr>"

definition research_settings :: "Settings \<Rightarrow> rsettings" where
  "research_settings s = \<lparr>r_recency_days = cn_recency_days (st_confluence s),
     r_max_pages_total = cn_max_pages_total (st_confluence s),
     r_default_spaces = cn_default_spaces (st_confluence s)\<rparr>"

definition confluence_enabled :: "Settings \<Rightarrow> bool" where
  "confluence_enabled s \<longleftrightarrow> given (cn_base_url (st_confluence s)) \<and> given (cn_api_token (st_confluence s))"

text \<open>
  The Confluence side: the two agents, the library's answers to attempt \<open>n\<close> of a search and of the
  two page requests, and what the caches hold when the call starts. The client is built with its
  default number of attempts.
\<close>

record confluence_outside =
  co_intent_agent :: "string \<Rightarrow> exn + QueryIntent"
  co_extraction_agent :: "string \<Rightarrow> exn + ContextExtractionOutput"
  co_cql :: "string \<Rightarrow> int \<Rightarrow> nat \<Rightarrow> exn + json"
  co_page :: "string \<Rightarrow> nat \<Rightarrow> exn + json"
  co_page_metadata :: "string \<Rightarrow> nat \<Rightarrow> exn + json"
  co_repr :: "json \<Rightarrow> string"
  co_data :: "string \<Rightarrow> string list"
  co_str_repr :: "string \<Rightarrow> string"
  co_unquote :: "string \<Rightarrow> string"
  co_bracket_ok :: "string \<Rightarrow> bool"
  co_page_cache :: "(string \<times> string) list"
  co_extraction_cache :: xcache

definition confluence_client :: "Settings \<Rightarrow> confluence_outside \<Rightarrow> conf_client" where
  "confluence_client s out = \<lparr>cc_search_limit = cn_search_limit (st_confluence s), cc_max_retries = 3,
     cc_content_max_chars = cn_content_max_chars (st_confluence s), cc_page_cache = co_page_cache out\<rparr>"

definition build_research :: "Settings \<Rightarrow> confluence_outside \<Rightarrow> renv" where
  "build_research s out =
     (let cl = confluence_client s out; repr = co_repr out
      in \<lparr>re_analyse = analyse_intent (co_intent_agent out),
          re_find = (\<lambda>cql variant. search_one repr (cc_max_retries cl) (co_cql out cql (cc_search_limit cl))),
          re_sections = (\<lambda>page_id headings force.
            fst (get_page_sections repr (co_data out) (co_page out page_id) page_id headings force cl)),
          re_extract = (\<lambda>page sections force.
            fst (extract_context (co_extraction_agent out) page sections force (co_extraction_cache out))),
          re_metadata = (\<lambda>page_id url force. fst (fetch_page_metadata repr (co_page_metadata out page_id) page_id url cl))\<rparr>)"

definition build_issue_analyser :: "AnalysisSettings \<Rightarrow> int \<Rightarrow> (string \<Rightarrow> int option) \<Rightarrow> analyser" where
  "build_issue_analyser ana today ts_date = \<lparr>az_blocked_statuses = blocked_statuses_of (an_blocked_statuses ana),
     az_max_concurrency = an_max_concurrency ana, az_cache_max_size = an_cache_max_size ana,
     az_today = today, az_ts_date = ts_date\<rparr>"

text \<open>
  \<open>bo_steps\<close> is how the analysis tasks interleave, with the LLM of each step; the tasks it leaves
  unfinished are finished in turn with the LLM \<open>bo_agent\<close>. \<open>bo_cache\<close> is the cache of the analyser
  when the call starts.
\<close>

record briefing_outside =
  bo_agenda_agent :: "string \<Rightarrow> exn + AgendaTopic list"
  bo_post :: post
  bo_uuids :: "nat \<Rightarrow> string"
  bo_first :: "exn list \<Rightarrow> exn"
  bo_steps :: "(nat \<times> agent) list"
  bo_agent :: agent
  bo_cache :: acache
  bo_ts_date :: "string \<Rightarrow> int option"
  bo_confluence :: confluence_outside
  bo_write :: write_fault
  bo_coercions :: coercions
  bo_dumps :: "json \<Rightarrow> string"
  bo_write_json :: "string \<Rightarrow> string \<Rightarrow> exn + unit"
  bo_clock :: int
  bo_clock_later :: int
  bo_today :: int
  bo_timestamp :: string
  bo_stamp :: string
  bo_hex :: string

definition run_analyser :: "analyser \<Rightarrow> (nat \<times> agent) list \<Rightarrow> agent \<Rightarrow> acache \<Rightarrow> IssueDetailsResponse \<Rightarrow>
    string list \<Rightarrow> (string \<times> string) list \<Rightarrow> refs \<Rightarrow> bool \<Rightarrow> BlockerAnalysis list option" where
  "run_analyser az steps ag cache details keys summaries refs force =
     fst (analyse az (input_of details summaries refs force) keys (steps @ rounds ag (length keys) (2 * length keys)) cache)"

definition build_briefing_orchestrator :: "Settings \<Rightarrow> briefing_outside \<Rightarrow> benv" where
  "build_briefing_orchestrator s out = \<lparr>
     be_decompose = decompose (bo_agenda_agent out) (br_max_topics (st_briefing s)),
     be_details = (\<lambda>keys limit. get_issue_details (lite_settings (st_lite s)) (bo_post out) (bo_uuids out)
                     (bo_first out) keys (Some limit) None),
     be_analyse = (\<lambda>details keys summaries refs force.
       Inr (the (run_analyser (build_issue_analyser (st_analysis s) (bo_today out) (bo_ts_date out)) (bo_steps out)
                   (bo_agent out) (bo_cache out) details keys summaries refs force))),
     be_research =
       (if confluence_enabled s
        then Some (\<lambda>topics keys force.
               Inr (run_confluence_research (build_research s (bo_confluence out)) (research_settings s) topics keys None force))
        else None),
     be_deliver = (\<lambda>report_id content.
       fst (build_delivery_channel (st_delivery s) (bo_write out) report_id content (\<lambda>_. None))),
     be_store_json = store_briefing_json (bo_coercions out) (bo_dumps out) (bo_write_json out), be_clock = bo_clock out, be_clock_later = bo_clock_later out,
     be_today = bo_today out, be_timestamp = bo_timestamp out, be_stamp = bo_stamp out, be_hex = bo_hex out\<rparr>"

definition generate_briefing_tool :: "Settings \<Rightarrow> outside \<Rightarrow> briefing_outside \<Rightarrow> RankingRule \<Rightarrow>
    (call list \<Rightarrow> string \<Rightarrow> elicitation) option \<Rightarrow> vocab \<Rightarrow> bargs \<Rightarrow> BriefingPendingState ttl_store \<Rightarrow> orch \<Rightarrow>
    (exn + BriefingResponse) \<times> BriefingPendingState ttl_store \<times> orch" where
  "generate_briefing_tool s out bout rule ctx v a store st =
     generate_briefing (query_jira s out ctx v) (briefing_settings s rule) (build_briefing_orchestrator s bout) a store st"

definition get_report :: "bsettings \<Rightarrow> (string \<Rightarrow> string) \<Rightarrow> (string \<rightharpoonup> exn + string) \<Rightarrow> (string \<Rightarrow> string) \<Rightarrow>
    coercions \<Rightarrow> (string \<Rightarrow> exn + json) \<Rightarrow> string \<Rightarrow> exn + ReportResponse" where
  "get_report cfg repr files path_of co loads report_id =
     (case get_briefing_report cfg repr files path_of co loads report_id of
        Inr r \<Rightarrow> Inr r
      | Inl e \<Rightarrow>
          if is_ValueError e
          then Inr ((report_response report_id)\<lparr>rp_errors := [''invalid report_id: '' @ exn_str e]\<rparr>)
          else Inl e)"

text \<open>
  The search tool. An argument that the caller leaves out takes the default of its signature. The
  requests for the pinned pages come before the sections are read and leave the bodies in the page
  cache.
\<close>

definition page_id_of_url :: "confluence_outside \<Rightarrow> string \<Rightarrow> exn + string option" where
  "page_id_of_url out = extract_page_id (co_unquote out) (co_bracket_ok out)"

definition cache_pins :: "Settings \<Rightarrow> confluence_outside \<Rightarrow> (string \<times> string) list \<Rightarrow> confluence_outside" where
  "cache_pins s out valid =
     out\<lparr>co_page_cache := cc_page_cache (foldl (\<lambda>cl (url, page_id).
       snd (fetch_page_metadata (co_repr out) (co_page_metadata out page_id) page_id url cl)) (confluence_client s out) valid)\<rparr>"

definition pinned_of :: "confluence_outside \<Rightarrow> string list option \<Rightarrow> (string \<times> string) list" where
  "pinned_of out page_urls =
     (case parse_pins (co_str_repr out) (page_id_of_url out) (case page_urls of None \<Rightarrow> [] | Some us \<Rightarrow> us) [] [] of
        Inl e \<Rightarrow> []
      | Inr (valid, errors) \<Rightarrow> valid)"

definition search_context_tool :: "Settings \<Rightarrow> confluence_outside \<Rightarrow> string \<Rightarrow> string list option \<Rightarrow>
    int option option \<Rightarrow> int option \<Rightarrow> bool \<Rightarrow> string list option \<Rightarrow> exn + ConfluenceContextResponse" where
  "search_context_tool s out query spaces recency_days limit force page_urls =
     search_context (co_str_repr out) (page_id_of_url out)
       (if confluence_enabled s then Some (build_research s (cache_pins s out (pinned_of out page_urls))) else None)
       (research_settings s) query spaces (case recency_days of Some d \<Rightarrow> d | None \<Rightarrow> Some 30)
       (case limit of Some n \<Rightarrow> n | None \<Rightarrow> 5) force page_urls"

definition get_jira_context :: "bool \<Rightarrow> bool \<Rightarrow> exn + unit" where
  "get_jira_context include_fields include_projects = Inl (ToolError ''get_jira_context is not implemented.'')"

subsection \<open>\<open>create_server\<close> and \<open>main\<close>\<close>

text \<open>What building the components reads and the clients it opens: each can raise.\<close>

record boot =
  bt_make :: "client_spec \<Rightarrow> exn + unit"
  bt_vocab :: "string \<Rightarrow> exn + vocab"
  bt_conventions :: "string \<Rightarrow> exn + (conv_key \<times> Convention) list"
  bt_read :: "string \<Rightarrow> exn + string"
  bt_rule :: "string \<Rightarrow> exn + RankingRule"
  bt_intent_prompt :: string
  bt_extraction_prompt :: string

text \<open>The loaders of the vocabulary, the conventions and the ranking rule on a disk.\<close>

definition vocab_file_of :: "disk \<Rightarrow> (string \<Rightarrow> exn + json) \<Rightarrow> string \<Rightarrow> json vocab_file" where
  "vocab_file_of disk loads path =
     (if \<not> dk_is_file disk path then VF_missing
      else (case andthen (dk_read disk path) loads of
              Inl e \<Rightarrow> VF_unreadable e
            | Inr (JObj d) \<Rightarrow> VF_object d
            | Inr _ \<Rightarrow> VF_not_object))"

definition boot_of :: "(client_spec \<Rightarrow> exn + unit) \<Rightarrow> coercions \<Rightarrow> int \<Rightarrow> disk \<Rightarrow> (string \<Rightarrow> exn + json) \<Rightarrow>
    string \<Rightarrow> string \<Rightarrow> boot" where
  "boot_of mk co now disk loads intent extraction = \<lparr>
     bt_make = mk,
     bt_vocab = (\<lambda>path. vocab_load path validate_entry (vocab_file_of disk loads path)),
     bt_conventions = (\<lambda>path. conventions_load (\<lambda>p. andthen (dk_read disk p) (conventions_dec co now loads)) path
        (if dk_is_file disk path then Some path else None)),
     bt_read = dk_read disk,
     bt_rule = (\<lambda>path. load_ranking_rule path (dk_read disk path) loads (validate_rule co)),
     bt_intent_prompt = intent, bt_extraction_prompt = extraction\<rparr>"

definition orchestrator_files :: "boot \<Rightarrow> Settings \<Rightarrow> llm_model \<Rightarrow>
    exn + vocab \<times> (conv_key \<times> Convention) list \<times> client_spec list \<times> agent_spec list" where
  "orchestrator_files boot s model =
     (let clr = st_clarification s
      in andthen (bt_vocab boot (cl_vocab_path clr)) (\<lambda>v.
         andthen (open_client (bt_make boot) (lite_http s)) (\<lambda>http.
         andthen (open_client (bt_make boot) (frontend_http s)) (\<lambda>bridge.
         andthen (bt_conventions boot (cl_conventions_path clr)) (\<lambda>convs.
         andthen (clarifier_agents (bt_read boot) model (cl_prompt_path clr) (lm_retries (st_llm s))) (\<lambda>(question, answer).
         Inr (v, convs, [http, bridge], [question, answer])))))))"

definition confluence_parts :: "boot \<Rightarrow> Settings \<Rightarrow> llm_model \<Rightarrow> exn + client_spec list \<times> agent_spec list" where
  "confluence_parts boot s model =
     (case (cn_base_url (st_confluence s), cn_api_token (st_confluence s)) of
        (Some url, Some token) \<Rightarrow>
          if url \<noteq> [] \<and> token \<noteq> []
          then andthen (build_query_intent_analyser (bt_read boot) (bt_intent_prompt boot) model (lm_retries (st_llm s))) (\<lambda>intent.
               andthen (open_client (bt_make boot) (confluence_api url token (cn_email (st_confluence s)))) (\<lambda>client.
               andthen (build_context_extractor (bt_read boot) (bt_extraction_prompt boot) model (lm_retries (st_llm s)))
                 (\<lambda>extraction. Inr ([client], [intent, extraction]))))
          else Inr ([], [])
      | _ \<Rightarrow> Inr ([], []))"

definition briefing_files :: "boot \<Rightarrow> Settings \<Rightarrow> llm_model \<Rightarrow> exn + RankingRule \<times> client_spec list \<times> agent_spec list" where
  "briefing_files boot s model =
     (let ana = st_analysis s; retries = lm_retries (st_llm s)
      in andthen (bt_rule boot (an_ranking_rule_path ana)) (\<lambda>rule.
         andthen (confluence_parts boot s model) (\<lambda>(clients, research).
         andthen (load_agenda_decomposer (bt_read boot) model (an_agenda_prompt_path ana) retries) (\<lambda>decomposer.
         andthen (issue_analyser_agent (bt_read boot) model (an_prompt_path ana) retries) (\<lambda>analyser.
         Inr (rule, clients, research @ [decomposer, analyser]))))))"

record app =
  ap_model :: llm_model
  ap_vocab :: vocab
  ap_conventions :: "(conv_key \<times> Convention) list"
  ap_rule :: RankingRule
  ap_session_store :: store
  ap_briefing_store :: store
  ap_clients :: "client_spec list"
  ap_agents :: "agent_spec list"

definition create_server :: "(string \<Rightarrow> string option) \<Rightarrow> boot \<Rightarrow> Settings \<Rightarrow> exn + app" where
  "create_server environ boot s =
     andthen (startup_model environ (st_llm s)) (\<lambda>model.
     andthen (create_session_store (bt_make boot) s) (\<lambda>sessions.
     andthen (orchestrator_files boot s model) (\<lambda>(v, convs, clients, asking).
     andthen (create_briefing_session_store (bt_make boot) s) (\<lambda>briefings.
     andthen (briefing_files boot s model) (\<lambda>(rule, research_clients, briefing).
     Inr \<lparr>ap_model = model, ap_vocab = v, ap_conventions = convs, ap_rule = rule, ap_session_store = sessions,
           ap_briefing_store = briefings, ap_clients = clients @ research_clients, ap_agents = asking @ briefing\<rparr>)))))"

text \<open>How \<open>main\<close> runs the server it built: over HTTP without sessions, or over stdio.\<close>

datatype run_mode = Run_stdio | Run_http string int

definition run_mode :: "Settings \<Rightarrow> run_mode" where
  "run_mode s = (if sv_transport (st_server s) = Streamable_http
     then Run_http (sv_host (st_server s)) (sv_port (st_server s)) else Run_stdio)"

definition main :: "string \<Rightarrow> (string \<Rightarrow> exn + string) \<Rightarrow> (string \<Rightarrow> string \<Rightarrow> exn + unit) \<Rightarrow>
    (string \<Rightarrow> exn + unit) \<Rightarrow> (string \<Rightarrow> exn + unit) \<Rightarrow> (string \<Rightarrow> string option) \<Rightarrow> boot \<Rightarrow> Settings \<Rightarrow>
    exn + run_mode \<times> Settings \<times> logging \<times> app" where
  "main root get write mkdir openlog environ boot s =
     andthen (fetch_fields_files get write (resolve_relative_paths root s)) (\<lambda>s'.
       case configure_logging mkdir openlog (st_log s') root_logging of
         (Inl e, _) \<Rightarrow> Inl e
       | (Inr _, lo) \<Rightarrow> andthen (create_server environ boot s') (\<lambda>app. Inr (run_mode s', s', lo, app)))"

end
