(* ===== verification/Server_Laws.thy ===== *)
theory Server_Laws
  imports Server
begin

text \<open>
  What holds of the program as it is wired: which exceptions a tool call can raise, that startup
  leaves no relative path and fails with configuration errors only, and what the downloads and
  the tools do at their edges.
\<close>

subsection \<open>A call sends its own limit\<close>

lemma env_query_update:
  "e_formulate (env\<lparr>e_query := Q\<rparr>) = e_formulate env" "e_resolve (env\<lparr>e_query := Q\<rparr>) = e_resolve env"
  "e_elicit (env\<lparr>e_query := Q\<rparr>) = e_elicit env" "e_inject (env\<lparr>e_query := Q\<rparr>) = e_inject env"
  "e_deliver (env\<lparr>e_query := Q\<rparr>) = e_deliver env" "e_load_fields (env\<lparr>e_query := Q\<rparr>) = e_load_fields env"
  "e_conv_enc (env\<lparr>e_query := Q\<rparr>) = e_conv_enc env" "e_conv_io (env\<lparr>e_query := Q\<rparr>) = e_conv_io env"
  "e_clock (env\<lparr>e_query := Q\<rparr>) = e_clock env" "e_utc (env\<lparr>e_query := Q\<rparr>) = e_utc env"
  "e_isoformat (env\<lparr>e_query := Q\<rparr>) = e_isoformat env" "e_stamp (env\<lparr>e_query := Q\<rparr>) = e_stamp env"
  "e_hex8 (env\<lparr>e_query := Q\<rparr>) = e_hex8 env" "e_query (env\<lparr>e_query := Q\<rparr>) = Q"
  by simp_all

lemma learn_items_query: "learn_items (env\<lparr>e_query := Q\<rparr>) items s st = learn_items env items s st"
  by (induction items arbitrary: s st) (simp_all add: Let_def split: sum.split)

lemma resolve_query: "resolve_and_learn (env\<lparr>e_query := Q\<rparr>) v s q ts d st = resolve_and_learn env v s q ts d st"
  unfolding resolve_and_learn_def learn_items_query env_query_update ..

lemma report_query: "with_report cfg (env\<lparr>e_query := Q\<rparr>) q r st = with_report cfg env q r st"
  unfolding with_report_def query_report_id_def env_query_update ..

lemma inject_query: "show_in_ui_step (env\<lparr>e_query := Q\<rparr>) show r errs st = show_in_ui_step env show r errs st"
  unfolding show_in_ui_step_def env_query_update ..

lemma store_query: "store_session (env\<lparr>e_query := Q\<rparr>) s st = store_session env s st"
  unfolding store_session_def env_query_update ..

lemma dispatch_query:
  assumes "\<And>h t. Q h t l = e_query env h t l"
  shows "dispatch cfg (env\<lparr>e_query := Q\<rparr>) s q active l errs show st = dispatch cfg env s q active l errs show st"
  unfolding dispatch_def report_query inject_query store_query env_query_update assms ..

lemma clarify_query:
  assumes "\<And>h t. Q h t (q_limit a) = e_query env h t (q_limit a)"
  shows "clarify_and_dispatch cfg (env\<lparr>e_query := Q\<rparr>) v a q s aliased st = clarify_and_dispatch cfg env v a q s aliased st"
  unfolding clarify_and_dispatch_def ask_question_def dispatch_query [where env = env and Q = Q and l = "q_limit a", OF assms] resolve_query store_query env_query_update ..

lemma handle_query_limit:
  assumes "\<And>h t. Q h t (q_limit a) = e_query env h t (q_limit a)"
  shows "handle_query cfg (env\<lparr>e_query := Q\<rparr>) v a st = handle_query cfg env v a st"
  unfolding handle_query_def clarify_query [where env = env and Q = Q and a = a, OF assms] resolve_query store_query env_query_update ..

subsection \<open>What the world outside does as documented\<close>

definition legal_limit :: "Settings \<Rightarrow> int option \<Rightarrow> bool" where
  "legal_limit s limit \<longleftrightarrow>
     (case (case limit of Some n \<Rightarrow> Some n | None \<Rightarrow> bk_default_limit (st_lite s)) of None \<Rightarrow> True | Some n \<Rightarrow> 1 \<le> n)"

definition post_ok :: "post \<Rightarrow> bool" where
  "post_ok post \<longleftrightarrow> (\<forall>path p hs i. case post path p hs i of
     Inl e \<Rightarrow> is_HTTPError e
   | Inr r \<Rightarrow> hr_body r \<noteq> Not_object \<and> (case hr_query_result r of Inl e \<Rightarrow> is_ValueError e | Inr _ \<Rightarrow> True))"

fun write_fault_ok :: "write_fault \<Rightarrow> bool" where
  "write_fault_ok Written = True"
| "write_fault_ok (No_dir e) = is_OSError e"
| "write_fault_ok (Not_opened e) = is_OSError e"
| "write_fault_ok (Broken_off e n) = is_OSError e"

definition outside_ok :: "outside \<Rightarrow> bool" where
  "outside_ok out \<longleftrightarrow>
     (\<forall>h. agent_ok (ou_question_agent out h) \<and> agent_ok (ou_answer_agent out h) \<and> post_ok (ou_post out h) \<and>
        bridge_ok (ou_bridge out h) \<and> write_fault_ok (ou_write out h)) \<and>
     reads_ok (ou_disk out) (ou_decode out) \<and> validates_ok (ou_validate out)"

lemma post_ok_D: "post_ok post \<Longrightarrow> case post path p hs i of
     Inl e \<Rightarrow> is_HTTPError e
   | Inr r \<Rightarrow> hr_body r \<noteq> Not_object \<and> (case hr_query_result r of Inl e \<Rightarrow> is_ValueError e | Inr _ \<Rightarrow> True)"
  by (simp add: post_ok_def)

lemma lite_errors:
  assumes "post_ok post" and "legal_limit s limit"
    and "lite_query (lite_settings (st_lite s)) post uuid txt limit None None None = Inl e"
  shows "is_LiteBackendError e"
proof -
  have "case (case limit of Some n \<Rightarrow> Some n | None \<Rightarrow> ls_default_limit (lite_settings (st_lite s))) of
      None \<Rightarrow> True | Some n \<Rightarrow> 1 \<le> n"
    using assms(2) by (cases limit) (simp_all add: legal_limit_def lite_settings_def)
  moreover have "is_HTTPError e'" if "post path p hs i = Inl e'" for path p hs i e'
    using post_ok_D [OF assms(1), of path p hs i] by (simp add: that)
  moreover have "hr_body r \<noteq> Not_object \<and> (\<forall>e. hr_query_result r = Inl e \<longrightarrow> is_ValueError e)"
    if "post path p hs i = Inr r" for path p hs i r
    using post_ok_D [OF assms(1), of path p hs i] by (auto simp: that)
  ultimately have "(\<exists>m. lite_query (lite_settings (st_lite s)) post uuid txt limit None None None = Inl (LiteBackendError m)) \<or>
     (\<exists>result. lite_query (lite_settings (st_lite s)) post uuid txt limit None None None = Inr result)"
    using lite_query_outcome [of "lite_settings (st_lite s)" limit post uuid "txt" None None None] by blast
  then show ?thesis using assms(3) by auto
qed

lemma deliver_errors:
  "write_fault_ok fault \<Longrightarrow> fst (build_delivery_channel d fault report_id content fs) = Inl e \<Longrightarrow> is_OSError e"
  by (cases fault; cases "dl_channel d") (auto simp: build_delivery_channel_def deliver_def)

subsection \<open>What a query call can raise\<close>

text \<open>What escapes from the wired collaborators, with a query that is only sent with the limit of
  the call.\<close>

lemma wired_escapes:
  fixes s out ctx a
  defines "env \<equiv> build_orchestrator s out (tool_elicit s ctx)"
  assumes ok: "outside_ok out"
    and esc: "escapes (env\<lparr>e_query := \<lambda>h t l. if l = q_limit a then e_query env h t l else Inl (LiteBackendError [])\<rparr>) e"
  shows "is_ClarificationError e \<or> is_OSError e \<or> is_UnicodeDecodeError e \<or> is_TypeError e \<or>
     (\<not> legal_limit s (q_limit a) \<and> (\<exists>m. e = ValidationError m))"
proof -
  have oks: "agent_ok (ou_question_agent out h)" "agent_ok (ou_answer_agent out h)" "post_ok (ou_post out h)"
    "write_fault_ok (ou_write out h)" "reads_ok (ou_disk out) (ou_decode out)" "validates_ok (ou_validate out)" for h
    using ok by (simp_all add: outside_ok_def)
  consider (load) "e_load_fields env = Inl e"
    | (question) h q ts d l k where "e_formulate env h q ts d l k = Inl e" "\<not> is_ClarificationError e"
    | (answer) h q ts w d where "e_resolve env h q ts w d = Inl e"
    | (conventions) m where "e = OSError m"
    | (query) h q l where "(if l = q_limit a then e_query env h q l else Inl (LiteBackendError [])) = Inl e" "\<not> is_LiteBackendError e"
    | (delivery) h i c where "e_deliver env h i c = Inl e" "\<not> is_OSError e"
    using esc unfolding escapes_def env_query_update by blast
  then show ?thesis
  proof cases
    case load
    then have "read_fields (ou_disk out) (ou_decode out) (ou_validate out) (cl_jira_fields_path (st_clarification s)) = Inl e"
      by (auto simp: env_def build_orchestrator_def load_fields_def new_loader_def split: sum.splits)
    from read_fields_raises [OF oks(5,6) this] show ?thesis by blast
  next
    case question
    then have "formulate_question (ou_question_agent out h) q ts d l k = Inl e"
      by (auto simp: env_def build_orchestrator_def andthen_Inl)
    from clarifier_errors(1) [OF oks(1) this] show ?thesis using question(2) by contradiction
  next
    case answer
    then have "resolve_answer (ou_answer_agent out h) q ts w d = Inl e" by (simp add: env_def build_orchestrator_def)
    from clarifier_errors(2) [OF oks(2) this] show ?thesis by blast
  next
    case query
    then have l: "lite_query (lite_settings (st_lite s)) (ou_post out h) (ou_uuid out h) q (q_limit a) None None None = Inl e"
      by (auto simp: env_def build_orchestrator_def split: if_splits)
    show ?thesis
    proof (cases "legal_limit s (q_limit a)")
      case True
      from lite_errors [OF oks(3) this l] show ?thesis using query(2) by contradiction
    next
      case False
      then show ?thesis using l
        by (cases "q_limit a") (auto simp: lite_query_def legal_limit_def lite_settings_def split: option.splits)
    qed
  next
    case delivery
    then have "fst (build_delivery_channel (st_delivery s) (ou_write out h) i c (\<lambda>_. None)) = Inl e"
      by (simp add: env_def build_orchestrator_def)
    from deliver_errors [OF oks(4) this] show ?thesis using delivery(2) by contradiction
  qed simp
qed

lemma query_jira_raises:
  assumes ok: "outside_ok out" and e: "fst (query_jira s out ctx v a st) = Inl e"
  shows "is_ClarificationError e \<or> is_OSError e \<or> is_UnicodeDecodeError e \<or> is_TypeError e \<or>
     (\<not> legal_limit s (q_limit a) \<and> (\<exists>m. e = ValidationError m)) \<or>
     (sv_transport (st_server s) = Stdio \<and> ctx \<noteq> None \<and> (\<exists>m. e = StateTransitionError m))"
proof -
  let ?env = "build_orchestrator s out (tool_elicit s ctx)"
  define Q where "Q = (\<lambda>h t l. if l = q_limit a then e_query ?env h t l else Inl (LiteBackendError []))"
  have "fst (handle_query (orch_settings s) (?env\<lparr>e_query := Q\<rparr>) v a st) = Inl e"
    using e handle_query_limit [of Q a ?env] by (simp add: query_jira_def Q_def)
  then consider (escapes) "escapes (?env\<lparr>e_query := Q\<rparr>) e"
    | (elicit) "e_elicit ?env \<noteq> None" "\<exists>m. e = StateTransitionError m"
    using handle_query_raises by (metis env_query_update(3))
  then show ?thesis
  proof cases
    case elicit
    then show ?thesis
      by (cases "sv_transport (st_server s)") (auto simp: build_orchestrator_def tool_elicit_def split: option.splits)
  next
    case escapes
    then show ?thesis using wired_escapes [OF ok, where s = s and ctx = ctx and a = a and e = e] unfolding Q_def by blast
  qed
qed

subsection \<open>Properties\<close>


text \<open>A backend without a server, an LLM that is down: the illegal limit still reaches the caller.\<close>

definition sample_outside :: outside where
  "sample_outside = \<lparr>ou_question_agent = (\<lambda>_ _. Inl (AgentRunError ''down'')),
     ou_answer_agent = (\<lambda>_ _. Inl (AgentRunError ''down'')), ou_post = (\<lambda>_ _ _ _ _. Inl (TransportError ''down'')),
     ou_uuid = (\<lambda>_. ''u''), ou_bridge = (\<lambda>_ _ _ _. Inl (TransportError ''down'')), ou_write = (\<lambda>_. Written),
     ou_disk = \<lparr>dk_is_file = (\<lambda>_. False), dk_read = (\<lambda>_. Inl (OSError []))\<rparr>,
     ou_decode = (\<lambda>_. Inl (JSONDecodeError [])), ou_validate = (\<lambda>_. Inl (ValidationError [])),
     ou_conv_enc = (\<lambda>_. []), ou_conv_io = (\<lambda>_. IO_ok), ou_clock = (\<lambda>_. 0), ou_utc = (\<lambda>_. 0),
     ou_isoformat = (\<lambda>_. []), ou_stamp = (\<lambda>_. ''20260101_000000''), ou_hex8 = (\<lambda>_. ''01234567'')\<rparr>"

lemma sample_outside_ok: "outside_ok sample_outside"
  by (simp add: outside_ok_def sample_outside_def agent_ok_def post_ok_def bridge_ok_def reads_ok_def validates_ok_def)


text \<open>Every path of the settings.\<close>

definition paths_of :: "Settings \<Rightarrow> string list" where
  "paths_of s =
     (let clr = st_clarification s; ana = st_analysis s
      in [dl_output_dir (st_delivery s), cl_vocab_path clr, cl_prompt_path clr, cl_conventions_path clr,
          an_prompt_path ana, an_ranking_rule_path ana, an_agenda_prompt_path ana] @
         concat (map (\<lambda>p. case p of None \<Rightarrow> [] | Some x \<Rightarrow> [x])
           [lg_log_file (st_log s), cl_jira_fields_path clr, cl_allowed_values_path clr]))"

lemma anchored_absolute: "is_absolute root \<Longrightarrow> is_absolute (anchored root p)"
  by (cases root) (auto simp: anchored_def path_join_def is_absolute_def startswith_def)

lemma anchored_idem: "is_absolute root \<Longrightarrow> anchored root' (anchored root p) = anchored root p"
  using anchored_absolute by (simp add: anchored_def [of root'])

text \<open>After the paths are resolved against an absolute root no path of the settings depends on
  the working directory, absolute ones are kept, and resolving again, against whatever root,
  changes nothing.\<close>

theorem resolved_paths_absolute:
  assumes "is_absolute root"
  shows "paths_of (resolve_relative_paths root s) = map (anchored root) (paths_of s) \<and>
     list_all is_absolute (paths_of (resolve_relative_paths root s)) \<and>
     resolve_relative_paths root' (resolve_relative_paths root s) = resolve_relative_paths root s"
proof -
  have p: "paths_of (resolve_relative_paths root s) = map (anchored root) (paths_of s)"
    by (simp add: paths_of_def resolve_relative_paths_def Let_def split: option.split)
  moreover have "list_all is_absolute (map (anchored root) ps)" for ps
    using assms by (induction ps) (simp_all add: anchored_absolute)
  moreover have "map_option (anchored root') (map_option (anchored root) x) = map_option (anchored root) x" for x
    using assms by (cases x) (simp_all add: anchored_idem)
  ultimately show ?thesis
    using assms by (simp add: resolve_relative_paths_def Let_def anchored_idem)
qed

theorem resolved_paths_absolute_witness:
  "list_all is_absolute (paths_of (resolve_relative_paths ''/app'' default_settings)) \<and>
   dl_output_dir (st_delivery (resolve_relative_paths ''/app'' default_settings)) = ''/app/data/reports''"
proof -
  have "is_absolute ''/app''" by (simp add: is_absolute_def startswith_def)
  moreover have "dl_output_dir (st_delivery (resolve_relative_paths ''/app'' default_settings)) = ''/app/data/reports''"
    by code_simp
  ultimately show ?thesis using resolved_paths_absolute [of "''/app''" default_settings "''/''"] by blast
qed

text \<open>The downloads at startup touch nothing but the two paths they are for: a configured path
  is kept, one without a URL stays unset, and a failed download leaves its path unset; only a file
  that cannot be written stops the start.\<close>

theorem downloads_degrade:
  assumes "\<forall>url. case get url of Inl e \<Rightarrow> is_HTTPError e | Inr _ \<Rightarrow> True"
  shows "case fetch_fields_files get write s of
     Inl e \<Rightarrow> \<exists>dest content. write dest content = Inl e
   | Inr s' \<Rightarrow> \<exists>p q. s' = s\<lparr>st_clarification := (st_clarification s)\<lparr>cl_jira_fields_path := p, cl_allowed_values_path := q\<rparr>\<rparr> \<and>
       p \<in> (if given (cl_jira_fields_url (st_clarification s)) \<and> cl_jira_fields_path (st_clarification s) = None
            then {None, Some ''/tmp/jira_fields.json''} else {cl_jira_fields_path (st_clarification s)}) \<and>
       q \<in> (if given (cl_allowed_values_url (st_clarification s)) \<and> cl_allowed_values_path (st_clarification s) = None
            then {None, Some ''/tmp/jira_allowed_values.json''} else {cl_allowed_values_path (st_clarification s)})"
proof -
  have target: "(\<exists>dest content. write dest content = Inl e) \<or> False"
    if "fetch_target get write url existing filename = Inl e" for url existing filename e
    using that assms by (auto simp: fetch_target_def Let_def andthen_Inl split: if_splits sum.splits)
  have path: "p \<in> (if given url \<and> existing = None then {None, Some (''/tmp/'' @ filename)} else {existing})"
    if "fetch_target get write url existing filename = Inr p" "\<not> is_absolute filename" for url existing filename p
    using that by (auto simp: fetch_target_def Let_def path_join_def split: if_splits sum.splits)
  have rel: "\<not> is_absolute ''jira_fields.json''" "\<not> is_absolute ''jira_allowed_values.json''"
    by (simp_all add: is_absolute_def startswith_def)
  let ?clr = "st_clarification s"
  let ?one = "fetch_target get write (cl_jira_fields_url ?clr) (cl_jira_fields_path ?clr) ''jira_fields.json''"
  let ?two = "fetch_target get write (cl_allowed_values_url ?clr) (cl_allowed_values_path ?clr) ''jira_allowed_values.json''"
  show ?thesis
  proof (cases ?one)
    case (Inl e)
    then show ?thesis using target by (simp add: fetch_fields_files_def Let_def)
  next
    case one: (Inr p)
    show ?thesis
    proof (cases ?two)
      case (Inl e)
      then show ?thesis using target one by (simp add: fetch_fields_files_def Let_def)
    next
      case (Inr q)
      then have eq: "fetch_fields_files get write s =
          Inr (s\<lparr>st_clarification := ?clr\<lparr>cl_jira_fields_path := p, cl_allowed_values_path := q\<rparr>\<rparr>)"
        using one by (simp add: fetch_fields_files_def Let_def)
      show ?thesis unfolding eq sum.case
        by (intro exI [of _ p] exI [of _ q] conjI refl path [OF one rel(1), unfolded append_Cons append_Nil]
            path [OF Inr rel(2), unfolded append_Cons append_Nil])
    qed
  qed
qed

theorem downloads_degrade_witness:
  "\<exists>s'. fetch_fields_files (\<lambda>_. Inl (TransportError ''down'')) (\<lambda>_ _. Inr ())
     (default_settings\<lparr>st_clarification := default_clarification\<lparr>cl_jira_fields_url := Some ''http://x''\<rparr>\<rparr>) = Inr s' \<and>
     cl_allowed_values_path (st_clarification s') = None"
proof -
  let ?s = "default_settings\<lparr>st_clarification := default_clarification\<lparr>cl_jira_fields_url := Some ''http://x''\<rparr>\<rparr>"
  obtain s' where s: "fetch_fields_files (\<lambda>_. Inl (TransportError ''down'')) (\<lambda>_ _. Inr ()) ?s = Inr s'"
    by (simp add: fetch_fields_files_def fetch_target_def Let_def default_clarification_def)
  then show ?thesis
    using downloads_degrade [of "\<lambda>_. Inl (TransportError ''down'')" "\<lambda>_ _. Inr ()" ?s]
    by (auto simp: default_clarification_def)
qed

text \<open>The directory \<open>/tmp\<close> that cannot be written stops the start, though a failed download would
  not.\<close>

theorem unwritable_tmp_stops_startup:
  "main ''/app'' (\<lambda>_. Inr ''[]'') (\<lambda>_ _. Inl (OSError ''read-only file system'')) mkdir openlog environ boot
     (default_settings\<lparr>st_clarification := default_clarification\<lparr>cl_jira_fields_url := Some ''http://x''\<rparr>\<rparr>) =
   Inl (OSError ''read-only file system'')"
  by (simp add: main_def resolve_relative_paths_def fetch_fields_files_def fetch_target_def Let_def
      default_settings_def default_clarification_def)

text \<open>What the files a server is built from raise: a file that is not UTF-8 is no \<open>OSError\<close>.\<close>

definition config_error :: "exn \<Rightarrow> bool" where
  "config_error e \<longleftrightarrow> (\<exists>m. e = ConfigError m) \<or> is_UnicodeDecodeError e"

definition boot_ok :: "boot \<Rightarrow> bool" where
  "boot_ok boot \<longleftrightarrow> (\<forall>p e. (bt_vocab boot p = Inl e \<longrightarrow> config_error e) \<and>
     (bt_conventions boot p = Inl e \<longrightarrow> config_error e) \<and> (bt_rule boot p = Inl e \<longrightarrow> config_error e) \<and>
     (bt_read boot p = Inl e \<longrightarrow> is_OSError e \<or> is_UnicodeDecodeError e))"

lemma load_items_error:
  assumes "load_items path validate_entry entries items = Inl e"
  shows "\<exists>m. e = ConfigError m"
  using assms
proof (induction path "validate_entry" entries items rule: load_items.induct)
  case (2 path entries t j rest)
  then show ?case using validations_fail_as_documented(5) [of j]
    by (auto simp: only_invalid_def split: sum.splits)
qed simp

lemma vocab_errors:
  assumes "reads_ok disk loads" "vocab_load path validate_entry (vocab_file_of disk loads path) = Inl e"
  shows "config_error e"
proof -
  have "is_OSError e' \<or> is_UnicodeDecodeError e' \<or> is_JSONDecodeError e'" if "andthen (dk_read disk path) loads = Inl e'" for e'
    using that assms(1) by (auto simp: reads_ok_def andthen_Inl)
  then show ?thesis using assms(2) load_items_error
    by (fastforce simp: vocab_file_of_def config_error_def split: if_splits sum.splits json.splits exn.splits)
qed

lemma load_error_kinds:
  "is_OSError e \<or> is_JSONDecodeError e \<or> is_TypeError e \<or> (\<exists>m. e = ValidationError m) \<Longrightarrow> load_error e"
  by (cases e) auto

lemma conventions_errors:
  assumes "reads_ok disk loads" and e: "conventions_load (\<lambda>p. andthen (dk_read disk p) (conventions_dec co now loads)) path file = Inl e"
  shows "config_error e"
proof -
  have "is_OSError e' \<or> is_UnicodeDecodeError e' \<or> is_JSONDecodeError e' \<or> is_TypeError e' \<or> (\<exists>m. e' = ValidationError m)"
    if r: "andthen (dk_read disk p) (conventions_dec co now loads) = Inl e'" for p e'
  proof -
    have iter: "is_TypeError e''" if "json_iter j = Inl e''" for j e''
      using that by (cases j) auto
    have item: "\<exists>m. e'' = ValidationError m" if "validate_convention co now j = Inl e''" for j e''
      using validations_fail_as_documented(7) [of co now j] that by (simp add: only_invalid_def)
    from r consider "dk_read disk p = Inl e'" | t where "loads t = Inl e'" | j where "json_iter j = Inl e'"
      | xs where "traverse (validate_convention co now) xs = Inl e'"
      by (auto simp: conventions_dec_def andthen_Inl)
    then show ?thesis
      using assms(1) iter item by cases (auto simp: reads_ok_def dest!: traverse_Inl)
  qed
  then have "load_error e' \<or> is_UnicodeDecodeError e'" if "andthen (dk_read disk p) (conventions_dec co now loads) = Inl e'" for p e'
    using load_error_kinds that by blast
  then show ?thesis using e
    by (auto simp: conventions_load_def config_error_def split: option.splits sum.splits if_splits)
qed

lemma rule_errors:
  assumes "reads_ok disk loads" and e: "load_ranking_rule path (dk_read disk path) loads (validate_rule co) = Inl e"
  shows "config_error e"
proof -
  let ?read = "case dk_read disk path of Inl e \<Rightarrow> Inl e | Inr t \<Rightarrow> loads t"
  show ?thesis
  proof (cases ?read)
    case (Inl e')
    then have "is_OSError e' \<or> is_UnicodeDecodeError e' \<or> is_JSONDecodeError e'"
      using assms(1) by (auto simp: reads_ok_def split: sum.splits)
    then show ?thesis using e unfolding load_ranking_rule_def Inl
      by (cases e') (auto simp: config_error_def)
  next
    case (Inr j)
    have "is_ValueError e'" if "validate_rule co j = Inl e'" for e'
      using validations_fail_as_documented(6) [of co j] that by (auto simp: only_invalid_def)
    then show ?thesis using e unfolding load_ranking_rule_def Inr
      by (auto simp: config_error_def split: sum.splits if_splits)
  qed
qed

lemma boot_of_ok:
  assumes "reads_ok disk loads"
  shows "boot_ok (boot_of mk co now disk loads intent extraction)"
  unfolding boot_ok_def boot_of_def boot.simps
proof (intro allI conjI impI)
  fix p e
  show "config_error e" if "vocab_load p validate_entry (vocab_file_of disk loads p) = Inl e"
    using vocab_errors [OF assms that] .
  show "config_error e" if "conventions_load (\<lambda>p. andthen (dk_read disk p) (conventions_dec co now loads)) p
      (if dk_is_file disk p then Some p else None) = Inl e"
    using conventions_errors [OF assms that] .
  show "config_error e" if "load_ranking_rule p (dk_read disk p) loads (validate_rule co) = Inl e"
    using rule_errors [OF assms that] .
  show "is_OSError e \<or> is_UnicodeDecodeError e" if "dk_read disk p = Inl e"
    using assms that by (simp add: reads_ok_def)
qed

lemma read_prompt_error:
  assumes "boot_ok boot" and e: "read_prompt (bt_read boot) p msg = Inl e"
  shows "config_error e"
proof (cases "bt_read boot p")
  case (Inl e')
  then have "is_OSError e' \<or> is_UnicodeDecodeError e'" using assms(1) by (simp add: boot_ok_def)
  then show ?thesis using e Inl by (cases e') (auto simp: read_prompt_def config_error_def)
qed (use e in \<open>simp add: read_prompt_def\<close>)

text \<open>The agents of a server with the files of their prompts, in the order they are built.\<close>

definition agent_files :: "boot \<Rightarrow> Settings \<Rightarrow> (agent_output \<times> string) list" where
  "agent_files boot s =
     [(ClarificationNeeded_output, cl_prompt_path (st_clarification s)), (ResolvedTerms_output, cl_prompt_path (st_clarification s))] @
     (if confluence_enabled s
      then [(QueryIntent_output, bt_intent_prompt boot), (ContextExtraction_output, bt_extraction_prompt boot)] else []) @
     [(AgendaDecomposition_output, an_agenda_prompt_path (st_analysis s)),
      (IssueAnalysisSuggestions_output, an_prompt_path (st_analysis s))]"

text \<open>The clients of a server, apart from those of its session stores.\<close>

definition clients_of :: "Settings \<Rightarrow> client_spec list" where
  "clients_of s = [lite_http s, frontend_http s] @
     (if confluence_enabled s
      then [confluence_api (the (cn_base_url (st_confluence s))) (the (cn_api_token (st_confluence s))) (cn_email (st_confluence s))]
      else [])"

definition app_ok :: "boot \<Rightarrow> (string \<Rightarrow> string option) \<Rightarrow> Settings \<Rightarrow> app \<Rightarrow> bool" where
  "app_ok boot environ s app \<longleftrightarrow>
     startup_model environ (st_llm s) = Inr (ap_model app) \<and>
     bt_vocab boot (cl_vocab_path (st_clarification s)) = Inr (ap_vocab app) \<and>
     bt_conventions boot (cl_conventions_path (st_clarification s)) = Inr (ap_conventions app) \<and>
     bt_rule boot (an_ranking_rule_path (st_analysis s)) = Inr (ap_rule app) \<and>
     create_session_store (bt_make boot) s = Inr (ap_session_store app) \<and> ap_briefing_store app = ap_session_store app \<and>
     ap_clients app = clients_of s \<and> (\<forall>c \<in> set (ap_clients app). bt_make boot c = Inr ()) \<and>
     list_all2 (runs_prompt (bt_read boot) (ap_model app) (lm_retries (st_llm s))) (agent_files boot s) (ap_agents app)"

lemma startup_model_errors: "startup_model environ cfg = Inl e \<Longrightarrow> \<exists>m. e = LLMProviderError m"
proof -
  have "\<exists>m. e = LLMProviderError m" if "validate_credentials environ p = Inl e" for p
    using that by (cases p) (auto simp: require_key_def split: if_splits)
  then show "startup_model environ cfg = Inl e \<Longrightarrow> \<exists>m. e = LLMProviderError m"
    by (auto simp: startup_model_def andthen_Inl Let_def)
qed

lemma agents_errors:
  assumes "boot_ok boot"
  shows "clarifier_agents (bt_read boot) model path n = Inl e \<Longrightarrow> config_error e"
    "load_agenda_decomposer (bt_read boot) model path n = Inl e \<Longrightarrow> config_error e"
    "issue_analyser_agent (bt_read boot) model path n = Inl e \<Longrightarrow> config_error e"
    "confluence_parts boot s model = Inl e \<Longrightarrow> config_error e \<or> (\<exists>c. bt_make boot c = Inl e)"
  by (auto simp: agent_factories confluence_parts_def andthen_Inl open_client_simps split: if_splits option.splits
      dest: read_prompt_error [OF assms])

lemma orchestrator_files_errors:
  assumes "boot_ok boot" "orchestrator_files boot s model = Inl e"
  shows "config_error e \<or> (\<exists>c. bt_make boot c = Inl e)"
  using assms agents_errors(1) [OF assms(1)]
  by (auto simp: orchestrator_files_def Let_def andthen_Inl open_client_simps boot_ok_def)

lemma briefing_files_errors:
  assumes "boot_ok boot" "briefing_files boot s model = Inl e"
  shows "config_error e \<or> (\<exists>c. bt_make boot c = Inl e)"
proof -
  consider "bt_rule boot (an_ranking_rule_path (st_analysis s)) = Inl e" | "confluence_parts boot s model = Inl e"
    | path where "load_agenda_decomposer (bt_read boot) model path (lm_retries (st_llm s)) = Inl e"
    | path where "issue_analyser_agent (bt_read boot) model path (lm_retries (st_llm s)) = Inl e"
    using assms(2) by (auto simp: briefing_files_def Let_def andthen_Inl)
  then show ?thesis using assms(1) agents_errors(2-4) [OF assms(1)] by cases (auto simp: boot_ok_def)
qed

lemma orchestrator_files_parts:
  assumes "orchestrator_files boot s model = Inr (v, convs, clients, agents)"
  shows "bt_vocab boot (cl_vocab_path (st_clarification s)) = Inr v"
    "bt_conventions boot (cl_conventions_path (st_clarification s)) = Inr convs"
    "clients = [lite_http s, frontend_http s]" "\<forall>c \<in> set clients. bt_make boot c = Inr ()"
    "list_all2 (runs_prompt (bt_read boot) model (lm_retries (st_llm s)))
       [(ClarificationNeeded_output, cl_prompt_path (st_clarification s)), (ResolvedTerms_output, cl_prompt_path (st_clarification s))] agents"
  using assms by (auto simp: orchestrator_files_def Let_def andthen_Inr open_client_simps dest: factories_run_prompts)

lemma confluence_parts_parts:
  assumes "confluence_parts boot s model = Inr (clients, agents)"
  shows "[lite_http s, frontend_http s] @ clients = clients_of s" "\<forall>c \<in> set clients. bt_make boot c = Inr ()"
    "list_all2 (runs_prompt (bt_read boot) model (lm_retries (st_llm s)))
       (if confluence_enabled s then [(QueryIntent_output, bt_intent_prompt boot), (ContextExtraction_output, bt_extraction_prompt boot)] else []) agents"
  using assms by (auto simp: confluence_parts_def clients_of_def confluence_enabled_def given_def andthen_Inr open_client_simps
      split: if_splits option.splits dest: factories_run_prompts)

lemma briefing_files_parts:
  assumes "briefing_files boot s model = Inr (rule, clients, agents)"
  shows "bt_rule boot (an_ranking_rule_path (st_analysis s)) = Inr rule"
    "[lite_http s, frontend_http s] @ clients = clients_of s" "\<forall>c \<in> set clients. bt_make boot c = Inr ()"
    "list_all2 (runs_prompt (bt_read boot) model (lm_retries (st_llm s)))
     ((if confluence_enabled s
       then [(QueryIntent_output, bt_intent_prompt boot), (ContextExtraction_output, bt_extraction_prompt boot)] else []) @
      [(AgendaDecomposition_output, an_agenda_prompt_path (st_analysis s)),
       (IssueAnalysisSuggestions_output, an_prompt_path (st_analysis s))]) agents"
proof -
  let ?R = "runs_prompt (bt_read boot) model (lm_retries (st_llm s))"
  obtain rs d a where parts: "agents = rs @ [d, a]" "confluence_parts boot s model = Inr (clients, rs)"
      "?R (AgendaDecomposition_output, an_agenda_prompt_path (st_analysis s)) d"
      "?R (IssueAnalysisSuggestions_output, an_prompt_path (st_analysis s)) a"
      "bt_rule boot (an_ranking_rule_path (st_analysis s)) = Inr rule"
    using assms by (auto simp: briefing_files_def Let_def andthen_Inr dest: factories_run_prompts)
  note conf = confluence_parts_parts [OF parts(2)]
  show "bt_rule boot (an_ranking_rule_path (st_analysis s)) = Inr rule"
    "[lite_http s, frontend_http s] @ clients = clients_of s" "\<forall>c \<in> set clients. bt_make boot c = Inr ()"
    using parts(5) conf(1,2) by blast+
  show "list_all2 ?R
     ((if confluence_enabled s
       then [(QueryIntent_output, bt_intent_prompt boot), (ContextExtraction_output, bt_extraction_prompt boot)] else []) @
      [(AgendaDecomposition_output, an_agenda_prompt_path (st_analysis s)),
       (IssueAnalysisSuggestions_output, an_prompt_path (st_analysis s))]) agents"
    unfolding parts(1) using conf(3) by (rule list_all2_appendI) (use parts(3,4) in simp)
qed

lemma create_server_errors:
  assumes "boot_ok boot"
  shows "case create_server environ boot s of
     Inl e \<Rightarrow> config_error e \<or> (\<exists>m. e = LLMProviderError m) \<or> (\<exists>c. bt_make boot c = Inl e)
   | Inr app \<Rightarrow> app_ok boot environ s app"
proof (cases "create_server environ boot s")
  case (Inl e)
  then consider "startup_model environ (st_llm s) = Inl e" | "create_session_store (bt_make boot) s = Inl e"
    | model where "orchestrator_files boot s model = Inl e" | model where "briefing_files boot s model = Inl e"
    by (auto simp: create_server_def session_stores_agree andthen_Inl split: prod.splits)
  then have "config_error e \<or> (\<exists>m. e = LLMProviderError m) \<or> (\<exists>c. bt_make boot c = Inl e)"
    using startup_model_errors session_store_errors orchestrator_files_errors [OF assms] briefing_files_errors [OF assms]
    by cases blast+
  then show ?thesis using Inl by simp
next
  case (Inr app)
  then obtain clients clients' asking briefing where parts:
      "startup_model environ (st_llm s) = Inr (ap_model app)"
      "create_session_store (bt_make boot) s = Inr (ap_session_store app)" "ap_briefing_store app = ap_session_store app"
      "orchestrator_files boot s (ap_model app) = Inr (ap_vocab app, ap_conventions app, clients, asking)"
      "briefing_files boot s (ap_model app) = Inr (ap_rule app, clients', briefing)"
      "ap_agents app = asking @ briefing" "ap_clients app = clients @ clients'"
    by (auto simp: create_server_def session_stores_agree andthen_Inr)
  note asking = orchestrator_files_parts [OF parts(4)] and briefing = briefing_files_parts [OF parts(5)]
  have "list_all2 (runs_prompt (bt_read boot) (ap_model app) (lm_retries (st_llm s))) (agent_files boot s) (ap_agents app)"
    unfolding agent_files_def parts(6) by (rule list_all2_appendI [OF asking(5) briefing(4)])
  moreover have "ap_clients app = clients_of s" unfolding parts(7) asking(3) by (rule briefing(2))
  moreover have "\<forall>c \<in> set (ap_clients app). bt_make boot c = Inr ()"
    unfolding parts(7) set_append using asking(4) briefing(3) by blast
  ultimately show ?thesis
    using Inr parts(1-3) asking(1,2) briefing(1) by (simp add: app_ok_def)
qed


text \<open>A file that is not UTF-8 is no configuration error, though one that cannot be read is.\<close>

lemma undecodable_file_is_no_config_error:
  assumes "dk_is_file disk p" "dk_read disk p = Inl (UnicodeDecodeError m)"
  shows "bt_vocab (boot_of mk co now disk loads intent extraction) p = Inl (UnicodeDecodeError m)"
    "bt_conventions (boot_of mk co now disk loads intent extraction) p = Inl (UnicodeDecodeError m)"
    "bt_rule (boot_of mk co now disk loads intent extraction) p = Inl (UnicodeDecodeError m)"
    "read_prompt (bt_read (boot_of mk co now disk loads intent extraction)) p msg = Inl (UnicodeDecodeError m)"
  using assms by (simp_all add: boot_of_def vocab_file_of_def conventions_load_def load_ranking_rule_def read_prompt_def)

text \<open>A disk where the vocabulary is missing.\<close>

definition sample_disk_of :: "string list \<Rightarrow> disk" where
  "sample_disk_of names = \<lparr>dk_is_file = (\<lambda>p. p \<in> set names),
     dk_read = (\<lambda>p. if p \<in> set names then Inr ''{}'' else Inl (OSError ''missing''))\<rparr>"


text \<open>The report tool always answers when side files are JSON objects with a list of sections:
  whatever else is wrong with an id, a file or its sections becomes an error of the response, and for
  an unsafe id no file is looked at.\<close>

definition side_files_ok :: "(string \<rightharpoonup> exn + string) \<Rightarrow> (string \<Rightarrow> exn + json) \<Rightarrow> bool" where
  "side_files_ok files loads \<longleftrightarrow>
     (\<forall>name e. files name = Some (Inl e) \<longrightarrow> is_OSError e \<or> is_ValueError e) \<and>
     (\<forall>raw. case loads raw of Inl e \<Rightarrow> is_ValueError e
        | Inr j \<Rightarrow> (\<exists>d. j = JObj d \<and> (\<forall>v. map_of d ''sections'' = Some v \<longrightarrow> (\<exists>xs. v = JArr xs))))"

lemma read_sections_errors:
  assumes "side_files_ok files loads" and e: "read_sections co loads raw = Inl e"
  shows "is_ValueError e"
proof (cases "loads raw")
  case (Inl e')
  have "case loads raw of Inl e \<Rightarrow> is_ValueError e
      | Inr j \<Rightarrow> (\<exists>d. j = JObj d \<and> (\<forall>v. map_of d ''sections'' = Some v \<longrightarrow> (\<exists>xs. v = JArr xs)))"
    using assms(1) by (simp add: side_files_ok_def)
  then show ?thesis using Inl e by (simp add: read_sections_def)
next
  case (Inr j)
  have "case loads raw of Inl e \<Rightarrow> is_ValueError e
      | Inr j \<Rightarrow> (\<exists>d. j = JObj d \<and> (\<forall>v. map_of d ''sections'' = Some v \<longrightarrow> (\<exists>xs. v = JArr xs)))"
    using assms(1) by (simp add: side_files_ok_def)
  then obtain d where d: "j = JObj d" "\<And>v. map_of d ''sections'' = Some v \<Longrightarrow> \<exists>xs. v = JArr xs"
    using Inr by auto
  obtain xs where "json_get j ''sections'' (JArr []) = Inr (JArr xs)"
    using d by (cases "map_of d ''sections''") auto
  then obtain x where "validate_section co x = Inl e"
    using e Inr by (auto simp: read_sections_def dest: traverse_Inl)
  then show ?thesis using validations_fail_as_documented(9) [of co x] by (auto simp: only_invalid_def)
qed

theorem get_report_answers:
  assumes "side_files_ok files loads"
  shows "\<exists>r. get_report cfg repr files path_of co loads report_id = Inr r \<and> rp_report_id r = report_id \<and>
     (if is_safe_report_id report_id
      then rp_errors r = [] \<or> rp_sections r = []
      else rp_sections r = [] \<and> rp_errors r \<noteq> [] \<and>
        get_report cfg repr files path_of co loads report_id = get_report cfg repr (\<lambda>_. None) path_of co loads report_id)"
  using assms read_sections_errors [OF assms]
  by (cases "files (report_id @ ''.json'')")
    (auto simp: get_report_def get_briefing_report_def side_files_ok_def Let_def split: sum.split)

theorem get_report_answers_witness:
  "\<exists>r. get_report sample_bcfg (\<lambda>s. s) (\<lambda>_. Some (Inl (OSError ''x''))) (\<lambda>f. f) sample_coercions
     (\<lambda>_. Inl (JSONDecodeError ''x'')) ''../x'' = Inr r \<and> rp_report_id r = ''../x''"
  using get_report_answers [of "\<lambda>_. Some (Inl (OSError ''x''))" "\<lambda>_. Inl (JSONDecodeError ''x'')" sample_bcfg "\<lambda>s. s" "\<lambda>f. f"
      sample_coercions "''../x''"]
  by (auto simp: side_files_ok_def)

text \<open>A side file that is JSON but not an object, say a list, escapes the tool as an
  \<open>AttributeError\<close>: the handlers only expect a \<open>ValueError\<close>.\<close>

theorem malformed_side_file_escapes:
  assumes "is_safe_report_id report_id" "files (report_id @ ''.json'') = Some (Inr raw)" "loads raw = Inr (JArr xs)"
  shows "get_report cfg repr files path_of co loads report_id = Inl (AttributeError ''get'')"
  using assms by (simp add: get_report_def get_briefing_report_def read_sections_def Let_def)

text \<open>A call of the search tool that leaves the recency out searches the last 30 days, whatever the
  settings say.\<close>

theorem search_tool_ignores_recency_setting:
  "search_context_tool (s\<lparr>st_confluence := (st_confluence s)\<lparr>cn_recency_days := d\<rparr>\<rparr>) out query spaces None
     limit force urls = search_context_tool s out query spaces None limit force urls"
proof -
  let ?s = "s\<lparr>st_confluence := (st_confluence s)\<lparr>cn_recency_days := d\<rparr>\<rparr>"
  have same: "confluence_enabled ?s = confluence_enabled s" "confluence_client ?s = confluence_client s"
    "r_default_spaces (research_settings ?s) = r_default_spaces (research_settings s)"
    by (simp_all add: confluence_enabled_def research_settings_def confluence_client_def fun_eq_iff)
  show ?thesis
    unfolding search_context_tool_def search_context_def build_research_def cache_pins_def option.case same ..
qed

end
