(* ===== verification/Research_Laws.thy ===== *)
theory Research_Laws
  imports Confluence_Research
begin

text \<open>
  What the Confluence research attributes to an issue key, key by key; and what a context search
  returns, page by page.
\<close>

subsection \<open>References of a key\<close>

definition refs_of :: "ref_lists \<Rightarrow> string \<Rightarrow> ConfluenceReference list" where
  "refs_of d k = (case map_of d k of None \<Rightarrow> [] | Some rs \<Rightarrow> rs)"

definition no_empty :: "ref_lists \<Rightarrow> bool" where
  "no_empty d \<longleftrightarrow> (\<forall>k. map_of d k \<noteq> Some [])"

lemma refs_of_append: "refs_of (append_ref k r d) k' = (if k' = k then refs_of d k @ [r] else refs_of d k')"
  by (simp add: append_ref_def refs_of_def)

lemma no_empty_append: "no_empty d \<Longrightarrow> no_empty (append_ref k r d)"
  by (simp add: append_ref_def no_empty_def)

lemma in_keys: "no_empty d \<Longrightarrow> k \<in> fst ` set d \<longleftrightarrow> refs_of d k \<noteq> []"
proof (cases "map_of d k")
  case None
  then show ?thesis by (simp add: refs_of_def flip: map_of_eq_None_iff)
next
  case (Some rs)
  moreover assume "no_empty d"
  ultimately have "refs_of d k \<noteq> []" by (auto simp: no_empty_def refs_of_def)
  moreover have "k \<in> fst ` set d" using Some by (metis map_of_eq_None_iff option.distinct(1))
  ultimately show ?thesis by simp
qed

text \<open>The reference one topic gives to a key, if it gives one.\<close>

definition topic_refs :: "exn + string list \<times> (string \<times> ConfluenceReference) list \<Rightarrow> string \<Rightarrow> ConfluenceReference list"
  where
  "topic_refs r k =
     (case r of Inl _ \<Rightarrow> []
      | Inr (_, refs) \<Rightarrow> (case map_of refs k of None \<Rightarrow> [] | Some x \<Rightarrow> [x]))"

lemma fold_append_ref:
  assumes "dict_ok refs"
  shows "refs_of (foldl (\<lambda>d (k, r). append_ref k r d) d refs) k =
     refs_of d k @ (case map_of refs k of None \<Rightarrow> [] | Some x \<Rightarrow> [x])"
    and "no_empty d \<Longrightarrow> no_empty (foldl (\<lambda>d (k, r). append_ref k r d) d refs)"
proof -
  show "refs_of (foldl (\<lambda>d (k, r). append_ref k r d) d refs) k =
     refs_of d k @ (case map_of refs k of None \<Rightarrow> [] | Some x \<Rightarrow> [x])"
    using assms
  proof (induction refs arbitrary: d)
    case (Cons p refs)
    obtain k1 r1 where p: "p = (k1, r1)" by (cases p)
    have "k1 \<notin> fst ` set refs" "dict_ok refs" using Cons.prems p by (simp_all add: dict_ok_def)
    moreover from this have "map_of refs k1 = None" by (simp add: map_of_eq_None_iff)
    ultimately show ?case using Cons.IH [of "append_ref k1 r1 d"] p by (simp add: refs_of_append)
  qed simp
  show "no_empty d \<Longrightarrow> no_empty (foldl (\<lambda>d (k, r). append_ref k r d) d refs)"
    by (induction refs arbitrary: d) (auto simp: no_empty_append)
qed

definition dicts_ok :: "(exn + string list \<times> (string \<times> ConfluenceReference) list) list \<Rightarrow> bool" where
  "dicts_ok rs \<longleftrightarrow> list_all (\<lambda>r. case r of Inl _ \<Rightarrow> True | Inr (_, refs) \<Rightarrow> dict_ok refs) rs"

lemma refs_of_add_topics:
  "dicts_ok rs \<Longrightarrow> refs_of (add_topics d rs) k = refs_of d k @ concat (map (\<lambda>r. topic_refs r k) rs)"
proof (induction d rs rule: add_topics.induct)
  case (3 d keys refs rs)
  then show ?case by (simp add: dicts_ok_def fold_append_ref(1) topic_refs_def)
qed (simp_all add: dicts_ok_def topic_refs_def)

lemma no_empty_add_topics: "no_empty d \<Longrightarrow> dicts_ok rs \<Longrightarrow> no_empty (add_topics d rs)"
  by (induction d rs rule: add_topics.induct) (simp_all add: dicts_ok_def fold_append_ref(2))

text \<open>Each page once.\<close>

fun fresh_pages :: "string set \<Rightarrow> ConfluencePage list \<Rightarrow> ConfluencePage list" where
  "fresh_pages seen [] = []"
| "fresh_pages seen (p # ps) =
     (if cp_page_id p \<in> seen then fresh_pages seen ps
      else p # fresh_pages (insert (cp_page_id p) seen) ps)"

lemma refs_of_add_reverse:
  "refs_of (add_reverse k seen ps d) k' =
     (if k' = k then refs_of d k @ map (\<lambda>p. page_ref p []) (fresh_pages seen ps) else refs_of d k')"
  by (induction k seen ps d rule: add_reverse.induct) (auto simp: refs_of_append)

lemma fresh_pages_distinct:
  "distinct (map cp_page_id (fresh_pages seen ps)) \<and> cp_page_id ` set (fresh_pages seen ps) \<inter> seen = {}"
  by (induction seen ps rule: fresh_pages.induct) auto

lemma fold_add_reverse:
  assumes "dict_ok found" "\<And>k'. k' \<in> fst ` set found \<Longrightarrow> refs_of d k' = []"
  shows "refs_of (foldl (\<lambda>d (k, pages). add_reverse k (ids_of d k) pages d) d found) k =
     (case map_of found k of None \<Rightarrow> refs_of d k | Some ps \<Rightarrow> map (\<lambda>p. page_ref p []) (fresh_pages {} ps))"
  using assms
proof (induction found arbitrary: d)
  case (Cons x found)
  obtain k1 ps where x: "x = (k1, ps)" by (cases x)
  have k1: "k1 \<notin> fst ` set found" "dict_ok found" using Cons.prems(1) x by (simp_all add: dict_ok_def)
  then have none: "map_of found k1 = None" by (simp add: map_of_eq_None_iff)
  have none_yet: "refs_of d k1 = []" "ids_of d k1 = {}"
    using Cons.prems(2) [of k1] x by (simp_all add: refs_of_def ids_of_def)
  let ?d = "add_reverse k1 (ids_of d k1) ps d"
  have "refs_of (foldl (\<lambda>d (k, pages). add_reverse k (ids_of d k) pages d) ?d found) k =
     (case map_of found k of None \<Rightarrow> refs_of ?d k | Some ps \<Rightarrow> map (\<lambda>p. page_ref p []) (fresh_pages {} ps))"
  proof (rule Cons.IH [OF k1(2)])
    fix k' assume "k' \<in> fst ` set found"
    then have "k' \<noteq> k1" "refs_of d k' = []" using k1(1) Cons.prems(2) [of k'] by auto
    then show "refs_of ?d k' = []" by (simp add: refs_of_add_reverse)
  qed
  then show ?case
    using none none_yet by (cases "k = k1") (auto simp: x refs_of_add_reverse split: option.split)
qed simp

subsection \<open>One topic\<close>

lemma map_of_first_wins:
  "map_of (first_wins d kvs) k = (case map_of d k of Some v \<Rightarrow> Some v | None \<Rightarrow> map_of kvs k)"
proof (induction d kvs rule: first_wins.induct)
  case (2 d k1 v kvs)
  have "k1 \<in> fst ` set d \<longleftrightarrow> map_of d k1 \<noteq> None" by (metis map_of_eq_None_iff)
  then show ?case using 2 by (auto simp: map_of_append split: option.splits)
qed (simp split: option.split)

lemma dict_ok_first_wins: "dict_ok d \<Longrightarrow> dict_ok (first_wins d kvs)"
  by (induction d kvs rule: first_wins.induct) (auto simp: dict_ok_def)

lemma dict_ok_merge_pages: "dict_ok d \<Longrightarrow> dict_ok (snd (merge_pages ks d rs))"
  by (induction ks d rs rule: merge_pages.induct) (simp_all add: dict_ok_first_wins)

lemma research_topic_dict: "research_topic env cfg t spaces force = Inr (ks, refs) \<Longrightarrow> dict_ok refs"
  using dict_ok_merge_pages [of "[]" "[]"]
  by (auto simp: research_topic_def andthen_Inr Let_def split: if_splits) (metis dict_ok_Nil snd_conv)

lemma topics_dicts_ok: "dicts_ok (map (\<lambda>t. research_topic env cfg t spaces force) topics)"
  by (auto simp: dicts_ok_def list_all_iff split: sum.split intro: research_topic_dict)

text \<open>The pages that mention a key, in order; the first of them is the one cited.\<close>

definition citing :: "renv \<Rightarrow> bool \<Rightarrow> string \<Rightarrow> ConfluencePage list \<Rightarrow> ConfluenceReference list" where
  "citing env force k pages =
     concat (map (\<lambda>p. case page_extraction env force p of Inl _ \<Rightarrow> []
       | Inr x \<Rightarrow> if k \<in> set (ce_jira_keys_mentioned x) then [page_ref p (extract_relevant_passage x k)] else []) pages)"

lemma map_of_mentioned:
  "map_of (dict_of (map (\<lambda>k. (k, f k)) ks)) k = (if k \<in> set ks then Some (f k) else None)"
proof -
  have "map_of (rev (map (\<lambda>k. (k, f k)) ks)) k = (if k \<in> set ks then Some (f k) else None)"
    unfolding rev_map by (simp add: map_of_map_restrict restrict_map_def)
  then show ?thesis by (simp add: map_of_dict_of)
qed

lemma merge_pages_cites:
  "map_of (snd (merge_pages ks d (map (fetch_and_extract env force) pages))) k =
     (case map_of d k of Some r \<Rightarrow> Some r
      | None \<Rightarrow> (case citing env force k pages of [] \<Rightarrow> None | r # _ \<Rightarrow> Some r))"
proof (induction pages arbitrary: ks d)
  case Nil
  then show ?case by (simp add: citing_def split: option.split)
next
  case (Cons p pages)
  show ?case
  proof (cases "page_extraction env force p")
    case (Inl e)
    then have "citing env force k (p # pages) = citing env force k pages" by (simp add: citing_def)
    then show ?thesis using Inl Cons.IH by (simp add: fetch_and_extract_def split: option.split)
  next
    case (Inr x)
    have "citing env force k (p # pages) =
        (if k \<in> set (ce_jira_keys_mentioned x) then [page_ref p (extract_relevant_passage x k)] else []) @
        citing env force k pages"
      using Inr by (simp add: citing_def)
    then show ?thesis
      using Inr Cons.IH by (simp add: fetch_and_extract_def map_of_first_wins map_of_mentioned split: option.split)
  qed
qed

text \<open>The reference of a topic to a key, from the pages of its search.\<close>

definition topic_citation :: "renv \<Rightarrow> rsettings \<Rightarrow> AgendaTopic \<Rightarrow> string list \<Rightarrow> bool \<Rightarrow> string \<Rightarrow>
    ConfluenceReference list" where
  "topic_citation env cfg t spaces force k =
     (case re_analyse env (at_suggested_query t) of
        Inl _ \<Rightarrow> []
      | Inr intent \<Rightarrow>
          if qi_intent_type intent = General \<or> qi_confluence_keywords intent = [] then []
          else take 1 (citing env force k (py_take (r_max_pages_total cfg)
                 (search_pages_multi (re_find env) intent spaces (r_recency_days cfg)))))"

lemma topic_refs_citation: "topic_refs (research_topic env cfg t spaces force) k = topic_citation env cfg t spaces force k"
proof (cases "re_analyse env (at_suggested_query t)")
  case (Inl e)
  then show ?thesis by (simp add: research_topic_def topic_refs_def topic_citation_def)
next
  case (Inr intent)
  let ?pages = "py_take (r_max_pages_total cfg) (search_pages_multi (re_find env) intent spaces (r_recency_days cfg))"
  show ?thesis
  proof (cases "qi_intent_type intent = General \<or> qi_confluence_keywords intent = [] \<or> ?pages = []")
    case True
    then show ?thesis using Inr
      by (auto simp: research_topic_def topic_refs_def topic_citation_def Let_def citing_def)
  next
    case False
    then have "research_topic env cfg t spaces force = Inr (merge_pages [] [] (map (fetch_and_extract env force) ?pages))"
      using Inr by (simp add: research_topic_def Let_def)
    moreover have "map_of (snd (merge_pages [] [] (map (fetch_and_extract env force) ?pages))) k =
        (case citing env force k ?pages of [] \<Rightarrow> None | r # _ \<Rightarrow> Some r)"
      by (simp add: merge_pages_cites)
    moreover have "topic_refs (Inr m) k = (case map_of (snd m) k of None \<Rightarrow> [] | Some x \<Rightarrow> [x])" for m
      by (cases m) (simp add: topic_refs_def)
    moreover have "topic_citation env cfg t spaces force k = take 1 (citing env force k ?pages)"
      using Inr False by (simp add: topic_citation_def)
    ultimately show ?thesis by (cases "citing env force k ?pages") simp_all
  qed
qed

text \<open>The keys without a reference get the pages of their own search.\<close>

lemma refs_of_reverse_lookup:
  assumes "\<And>k'. k' \<in> set ks \<Longrightarrow> refs_of d k' = []"
  shows "refs_of (foldl (\<lambda>d (k, pages). add_reverse k (ids_of d k) pages d) d (find_pages_mentioning_keys look ks sp)) k =
     (if k \<in> set ks
      then (case look (reverse_query sp k) ''reverse_lookup'' of
              Inl _ \<Rightarrow> [] | Inr pages \<Rightarrow> map (\<lambda>p. page_ref p []) (fresh_pages {} pages))
      else refs_of d k)"
proof -
  let ?found = "find_pages_mentioning_keys look ks sp"
  have found: "map_of ?found k' = (if k' \<in> set ks then
        (case look (reverse_query sp k') ''reverse_lookup'' of
           Inl e \<Rightarrow> None | Inr ps \<Rightarrow> if ps = [] then None else Some ps) else None)" for k'
    unfolding find_pages_mentioning_keys_def map_of_reverse_onto by (simp split: sum.split)
  have "refs_of d k' = []" if "k' \<in> fst ` set ?found" for k'
  proof -
    have "map_of ?found k' \<noteq> None" using that by (simp add: map_of_eq_None_iff)
    then show ?thesis using found [of k'] assms [of k'] by (auto split: if_splits)
  qed
  then have "refs_of (foldl (\<lambda>d (k, pages). add_reverse k (ids_of d k) pages d) d ?found) k =
      (case map_of ?found k of None \<Rightarrow> refs_of d k | Some ps \<Rightarrow> map (\<lambda>p. page_ref p []) (fresh_pages {} ps))"
    by (intro fold_add_reverse) (simp_all add: find_pages_mentioning_keys_def dict_ok_reverse_onto)
  then show ?thesis
    using found [of k] assms [of k] by (cases "look (reverse_query sp k) ''reverse_lookup''") simp_all
qed

subsection \<open>A context search\<close>

lemma parse_pins_shape:
  "parse_pins repr f urls valid errors = Inr (v, e) \<Longrightarrow> distinct (map snd valid) \<Longrightarrow>
     distinct (map snd v) \<and> snd ` set v = snd ` set valid \<union> {i. \<exists>u \<in> set urls. f u = Inr (Some i)} \<and>
     length e = length errors + length (filter (\<lambda>u. f u = Inr None) urls)"
proof (induction urls arbitrary: valid errors)
  case (Cons u urls)
  show ?case
  proof (cases "f u")
    case (Inl x)
    then show ?thesis using Cons.prems by simp
  next
    case (Inr pid)
    show ?thesis
    proof (cases pid)
      case None
      then show ?thesis using Inr Cons.prems Cons.IH [of valid "errors @ [''cannot extract page ID from URL: '' @ repr u]"] by simp
    next
      case (Some i)
      let ?valid = "if i \<in> snd ` set valid then valid else valid @ [(u, i)]"
      have "parse_pins repr f urls ?valid errors = Inr (v, e)" using Inr Some Cons.prems(1) by simp
      moreover have "distinct (map snd ?valid)" using Cons.prems(2) by auto
      ultimately have "distinct (map snd v) \<and> snd ` set v = snd ` set ?valid \<union> {i. \<exists>u \<in> set urls. f u = Inr (Some i)} \<and>
          length e = length errors + length (filter (\<lambda>u. f u = Inr None) urls)" by (rule Cons.IH)
      moreover have "snd ` set ?valid = insert i (snd ` set valid)" by auto
      ultimately show ?thesis using Inr Some by auto
    qed
  qed
qed simp

lemma distinct_subseq: "subseq xs ys \<Longrightarrow> distinct ys \<Longrightarrow> distinct xs"
  by (induction rule: list_emb.induct) (auto dest: list_emb_set)

lemma counts_of_page_results:
  "length (page_results xs) + length (page_errors xs) = length xs"
  "subseq (map sr_page (page_results xs)) (map fst xs)"
proof -
  show "length (page_results xs) + length (page_errors xs) = length xs"
    by (induction xs) (auto simp: page_results_def page_errors_def split: sum.split)
  show "subseq (map sr_page (page_results xs)) (map fst xs)"
    by (induction xs) (auto simp: page_results_def split: sum.split)
qed

definition fails :: "exn + 'a \<Rightarrow> bool" where
  "fails r = (case r of Inl _ \<Rightarrow> True | Inr _ \<Rightarrow> False)"

lemma length_pin_errors: "length (pin_errors repr xs) = length (filter (\<lambda>(_, r). fails r) xs)"
  by (induction xs) (auto simp: pin_errors_def fails_def split: sum.split)

lemma successes_ids:
  assumes "\<And>url pid. (url, pid) \<in> set valid \<Longrightarrow> case g pid url of Inl _ \<Rightarrow> True | Inr p \<Rightarrow> cp_page_id p = pid"
  shows "subseq (map cp_page_id (successes (map (\<lambda>(url, pid). (url, g pid url)) valid))) (map snd valid)"
  using assms
proof (induction valid)
  case (Cons x valid)
  obtain url pid where x: "x = (url, pid)" by (cases x)
  have IH: "subseq (map cp_page_id (successes (map (\<lambda>(url, pid). (url, g pid url)) valid))) (map snd valid)"
    using Cons by simp
  show ?case using IH Cons.prems [of url pid] x
    by (cases "g pid url") (auto simp: successes_def intro: list_emb_Cons)
qed (simp add: successes_def)

text \<open>The server answers a request for a page with that page.\<close>

definition metadata_ok :: "renv \<Rightarrow> bool" where
  "metadata_ok env \<longleftrightarrow>
     (\<forall>pid url force. case re_metadata env pid url force of Inl _ \<Rightarrow> True | Inr p \<Rightarrow> cp_page_id p = pid)"

text \<open>What a search that returns has computed: the pins it parsed, the pages it found and the result
  of every page it kept.\<close>

definition kept_pages :: "int \<Rightarrow> ConfluencePage list \<Rightarrow> ConfluencePage list \<Rightarrow> ConfluencePage list" where
  "kept_pages limit pinned cql = py_take limit (pinned @ filter (\<lambda>p. cp_page_id p \<notin> cp_page_id ` set pinned) cql)"

lemma search_context_parts:
  assumes "search_context repr page_id_of (Some env) cfg query spaces recency limit force (Some urls) = Inr r"
  obtains valid errs cql where
    "parse_pins repr page_id_of urls [] [] = Inr (valid, errs)" "distinct (map cp_page_id cql)"
    "limit \<le> int (length valid) \<longrightarrow> xr_cql_used r = []"
    "let fetched = map (\<lambda>(url, pid). (url, re_metadata env pid url force)) valid;
         pages = kept_pages limit (successes fetched) cql;
         gathered = map (\<lambda>p. (p, page_extraction env force p)) pages
     in xr_results r = page_results gathered \<and> xr_total_pages_found r = length pages \<and>
        xr_errors r = (errs @ pin_errors repr fetched) @ page_errors gathered"
proof -
  obtain valid errs where pins: "parse_pins repr page_id_of urls [] [] = Inr (valid, errs)"
    using assms by (auto simp: search_context_def Let_def andthen_Inr)
  define sp where "sp = (case spaces of Some (s # ss) \<Rightarrow> s # ss | _ \<Rightarrow> r_default_spaces cfg)"
  define rec where "rec = (case recency of Some d \<Rightarrow> d | None \<Rightarrow> r_recency_days cfg)"
  let ?kw = "if int (length valid) < limit then keyword_search env query sp rec limit else Inr ([], [])"
  have sc: "andthen ?kw (\<lambda>(cql_pages, cql_used).
             let fetched = map (\<lambda>(url, pid). (url, re_metadata env pid url force)) valid;
                 pinned = successes fetched;
                 errors2 = errs @ pin_errors repr fetched;
                 seen = cp_page_id ` set pinned;
                 pages = py_take limit (pinned @ filter (\<lambda>p. cp_page_id p \<notin> seen) cql_pages);
                 gathered = map (\<lambda>p. (p, page_extraction env force p)) pages
             in Inr \<lparr>xr_results = page_results gathered, xr_total_pages_found = length pages,
                     xr_cql_used = cql_used, xr_errors = errors2 @ page_errors gathered\<rparr>) = Inr r"
    using assms by (simp only: search_context_def option.case Let_def pins andthen_simps prod.case sp_def rec_def)
  then obtain cql used where kw: "?kw = Inr (cql, used)" unfolding andthen_Inr by (metis surj_pair)
  show thesis
  proof (rule that [OF pins])
    show "distinct (map cp_page_id cql)"
      using kw search_pages_distinct by (auto simp: keyword_search_def andthen_Inr distinct_py_take py_take_def
          take_map [symmetric] split: if_splits)
    show "limit \<le> int (length valid) \<longrightarrow> xr_cql_used r = []" using sc kw by (auto simp: Let_def)
  qed (use sc kw in \<open>auto simp: Let_def kept_pages_def\<close>)
qed

lemma kept_pages_shape:
  assumes "0 \<le> limit" "distinct (map cp_page_id pinned)" "distinct (map cp_page_id cql)"
  shows "distinct (map cp_page_id (kept_pages limit pinned cql))"
    "int (length (kept_pages limit pinned cql)) \<le> limit"
    "\<exists>rest. kept_pages limit pinned cql = take (nat limit) pinned @ rest"
proof -
  have "distinct (map cp_page_id (pinned @ filter (\<lambda>p. cp_page_id p \<notin> cp_page_id ` set pinned) cql))"
    using assms(2,3) by (auto simp: distinct_map_filter) (metis imageI)
  moreover have "map cp_page_id (kept_pages limit pinned cql) =
      take (nat limit) (map cp_page_id (pinned @ filter (\<lambda>p. cp_page_id p \<notin> cp_page_id ` set pinned) cql))"
    using assms(1) by (simp only: kept_pages_def py_take_def take_map if_True)
  ultimately show "distinct (map cp_page_id (kept_pages limit pinned cql))" by (simp only: distinct_take)
  show "int (length (kept_pages limit pinned cql)) \<le> limit"
    unfolding kept_pages_def using assms(1) by (rule length_py_take_le)
  show "\<exists>rest. kept_pages limit pinned cql = take (nat limit) pinned @ rest"
    using assms(1) by (simp add: kept_pages_def py_take_def)
qed

subsection \<open>Properties\<close>

text \<open>C16: exactly which pages are cited for an issue key. Each topic cites at most one page, the
  first one in its search that mentions the key, and topics or pages that fail only drop out; a
  key no topic cites, and only such a key, is looked up by itself, and gets each page found
  there once, without a passage.\<close>

theorem references_of_a_key:
  "refs_of (run_confluence_research env cfg topics keys spaces force) k =
     (let resolved = (case spaces of Some (s # ss) \<Rightarrow> s # ss | _ \<Rightarrow> r_default_spaces cfg);
          cited = concat (map (\<lambda>t. topic_citation env cfg t resolved force k) topics)
      in if cited \<noteq> [] then cited
         else if k \<in> set keys \<and> resolved \<noteq> []
              then (case re_find env (reverse_query resolved k) ''reverse_lookup'' of
                      Inl _ \<Rightarrow> []
                    | Inr pages \<Rightarrow> map (\<lambda>p. page_ref p []) (fresh_pages {} pages))
              else [])"
proof -
  let ?sp = "case spaces of Some (s # ss) \<Rightarrow> s # ss | _ \<Rightarrow> r_default_spaces cfg"
  let ?d = "add_topics [] (map (\<lambda>t. research_topic env cfg t ?sp force) topics)"
  let ?cited = "concat (map (\<lambda>t. topic_citation env cfg t ?sp force k) topics)"
  let ?rk = "filter (\<lambda>k. k \<notin> fst ` set ?d) keys"
  have cited: "refs_of ?d k = ?cited"
    using refs_of_add_topics [OF topics_dicts_ok, of "[]" env cfg ?sp force topics k]
    by (simp add: refs_of_def [of "[]"] topic_refs_citation comp_def)
  have ne: "no_empty ?d" by (rule no_empty_add_topics [OF _ topics_dicts_ok]) (simp add: no_empty_def)
  have rk: "k' \<in> set ?rk \<longleftrightarrow> k' \<in> set keys \<and> refs_of ?d k' = []" for k'
    using in_keys [OF ne, of k'] by auto
  show ?thesis
  proof (cases "?rk \<noteq> [] \<and> ?sp \<noteq> []")
    case True
    then have "refs_of (run_confluence_research env cfg topics keys spaces force) k =
        refs_of (foldl (\<lambda>d (k, pages). add_reverse k (ids_of d k) pages d) ?d (find_pages_mentioning_keys (re_find env) ?rk ?sp)) k"
      by (simp only: run_confluence_research_def Let_def if_True simp_thms)
    also have "\<dots> = (if k \<in> set ?rk
        then (case re_find env (reverse_query ?sp k) ''reverse_lookup'' of
                Inl _ \<Rightarrow> [] | Inr pages \<Rightarrow> map (\<lambda>p. page_ref p []) (fresh_pages {} pages))
        else refs_of ?d k)"
      using rk by (intro refs_of_reverse_lookup) blast
    finally show ?thesis using rk [of k] cited True unfolding Let_def by (simp split: if_split)
  next
    case False
    then have "refs_of (run_confluence_research env cfg topics keys spaces force) k = refs_of ?d k"
      by (simp only: run_confluence_research_def Let_def if_False)
    moreover have "?cited \<noteq> [] \<or> k \<notin> set keys \<or> ?sp = []"
      using False rk [of k] cited by (metis empty_iff empty_set)
    ultimately show ?thesis using cited by (auto simp: Let_def)
  qed
qed

text \<open>C21: a context search accounts for everything it was given. It processes at most \<open>limit\<close>
  pages, each once, the pinned pages first; every page gives a result or an error, every URL
  without a page id and every pinned page that cannot be fetched gives an error; and pins that
  fill the limit leave no keyword search.\<close>

theorem search_context_accounts:
  assumes "search_context repr page_id_of (Some env) cfg query spaces recency limit force (Some urls) = Inr r"
    and "0 \<le> limit" and "metadata_ok env"
  shows "\<exists>valid pages.
     distinct (map snd valid) \<and> snd ` set valid = {i. \<exists>u \<in> set urls. page_id_of u = Inr (Some i)} \<and>
     length pages = xr_total_pages_found r \<and> int (length pages) \<le> limit \<and> distinct (map cp_page_id pages) \<and>
     (\<exists>rest. pages = take (nat limit) (successes (map (\<lambda>(u, i). (u, re_metadata env i u force)) valid)) @ rest) \<and>
     subseq (map sr_page (xr_results r)) pages \<and>
     length (xr_results r) + length (xr_errors r) = length pages +
       length (filter (\<lambda>u. page_id_of u = Inr None) urls) +
       length (filter (\<lambda>(u, i). fails (re_metadata env i u force)) valid) \<and>
     (limit \<le> int (length valid) \<longrightarrow> xr_cql_used r = [])"
proof -
  obtain valid errs cql where parts: "parse_pins repr page_id_of urls [] [] = Inr (valid, errs)"
    "distinct (map cp_page_id cql)" "limit \<le> int (length valid) \<longrightarrow> xr_cql_used r = []"
    "let fetched = map (\<lambda>(url, pid). (url, re_metadata env pid url force)) valid;
         pages = kept_pages limit (successes fetched) cql;
         gathered = map (\<lambda>p. (p, page_extraction env force p)) pages
     in xr_results r = page_results gathered \<and> xr_total_pages_found r = length pages \<and>
        xr_errors r = (errs @ pin_errors repr fetched) @ page_errors gathered"
    using assms(1) by (rule search_context_parts)
  define fetched where "fetched = map (\<lambda>(url, pid). (url, re_metadata env pid url force)) valid"
  define pages where "pages = kept_pages limit (successes fetched) cql"
  define gathered where "gathered = map (\<lambda>p. (p, page_extraction env force p)) pages"
  have r: "xr_results r = page_results gathered" "xr_total_pages_found r = length pages"
    "xr_errors r = (errs @ pin_errors repr fetched) @ page_errors gathered"
    using parts(4) by (simp_all add: Let_def fetched_def pages_def gathered_def)
  have v: "distinct (map snd valid)" "snd ` set valid = {i. \<exists>u \<in> set urls. page_id_of u = Inr (Some i)}"
    "length errs = length (filter (\<lambda>u. page_id_of u = Inr None) urls)"
    using parse_pins_shape [OF parts(1)] by simp_all
  have "subseq (map cp_page_id (successes fetched)) (map snd valid)"
    unfolding fetched_def using assms(3) by (intro successes_ids) (simp add: metadata_ok_def)
  note shape = kept_pages_shape [OF assms(2) distinct_subseq [OF this v(1)] parts(2), folded pages_def]
  have sub: "subseq (map sr_page (xr_results r)) pages"
    using counts_of_page_results(2) [of gathered] by (simp add: r gathered_def comp_def)
  have "length (page_results gathered) + length (page_errors gathered) = length pages"
    using counts_of_page_results(1) [of gathered] by (simp add: gathered_def)
  then have cnt: "length (xr_results r) + length (xr_errors r) = length pages +
       length (filter (\<lambda>u. page_id_of u = Inr None) urls) +
       length (filter (\<lambda>(u, i). fails (re_metadata env i u force)) valid)"
    by (simp add: r v(3) length_pin_errors fetched_def filter_map comp_def case_prod_unfold)
  show ?thesis using v(1,2) shape sub cnt parts(3)
    by (intro exI [of _ valid] exI [of _ pages]) (simp add: r(2) fetched_def)
qed

definition sample_page :: "string \<Rightarrow> ConfluencePage" where
  "sample_page i = \<lparr>cp_page_id = i, cp_title = ''Status'', cp_space_key = ''ENG'', cp_url = ''u'',
     cp_last_modified = ''2026-01-01'', cp_cql_excerpt = ''x''\<rparr>"

definition sample_renv :: renv where
  "sample_renv = \<lparr>re_analyse = (\<lambda>q. Inr general_intent), re_find = (\<lambda>q kind. Inr [sample_page ''7'']),
     re_sections = (\<lambda>i hs force. Inr []), re_extract = (\<lambda>p s force.
       if cp_page_id p = ''7'' then Inl (AnalysisError ''x'') else Inr \<lparr>ce_jira_keys_mentioned = [''A-1''],
         ce_mitigation_owners = [], ce_severity_signals = [], ce_action_items = []\<rparr>),
     re_metadata = (\<lambda>pid url force. Inr (sample_page pid))\<rparr>"

definition sample_page_id :: "string \<Rightarrow> exn + string option" where
  "sample_page_id url = Inr (if url = [] then None else Some url)"

definition sample_rcfg :: rsettings where
  "sample_rcfg = \<lparr>r_recency_days = 30, r_max_pages_total = 10, r_default_spaces = [''ENG'']\<rparr>"

text \<open>Two pinned pages, one URL without a page id, and a search that finds a page whose
  extraction fails.\<close>

theorem search_context_accounts_witness:
  "\<exists>r valid pages.
     search_context id sample_page_id (Some sample_renv) sample_rcfg ''q'' None None 3 False
       (Some [''5'', [], ''6'']) = Inr r \<and>
     snd ` set valid = {''5'', ''6''} \<and> length pages = xr_total_pages_found r \<and>
     int (length pages) \<le> 3 \<and> distinct (map cp_page_id pages) \<and> subseq (map sr_page (xr_results r)) pages \<and>
     length (xr_results r) + length (xr_errors r) = length pages + 1 +
       length (filter (\<lambda>(u, i). fails (re_metadata sample_renv i u False)) valid)"
proof -
  obtain r where r: "search_context id sample_page_id (Some sample_renv) sample_rcfg ''q'' None None 3 False
      (Some [''5'', [], ''6'']) = Inr r"
    by (simp add: search_context_def sample_page_id_def keyword_search_def sample_renv_def Let_def)
  have ids: "{i. \<exists>u \<in> set [''5'', [], ''6'']. sample_page_id u = Inr (Some i)} = {''5'', ''6''}"
    by (auto simp: sample_page_id_def)
  have ok: "metadata_ok sample_renv" by (simp add: metadata_ok_def sample_renv_def sample_page_def)
  show ?thesis
    using search_context_accounts [OF r _ ok] r unfolding ids by (auto simp: sample_page_id_def)
qed

end
