(* ===== verification/Briefing_Pipeline.thy ===== *)
theory Briefing_Pipeline
  imports Server_Laws Briefing_Laws Research_Laws
begin

text \<open>
  The briefing and search tools end to end, as \<open>server.py\<close> wires them: what a call can raise, from
  the settings through the decomposer, the query graph, the backend, the analyser, the research
  and the report folder, and where the facts of a briefing come from.
\<close>

subsection \<open>What a briefing can raise\<close>

lemma dispatch_raised:
  assumes "dispatch_topics hq cfg sid answer i topics completed errors h = (TopicsRaised e, h')"
  shows "\<exists>t w g. fst (hq (topic_query cfg sid t w) g) = Inl e"
  using assms
proof (induction hq cfg sid answer i topics completed errors h rule: dispatch_topics.induct)
  case (2 hq cfg sid answer i topic topics completed errors h)
  obtain r g where q: "hq (topic_query cfg sid topic answer) h = (r, g)" by fastforce
  show ?case
  proof (cases r)
    case (Inl e')
    then have "fst (hq (topic_query cfg sid topic answer) h) = Inl e" using "2.prems" q by simp
    then show ?thesis by blast
  next
    case (Inr result)
    then have n: "\<not> qr_requires_user_input result"
      and d: "dispatch_topics hq cfg sid None (Suc i) topics (AList.update (at_topic_id topic) result completed)
        (errors @ topic_errors topic result) g = (TopicsRaised e, h')"
      using "2.prems" q by (simp_all split: if_splits)
    show ?thesis by (rule "2.IH" [OF q [symmetric] Inr n d])
  qed
qed simp

lemma sections_raise:
  assumes "build_sections cfg env topics completed errors refs force = Inl e"
  shows "(\<exists>keys. be_details env keys (b_comments_limit cfg) = Inl e \<and> \<not> is_LiteBackendError e \<and> \<not> is_OSError e) \<or>
     (\<exists>d keys sums refs force. be_analyse env d keys sums refs force = Inl e \<and> \<not> is_AnalysisError e)"
proof -
  have "(\<exists>keys es. fetch_details cfg env keys es = Inl e) \<or>
      (\<exists>d keys sums es. run_analysis env d keys sums refs force es = Inl e)"
    using assms unfolding build_sections_def Let_def by (auto split: sum.splits prod.splits)
  then show ?thesis by (fastforce simp: fetch_details_def run_analysis_def Let_def split: if_splits sum.splits)
qed

lemma delivery_raises:
  "deliver_briefing cfg env i c ss es = Inl e \<Longrightarrow>
     be_deliver env i c = Inl e \<and> \<not> is_OSError e \<and> \<not> is_NetraError e \<or>
     be_store_json env i ss = Inl e \<and> \<not> is_OSError e"
  by (auto simp: deliver_briefing_def split: if_splits sum.splits)

lemma finish_raises:
  assumes "finish_briefing cfg env a p completed errors = Inl e"
  shows "(\<exists>keys. be_details env keys (b_comments_limit cfg) = Inl e \<and> \<not> is_LiteBackendError e \<and> \<not> is_OSError e) \<or>
     (\<exists>d keys sums refs force. be_analyse env d keys sums refs force = Inl e \<and> \<not> is_AnalysisError e) \<or>
     (\<exists>i c. be_deliver env i c = Inl e \<and> \<not> is_OSError e \<and> \<not> is_NetraError e) \<or>
     (\<exists>i ss. be_store_json env i ss = Inl e \<and> \<not> is_OSError e)"
proof -
  let ?b = "build_sections cfg env (bp_topics p) completed errors
      (confluence_refs_of env (bp_topics p) completed (bg_force_refresh a)) (bg_force_refresh a)"
  show ?thesis
  proof (cases ?b)
    case (Inl e')
    then have "?b = Inl e" using assms by (simp add: finish_briefing_def Let_def)
    from sections_raise [OF this] show ?thesis by blast
  next
    case (Inr x)
    then obtain i c ss es where "deliver_briefing cfg env i c ss es = Inl e"
      using assms by (cases x) (auto simp: finish_briefing_def Let_def split: sum.splits prod.splits)
    from delivery_raises [OF this] show ?thesis by blast
  qed
qed

lemma run_raises:
  assumes "fst (run_briefing hq cfg env a p store h) = Inl e"
  shows "(\<exists>t w g. fst (hq (topic_query cfg (bg_session_id a) t w) g) = Inl e) \<or>
     (\<exists>c es. finish_briefing cfg env a p c es = Inl e)"
proof -
  let ?d = "dispatch_topics hq cfg (bg_session_id a) (bg_clarification_answer a) (bp_current_topic_idx p)
      (drop (bp_current_topic_idx p) (bp_topics p)) (bp_completed_results p) [] h"
  obtain out g where d: "?d = (out, g)" by fastforce
  show ?thesis
  proof (cases out)
    case (TopicsRaised e')
    then have "?d = (TopicsRaised e, g)" using assms d by (simp add: run_briefing_def)
    from dispatch_raised [OF this] show ?thesis ..
  qed (use assms d in \<open>auto simp: run_briefing_def\<close>)
qed

lemma generate_raises:
  assumes "fst (generate_briefing hq cfg env a store h) = Inl e"
  shows "(\<exists>t w g. fst (hq (topic_query cfg (bg_session_id a) t w) g) = Inl e) \<or>
     (\<exists>agenda ps. be_decompose env agenda ps = Inl e \<and> \<not> is_DecompositionError e) \<or>
     (\<exists>p c es. finish_briefing cfg env a p c es = Inl e)"
proof -
  have "(\<exists>p st. fst (run_briefing hq cfg env a p st h) = Inl e) \<or>
      (\<exists>agenda ps. be_decompose env agenda ps = Inl e \<and> \<not> is_DecompositionError e)"
    using assms unfolding generate_briefing_def Let_def
    by (auto split: option.splits sum.splits if_splits)
  then show ?thesis
  proof (elim disjE exE)
    fix p st' assume "fst (run_briefing hq cfg env a p st' h) = Inl e"
    from run_raises [OF this] show ?thesis by blast
  qed blast
qed

definition briefing_outside_ok :: "briefing_outside \<Rightarrow> bool" where
  "briefing_outside_ok out \<longleftrightarrow> agent_ok (bo_agenda_agent out) \<and> write_fault_ok (bo_write out) \<and>
     (\<forall>es. es \<noteq> [] \<longrightarrow> bo_first out es \<in> set es) \<and>
     (\<forall>path p hs i. case bo_post out path p hs i of
        Inl e \<Rightarrow> is_HTTPError e
      | Inr r \<Rightarrow> hr_body r \<noteq> Not_object \<and> (case hr_details_result r of Inl e \<Rightarrow> is_ValueError e | Inr _ \<Rightarrow> True)) \<and>
     (\<forall>i t. case bo_write_json out i t of Inl e \<Rightarrow> is_OSError e | Inr _ \<Rightarrow> True)"

lemma details_raise:
  assumes "briefing_outside_ok bout" and "be_details (build_briefing_orchestrator s bout) keys lim = Inl e"
  shows "is_LiteBackendError e \<or> lim < 1 \<and> (\<exists>m. e = ValidationError m)"
proof -
  have first: "bo_first bout es \<in> set es" if "es \<noteq> []" for es
    using assms(1) that by (simp add: briefing_outside_ok_def)
  have post: "case bo_post bout path p hs i of
        Inl e \<Rightarrow> is_HTTPError e
      | Inr r \<Rightarrow> hr_body r \<noteq> Not_object \<and> (case hr_details_result r of Inl e \<Rightarrow> is_ValueError e | Inr _ \<Rightarrow> True)" for path p hs i
    using assms(1) by (simp add: briefing_outside_ok_def)
  have raises: "is_HTTPError e'" if "bo_post bout path p hs i = Inl e'" for path p hs i e'
    using post [of path p hs i] by (simp add: that)
  have bodies: "hr_body r \<noteq> Not_object \<and> (\<forall>e. hr_details_result r = Inl e \<longrightarrow> is_ValueError e)"
    if "bo_post bout path p hs i = Inr r" for path p hs i r
    using post [of path p hs i] by (auto simp: that)
  have "get_issue_details (lite_settings (st_lite s)) (bo_post bout) (bo_uuids bout) (bo_first bout) keys (Some lim) None = Inl e"
    using assms(2) by (simp add: build_briefing_orchestrator_def)
  then have "(\<exists>m. e = LiteBackendError m) \<or>
      (case Some lim of Some n \<Rightarrow> n | None \<Rightarrow> ls_comments_limit_default (lite_settings (st_lite s))) < 1 \<and>
      (\<exists>m. e = ValidationError m)"
    by (rule details_error) (use first raises bodies in blast)+
  then show ?thesis by auto
qed

lemma finish_tool_raises:
  assumes "briefing_outside_ok bout"
    and "finish_briefing (briefing_settings s rule) (build_briefing_orchestrator s bout) a p c es = Inl e"
  shows "bk_comments_limit_default (st_lite s) < 1 \<and> (\<exists>m. e = ValidationError m)"
proof -
  let ?env = "build_briefing_orchestrator s bout"
  from finish_raises [OF assms(2)] consider
      (details) keys where "be_details ?env keys (b_comments_limit (briefing_settings s rule)) = Inl e" "\<not> is_LiteBackendError e"
    | (analyse) d keys sums refs force where "be_analyse ?env d keys sums refs force = Inl e"
    | (deliver) i x where "be_deliver ?env i x = Inl e" "\<not> is_OSError e"
    | (store) i ss where "be_store_json ?env i ss = Inl e" "\<not> is_OSError e"
    by blast
  then show ?thesis
  proof cases
    case details
    from details_raise [OF assms(1) details(1)] details(2) show ?thesis by (simp add: briefing_settings_def)
  next
    case analyse
    then show ?thesis by (simp add: build_briefing_orchestrator_def)
  next
    case deliver
    have "write_fault_ok (bo_write bout)" using assms(1) by (simp add: briefing_outside_ok_def)
    from deliver_errors [OF this, of "st_delivery s" i x "\<lambda>_. None" e] deliver show ?thesis
      by (simp add: build_briefing_orchestrator_def)
  next
    case store
    then have "case bo_write_json bout (i @ ''.json'') (bo_dumps bout (briefing_json (bo_coercions bout) i ss)) of
        Inl e \<Rightarrow> is_OSError e | Inr _ \<Rightarrow> True"
      using assms(1) by (simp add: briefing_outside_ok_def)
    then show ?thesis using store by (simp add: build_briefing_orchestrator_def store_briefing_json_def)
  qed
qed


subsection \<open>Where the facts of a briefing come from\<close>

lemma analyser_sourced:
  assumes conc: "1 \<le> az_max_concurrency az" and cache: "\<forall>(k, r) \<in> set cache. sourced az S k r"
    and b: "b \<in> set (the (run_analyser az steps ag cache d keys sums refs force))"
  shows "(\<exists>k reason. b = degraded k reason) \<or>
     (\<exists>k. sourced az (if force then own_sources az d else S \<union> own_sources az d) k b)"
proof -
  let ?a = "analyse az (input_of d sums refs force) keys (steps @ rounds ag (length keys) (2 * length keys)) cache"
  obtain rs where rs: "fst ?a = Some rs" using settles [OF conc] by blast
  then have a: "?a = (Some rs, snd ?a)" by (simp add: prod_eq_iff)
  have c: "\<forall>(k, r) \<in> set cache. sourced az (S \<union> own_sources az d) k r"
    using cache sourced_mono [of S "S \<union> own_sources az d"] by blast
  obtain i where i: "i < length rs" "b = rs ! i" using b rs by (auto simp: run_analyser_def in_set_conv_nth)
  then have "i < length keys" using facts.analyse_holds(1) [OF a c] by simp
  with facts.analyse_holds(2) [OF a c] i(2) show ?thesis by blast
qed

lemma section_issues:
  assumes "b \<in> set (bs_top_issues (build_section cfg today completed tks dropped (analysis_map as) topic))"
  shows "\<exists>b' \<in> set as. b = score_analysis (b_rule cfg) today b'"
proof -
  have found: "x \<in> set as" if "map_of (analysis_map as) k = Some x" for k x
  proof -
    have "map_of (rev (map (\<lambda>a. (ba_issue_key a, a)) as)) k = Some x"
      using that by (simp add: analysis_map_def map_of_dict_of)
    then show ?thesis by (auto dest!: map_of_SomeD)
  qed
  from assms obtain b' k where "b = score_analysis (b_rule cfg) today b'" "map_of (analysis_map as) k = Some b'"
    using rank_ranks unfolding build_section_def Let_def by (fastforce split: option.splits)
  then show ?thesis using found by blast
qed

lemma sections_issues:
  assumes "build_sections cfg env topics completed errors refs force = Inr (sections, errors')"
    and "sec \<in> set sections" "b \<in> set (bs_top_issues sec)"
  shows "\<exists>d keys sums as b'. (dr_issues d = [] \<or> be_details env keys (b_comments_limit cfg) = Inr d) \<and>
     be_analyse env d keys sums refs force = Inr as \<and> b' \<in> set as \<and> b = score_analysis (b_rule cfg) (be_today env) b'"
proof -
  obtain d keys sums as es es' es'' t tks dropped where
    d: "fetch_details cfg env keys es = Inr (d, es')" and as: "run_analysis env d keys sums refs force es' = Inr (as, es'')"
    and sec: "sec = build_section cfg (be_today env) completed tks dropped (analysis_map as) t"
    using assms(1,2) unfolding build_sections_def Let_def by (auto split: sum.splits prod.splits)
  obtain b' where b': "b' \<in> set as" "b = score_analysis (b_rule cfg) (be_today env) b'"
    using section_issues assms(3) unfolding sec by blast
  then have k: "keys \<noteq> []" using as by (auto simp: run_analysis_def)
  have "be_analyse env d keys sums refs force = Inr as"
    using as b'(1) k by (auto simp: run_analysis_def split: sum.splits if_splits)
  moreover have "dr_issues d = [] \<or> be_details env keys (b_comments_limit cfg) = Inr d"
    using d k by (auto simp: fetch_details_def Let_def split: sum.splits if_splits)
  ultimately show ?thesis using b' by blast
qed

lemma briefing_issues:
  assumes "fst (generate_briefing hq cfg env a store h) = Inr r"
    and "sec \<in> set (br_sections r)" "b \<in> set (bs_top_issues sec)"
  shows "\<exists>d keys sums refs as b'. (dr_issues d = [] \<or> be_details env keys (b_comments_limit cfg) = Inr d) \<and>
     be_analyse env d keys sums refs (bg_force_refresh a) = Inr as \<and> b' \<in> set as \<and>
     b = score_analysis (b_rule cfg) (be_today env) b'"
proof -
  have "\<exists>p c es. finish_briefing cfg env a p c es = Inr r"
  proof (cases rule: generate_cases [of env a store hq cfg h])
    case (runs p)
    then have "fst (run_briefing hq cfg env a p (looked env a store) h) = Inr r" using assms(1) by simp
    moreover obtain out g where "dispatch_topics hq cfg (bg_session_id a) (bg_clarification_answer a)
        (bp_current_topic_idx p) (drop (bp_current_topic_idx p) (bp_topics p)) (bp_completed_results p) [] h = (out, g)"
      by fastforce
    ultimately show ?thesis
      using assms(2) by (cases out) (auto simp: run_briefing_def pending_response_def briefing_response_def Let_def)
  qed (use assms in auto)
  then obtain p c es where "finish_briefing cfg env a p c es = Inr r" by blast
  then obtain es' where "build_sections cfg env (bp_topics p) c es
      (confluence_refs_of env (bp_topics p) c (bg_force_refresh a)) (bg_force_refresh a) = Inr (br_sections r, es')"
    by (auto simp: finish_briefing_def Let_def split: sum.splits prod.splits)
  from sections_issues [OF this assms(2,3)] show ?thesis by blast
qed

lemma scored_simps [simp]:
  "facts_match az issue (score_analysis rule today b) = facts_match az issue b"
  "ba_issue_key (score_analysis rule today b) = ba_issue_key b"
  "(score_analysis rule today (degraded k reason))\<lparr>ba_score := 0\<rparr> = degraded k reason"
  by (simp_all add: facts_match_def score_analysis_def degraded_def)

text \<open>The issues the details endpoint can return in a call.\<close>

definition fetched_issues :: "Settings \<Rightarrow> briefing_outside \<Rightarrow> IssueDetail set" where
  "fetched_issues s bout = {issue. \<exists>keys d. get_issue_details (lite_settings (st_lite s)) (bo_post bout) (bo_uuids bout)
     (bo_first bout) keys (Some (bk_comments_limit_default (st_lite s))) None = Inr d \<and> issue \<in> set (dr_issues d)}"

text \<open>C12: the trust boundary of a whole briefing: whatever the LLMs answer, in whatever order the
  analyses run, whatever Confluence holds and whatever was analysed before, each issue of a briefing
  is either the degraded placeholder of its key or carries exactly the facts of an issue of that key
  which the backend returned: in this call, as of its day, or, unless a refresh is forced, in an
  earlier one as of that day.\<close>

theorem briefing_facts_come_from_jira:
  assumes conc: "1 \<le> an_max_concurrency (st_analysis s)"
    and az: "az = build_issue_analyser (st_analysis s) (bo_today bout) (bo_ts_date bout)"
    and cache: "bo_cache bout = cache_after az calls"
    and call: "fst (generate_briefing_tool s out bout rule ctx v a store st) = Inr r"
  shows "\<forall>sec \<in> set (br_sections r). \<forall>b \<in> set (bs_top_issues sec).
     (\<exists>reason. b\<lparr>ba_score := 0\<rparr> = degraded (ba_issue_key b) reason) \<or>
     (\<exists>(day, issue) \<in> (if bg_force_refresh a then {} else sources calls) \<union> {bo_today bout} \<times> fetched_issues s bout.
        id_key issue = ba_issue_key b \<and> facts_match (az\<lparr>az_today := day\<rparr>) issue b)"
proof (intro ballI)
  fix sec b assume sec: "sec \<in> set (br_sections r)" and b: "b \<in> set (bs_top_issues sec)"
  let ?env = "build_briefing_orchestrator s bout"
  let ?T = "(if bg_force_refresh a then {} else sources calls) \<union> {bo_today bout} \<times> fetched_issues s bout"
  have today: "az_today az = bo_today bout" and slots: "1 \<le> az_max_concurrency az"
    using conc by (simp_all add: az build_issue_analyser_def)
  from briefing_issues [OF call [unfolded generate_briefing_tool_def] sec b] obtain d keys sums refs as b' where
    d: "dr_issues d = [] \<or> be_details ?env keys (b_comments_limit (briefing_settings s rule)) = Inr d"
    and as: "be_analyse ?env d keys sums refs (bg_force_refresh a) = Inr as" and b': "b' \<in> set as"
    and scored: "b = score_analysis (b_rule (briefing_settings s rule)) (be_today ?env) b'"
    by blast
  have run: "b' \<in> set (the (run_analyser az (bo_steps bout) (bo_agent bout) (bo_cache bout) d keys sums refs (bg_force_refresh a)))"
    using as b' by (simp add: build_briefing_orchestrator_def az)
  have "set (dr_issues d) \<subseteq> fetched_issues s bout"
    using d by (auto simp: fetched_issues_def build_briefing_orchestrator_def briefing_settings_def)
  then have T: "(if bg_force_refresh a then own_sources az d else sources calls \<union> own_sources az d) \<subseteq> ?T"
    by (auto simp: own_sources_def today)
  from analyser_sourced [OF slots cache_after_sourced [of az calls, folded cache] run]
  consider (missing) k reason where "b' = degraded k reason" | (source) k where "sourced az ?T k b'"
    using sourced_mono [OF T] by blast
  then show "(\<exists>reason. b\<lparr>ba_score := 0\<rparr> = degraded (ba_issue_key b) reason) \<or>
     (\<exists>(day, issue) \<in> ?T. id_key issue = ba_issue_key b \<and> facts_match (az\<lparr>az_today := day\<rparr>) issue b)"
  proof cases
    case missing
    then have "b\<lparr>ba_score := 0\<rparr> = degraded (ba_issue_key b) reason" by (simp add: scored)
    then show ?thesis by blast
  next
    case source
    then obtain day issue where "(day, issue) \<in> ?T" "facts_match (az\<lparr>az_today := day\<rparr>) issue b"
      by (auto simp: sourced_def scored)
    moreover from this have "id_key issue = ba_issue_key b" by (simp add: facts_match_def)
    ultimately show ?thesis by blast
  qed
qed

subsection \<open>What a search can raise\<close>

lemma parse_pins_raises: "parse_pins repr page_id_of urls valid errors = Inl e \<Longrightarrow> \<exists>url \<in> set urls. page_id_of url = Inl e"
  by (induction repr page_id_of urls valid errors rule: parse_pins.induct) (auto simp: andthen_Inl split: option.splits)

lemma parse_pins_returns: "parse_pins repr page_id_of urls valid errors = Inr x \<Longrightarrow> \<forall>url \<in> set urls. \<exists>i. page_id_of url = Inr i"
  by (induction repr page_id_of urls valid errors rule: parse_pins.induct) (auto simp: andthen_Inr split: option.splits)

lemma page_id_raises: "page_id_of_url out url = Inl e \<Longrightarrow> e = ValueError ''Invalid IPv6 URL''"
  by (auto simp: page_id_of_url_def extract_page_id_def url_query_def Let_def split: option.splits sum.splits list.splits if_splits)

lemma keyword_search_returns:
  assumes "agent_ok (co_intent_agent out)"
  shows "\<exists>x. keyword_search (build_research s (cache_pins s out valid)) query spaces recency limit = Inr x"
proof -
  have "\<exists>i. analyse_intent (co_intent_agent out) query = Inr i"
    using agent_ok_D [OF assms] by (auto simp: analyse_intent_def split: sum.split)
  then show ?thesis by (auto simp: keyword_search_def build_research_def cache_pins_def Let_def)
qed


subsection \<open>Concrete calls\<close>

definition sample_confluence :: confluence_outside where
  "sample_confluence = \<lparr>co_intent_agent = (\<lambda>_. Inl (AgentRunError ''down'')),
     co_extraction_agent = (\<lambda>_. Inl (AgentRunError ''down'')), co_cql = (\<lambda>_ _ _. Inl (TransportError ''down'')),
     co_page = (\<lambda>_ _. Inl (TransportError ''down'')), co_page_metadata = (\<lambda>_ _. Inl (TransportError ''down'')),
     co_repr = (\<lambda>_. []), co_data = (\<lambda>s. [s]), co_str_repr = (\<lambda>s. s), co_unquote = (\<lambda>s. s), co_bracket_ok = (\<lambda>_. True),
     co_page_cache = [], co_extraction_cache = []\<rparr>"

definition sample_answer :: response where
  "sample_answer = \<lparr>hr_status = 200, hr_text = [], hr_body = No_json,
     hr_query_result = Inr (sample_result\<lparr>lq_total := 1, lq_issues := [[(''key'', PStr ''A-1'')]], lq_answer := None\<rparr>),
     hr_details_result = Inr sample_details\<rparr>"

definition sample_briefing :: briefing_outside where
  "sample_briefing = \<lparr>bo_agenda_agent = (\<lambda>_. Inr [sample_topic [] ''what is blocked'']),
     bo_post = (\<lambda>_ _ _ _. Inr sample_answer), bo_uuids = (\<lambda>_. ''u''), bo_first = hd, bo_steps = [], bo_agent = sample_agent,
     bo_cache = [], bo_ts_date = (\<lambda>_. Some 100), bo_confluence = sample_confluence, bo_write = Written,
     bo_coercions = sample_coercions, bo_dumps = sample_dumps, bo_write_json = (\<lambda>_ _. Inr ()), bo_clock = 0, bo_clock_later = 0, bo_today = 105, bo_timestamp = [],
     bo_stamp = ''20260101_000000'', bo_hex = ''01234567''\<rparr>"

definition sample_world :: outside where
  "sample_world = sample_outside\<lparr>ou_post := (\<lambda>_ _ _ _ _. Inr sample_answer)\<rparr>"

definition quiet_settings :: Settings where
  "quiet_settings = default_settings\<lparr>st_delivery := default_delivery\<lparr>dl_enabled := False\<rparr>\<rparr>"

definition sample_call_of :: "int \<Rightarrow> exn + BriefingResponse" where
  "sample_call_of n = fst (generate_briefing_tool
     (quiet_settings\<lparr>st_briefing := default_briefing\<lparr>br_issues_per_topic := n\<rparr>\<rparr>) sample_world sample_briefing
     default_rule None [] (sample_bargs None) (ttl_new 60) sample_start)"

lemma sample_calls:
  "sample_call_of 0 = Inl (ValidationError ''limit: Input should be greater than or equal to 1'')"
  "(case sample_call_of 50 of Inl e \<Rightarrow> None
    | Inr r \<Rightarrow> Some (map (\<lambda>sec. map (\<lambda>b. (ba_owner b, ba_days_blocked b)) (bs_top_issues sec)) (br_sections r))) =
   Some [[(''kim'', 5)]]"
  by code_simp+


theorem briefing_facts_come_from_jira_witness:
  "\<exists>r sec b. fst (generate_briefing_tool (quiet_settings\<lparr>st_briefing := default_briefing\<lparr>br_issues_per_topic := 50\<rparr>\<rparr>)
        sample_world sample_briefing default_rule None [] (sample_bargs None) (ttl_new 60) sample_start) = Inr r \<and>
     sec \<in> set (br_sections r) \<and> b \<in> set (bs_top_issues sec) \<and> ba_owner b = ''kim'' \<and>
     (\<exists>issue \<in> fetched_issues quiet_settings sample_briefing. id_key issue = ba_issue_key b \<and>
        facts_match (build_issue_analyser default_analysis 105 (\<lambda>_. Some 100)) issue b)"
proof -
  let ?s = "quiet_settings\<lparr>st_briefing := default_briefing\<lparr>br_issues_per_topic := 50\<rparr>\<rparr>"
  let ?az = "build_issue_analyser (st_analysis ?s) (bo_today sample_briefing) (bo_ts_date sample_briefing)"
  obtain r where r: "fst (generate_briefing_tool ?s sample_world sample_briefing default_rule None []
        (sample_bargs None) (ttl_new 60) sample_start) = Inr r"
    and top: "map (\<lambda>sec. map (\<lambda>b. (ba_owner b, ba_days_blocked b)) (bs_top_issues sec)) (br_sections r) = [[(''kim'', 5)]]"
    using sample_calls(2) unfolding sample_call_of_def by (auto split: sum.splits)
  obtain sec b where sb: "sec \<in> set (br_sections r)" "b \<in> set (bs_top_issues sec)" "ba_owner b = ''kim''"
    using top by (cases "br_sections r") (auto simp: map_eq_Cons_conv)
  have an: "st_analysis ?s = default_analysis" by (simp add: quiet_settings_def default_settings_def)
  have "1 \<le> an_max_concurrency (st_analysis ?s)" unfolding an by (simp add: default_analysis_def)
  moreover have "bo_cache sample_briefing = cache_after ?az []" by (simp add: sample_briefing_def cache_after_def)
  ultimately have "\<forall>sec \<in> set (br_sections r). \<forall>b \<in> set (bs_top_issues sec).
     (\<exists>reason. b\<lparr>ba_score := 0\<rparr> = degraded (ba_issue_key b) reason) \<or>
     (\<exists>(day, issue) \<in> (if bg_force_refresh (sample_bargs None) then {} else sources []) \<union>
        {bo_today sample_briefing} \<times> fetched_issues ?s sample_briefing.
        id_key issue = ba_issue_key b \<and> facts_match (?az\<lparr>az_today := day\<rparr>) issue b)"
    by (rule briefing_facts_come_from_jira [OF _ refl _ r])
  then have f: "(\<exists>reason. b\<lparr>ba_score := 0\<rparr> = degraded (ba_issue_key b) reason) \<or>
     (\<exists>issue \<in> fetched_issues ?s sample_briefing. id_key issue = ba_issue_key b \<and>
        facts_match (?az\<lparr>az_today := bo_today sample_briefing\<rparr>) issue b)"
    using sb by (fastforce simp: sources_def split: if_splits)
  have "ba_owner (b\<lparr>ba_score := 0\<rparr>) \<noteq> ba_owner (degraded (ba_issue_key b) reason)" for reason
    using sb(3) by (simp add: degraded_def)
  then have "b\<lparr>ba_score := 0\<rparr> \<noteq> degraded (ba_issue_key b) reason" for reason by metis
  moreover have "fetched_issues ?s sample_briefing = fetched_issues quiet_settings sample_briefing"
    by (simp add: fetched_issues_def)
  moreover have "?az\<lparr>az_today := bo_today sample_briefing\<rparr> = build_issue_analyser default_analysis 105 (\<lambda>_. Some 100)"
    unfolding an by (simp add: build_issue_analyser_def sample_briefing_def)
  ultimately show ?thesis using f r sb by (auto intro!: exI [of _ r] exI [of _ sec] exI [of _ b])
qed


end
