(* ===== verification/Overlapping_Calls.thy ===== *)
theory Overlapping_Calls
  imports Orchestrator_Laws
begin

text \<open>
  \<open>core/orchestrator.py\<close> with calls that overlap. The server runs every call of \<open>query_jira\<close> as a
  task of one event loop: a task runs until it awaits something outside the process (an LLM agent,
  the host, a file written in a thread, an HTTP call), and then any other task may run. The
  in-memory session store hands out the stored object itself, so tasks of one session work on one
  object; objects are therefore kept in a heap here and the store maps a session id to an address.
  A step of a task is the code from one such await to the next: it takes the outcome of the
  awaited call, which the oracle gives for the calls answered so far, and runs on. Persisting the
  conventions counts as one action at the end of its await.
\<close>

subsection \<open>Shared state\<close>

record shared =
  sh_heap :: "SessionState list"
  sh_sessions :: "nat ttl_store"
  sh_convs :: conv_store
  sh_calls :: "call list"

definition object :: "shared \<Rightarrow> nat \<Rightarrow> SessionState" where
  "object sh r = sh_heap sh ! r"

definition assign :: "nat \<Rightarrow> SessionState \<Rightarrow> shared \<Rightarrow> shared" where
  "assign r s sh = sh\<lparr>sh_heap := (sh_heap sh)[r := s]\<rparr>"

definition allocate :: "SessionState \<Rightarrow> shared \<Rightarrow> nat \<times> shared" where
  "allocate s sh = (length (sh_heap sh), sh\<lparr>sh_heap := sh_heap sh @ [s]\<rparr>)"

definition put_session :: "env \<Rightarrow> nat \<Rightarrow> shared \<Rightarrow> shared" where
  "put_session env r sh =
     sh\<lparr>sh_sessions := ttl_set (\<lambda>r. ss_session_id (object sh r)) (sh_sessions sh) (e_clock env (sh_calls sh)) r\<rparr>"

definition called :: "call \<Rightarrow> shared \<Rightarrow> shared" where
  "called c sh = sh\<lparr>sh_calls := sh_calls sh @ [c]\<rparr>"

subsection \<open>Where a task awaits\<close>

text \<open>What a task does once an answer is learned: go on with the pending query, or dispatch the
  query whose question was elicited. \<open>Learning\<close> awaits the write of one convention.\<close>

datatype then_do =
    Clarify string
  | Dispatch string "(string \<times> TermResolution) list" "string list"

datatype task_at =
    Entered
  | Resolving string "string list" string then_do
  | Learning string "TermResolutionOutput list" then_do
  | Formulating string "(string \<times> TermResolution) list" "string list" "Convention list" "JiraField list"
  | Eliciting string "(string \<times> TermResolution) list" "string list" string
  | Querying string "(string \<times> TermResolution) list" "string list"
  | Injecting string "(string \<times> TermResolution) list" "string list" LiteQueryResult
  | Delivering QueryResponse string string
  | Finished "exn + QueryResponse"

text \<open>A task: its arguments, the address of its session object and where it awaits.\<close>

record task =
  tk_args :: qargs
  tk_session :: nat
  tk_at :: task_at

subsection \<open>The code between two awaits\<close>

definition report_part :: "settings \<Rightarrow> env \<Rightarrow> string \<Rightarrow> QueryResponse \<Rightarrow> shared \<Rightarrow> task_at \<times> shared" where
  "report_part cfg env query response sh =
     (if \<not> s_delivery_enabled cfg then (Finished (Inr response), sh)
      else (Delivering response (query_report_id env (sh_calls sh) (qr_session_id response))
              (build_query_report (s_max_issues cfg) (e_isoformat env (sh_calls sh)) query response), sh))"

definition dispatch_part :: "env \<Rightarrow> nat \<Rightarrow> string \<Rightarrow> (string \<times> TermResolution) list \<Rightarrow> string list \<Rightarrow>
    shared \<Rightarrow> task_at \<times> shared" where
  "dispatch_part env r query active errors sh =
     (case transition (object sh r) DISPATCHED of
        Inl e \<Rightarrow> (Finished (Inl e), sh)
      | Inr s \<Rightarrow> (Querying query active errors, put_session env r (assign r (clear_pending s) sh)))"

definition clarify_part :: "settings \<Rightarrow> env \<Rightarrow> vocab \<Rightarrow> nat \<Rightarrow> string \<Rightarrow> shared \<Rightarrow> task_at \<times> shared" where
  "clarify_part cfg env v r query sh =
     (let s = object sh r
      in case split_resolved (sh_convs sh) s (detect v query) of
        (active, unresolved) \<Rightarrow>
          if unresolved = [] then dispatch_part env r query active [] sh
          else if s_max_rounds cfg \<le> ss_clarification_rounds s then
            dispatch_part env r query active [exhausted_warning unresolved] sh
          else
            (case e_load_fields env of
               Inl e \<Rightarrow> (Finished (Inl e), sh)
             | Inr known_fields \<Rightarrow>
                 (Formulating query active unresolved (conventions_list_all (sh_convs sh))
                    (py_take (s_max_fields_in_prompt cfg) known_fields), sh)))"

definition after_learning :: "settings \<Rightarrow> env \<Rightarrow> vocab \<Rightarrow> nat \<Rightarrow> then_do \<Rightarrow> shared \<Rightarrow> task_at \<times> shared" where
  "after_learning cfg env v r todo sh =
     (case transition (object sh r) RESOLVED of
        Inl e \<Rightarrow> (Finished (Inl e), sh)
      | Inr s \<Rightarrow>
          (case todo of
             Clarify query \<Rightarrow> clarify_part cfg env v r query (assign r s sh)
           | Dispatch query active unresolved \<Rightarrow>
               dispatch_part env r query (activate s unresolved active) [] (assign r s sh)))"

text \<open>The next learned item: the session and the conventions in memory change before the write.\<close>

fun learn_part :: "settings \<Rightarrow> env \<Rightarrow> vocab \<Rightarrow> nat \<Rightarrow> TermResolutionOutput list \<Rightarrow> then_do \<Rightarrow> shared \<Rightarrow>
    task_at \<times> shared" where
  "learn_part cfg env v r [] todo sh = after_learning cfg env v r todo sh"
| "learn_part cfg env v r (item # items) todo sh =
     (let t = lower (to_term item);
          s = object sh r;
          s' = s\<lparr>ss_resolutions := AList.update t \<lparr>tr_term = t,
                   tr_resolution_key = to_resolution_key item, tr_jql_hint = to_jql_hint item,
                   tr_source = FromClarification\<rparr> (ss_resolutions s)\<rparr>;
          c = \<lparr>cv_project = INSTANCE_DEFAULT_PROJECT, cv_term = t,
               cv_resolution_key = to_resolution_key item, cv_jql_hint = to_jql_hint item,
               cv_learned_at = e_utc env (sh_calls sh)\<rparr>;
          convs = sh_convs sh
      in (Learning t items todo,
          assign r s' (sh\<lparr>sh_convs := convs\<lparr>cs_items := AList.update (key_of c) c (cs_items convs)\<rparr>\<rparr>)))"

subsection \<open>One step of a task\<close>

definition begin_part :: "settings \<Rightarrow> env \<Rightarrow> vocab \<Rightarrow> qargs \<Rightarrow> nat \<Rightarrow> shared \<Rightarrow> nat \<times> task_at \<times> shared" where
  "begin_part cfg env v a r sh =
     (let s = object sh r
      in if ss_state s = AWAITING_CLARIFICATION then
           (if given (q_clarification_answer a) then
              let query = or_else (ss_pending_query s) (q_query a)
              in (r, Resolving query (ss_pending_terms s) (the (q_clarification_answer a)) (Clarify query), sh)
            else if ss_pending_query s = Some (q_query a) \<and> given (ss_pending_question s) then
              (r, Finished (Inr (question_response (q_session_id a) (the (ss_pending_question s)))), put_session env r sh)
            else
              (case allocate (new_session (q_session_id a)) sh of
                 (r', sh') \<Rightarrow> (r', clarify_part cfg env v r' (q_query a) sh')))
         else (r, clarify_part cfg env v r (q_query a) sh))"

definition enter_part :: "settings \<Rightarrow> env \<Rightarrow> vocab \<Rightarrow> qargs \<Rightarrow> shared \<Rightarrow> nat \<times> task_at \<times> shared" where
  "enter_part cfg env v a sh =
     (let got = ttl_get (sh_sessions sh) (e_clock env (sh_calls sh)) (q_session_id a);
          sh' = sh\<lparr>sh_sessions := snd got\<rparr>
      in case fst got of
           None \<Rightarrow> (case allocate (new_session (q_session_id a)) sh' of (r, sh'') \<Rightarrow> begin_part cfg env v a r sh'')
         | Some r \<Rightarrow> begin_part cfg env v a r sh')"

definition elicited_part :: "env \<Rightarrow> qargs \<Rightarrow> nat \<Rightarrow> string \<Rightarrow> (string \<times> TermResolution) list \<Rightarrow>
    string list \<Rightarrow> string \<Rightarrow> string option \<Rightarrow> shared \<Rightarrow> task_at \<times> shared" where
  "elicited_part env a r query active unresolved question answer sh =
     (if given answer then (Resolving query unresolved (the answer) (Dispatch query active unresolved), sh)
      else
        (case transition (object sh r) AWAITING_CLARIFICATION of
           Inl e \<Rightarrow> (Finished (Inl e), sh)
         | Inr s \<Rightarrow>
             (Finished (Inr (question_response (q_session_id a) question)),
              put_session env r (assign r (s\<lparr>ss_pending_query := Some query,
                ss_pending_terms := unresolved, ss_pending_question := Some question\<rparr>) sh))))"

definition formulated_part :: "env \<Rightarrow> qargs \<Rightarrow> nat \<Rightarrow> string \<Rightarrow> (string \<times> TermResolution) list \<Rightarrow>
    string list \<Rightarrow> exn + string \<Rightarrow> shared \<Rightarrow> task_at \<times> shared" where
  "formulated_part env a r query active unresolved needed sh =
     (case needed of
        Inl e \<Rightarrow>
          if is_ClarificationError e
          then dispatch_part env r query active [''clarification unavailable: '' @ exn_str e] sh
          else (Finished (Inl e), sh)
      | Inr question \<Rightarrow>
          let s = object sh r;
              sh1 = assign r (s\<lparr>ss_clarification_rounds := ss_clarification_rounds s + 1\<rparr>) sh
          in if e_elicit env = None then elicited_part env a r query active unresolved question None sh1
             else (Eliciting query active unresolved question, sh1))"

definition queried_part :: "settings \<Rightarrow> env \<Rightarrow> qargs \<Rightarrow> nat \<Rightarrow> string \<Rightarrow> (string \<times> TermResolution) list \<Rightarrow>
    string list \<Rightarrow> exn + LiteQueryResult \<Rightarrow> shared \<Rightarrow> task_at \<times> shared" where
  "queried_part cfg env a r query active errors answer sh =
     (case answer of
        Inl e \<Rightarrow>
          if is_LiteBackendError e
          then report_part cfg env query (failure_response (object sh r) active errors (exn_str e)) sh
          else (Finished (Inl e), sh)
      | Inr result \<Rightarrow>
          if lq_total result = 0
          then report_part cfg env query (zero_response (object sh r) active errors result) sh
          else if q_show_in_ui a \<and> given (lq_jql result)
          then (Injecting query active errors result, sh)
          else report_part cfg env query (result_response (object sh r) active result False
                 (if q_show_in_ui a then errors @ [''chart not shown in UI: no JQL was generated''] else errors)) sh)"

definition task_step :: "settings \<Rightarrow> env \<Rightarrow> vocab \<Rightarrow> task \<Rightarrow> shared \<Rightarrow> task \<times> shared" where
  "task_step cfg env v t sh =
     (let a = tk_args t; r = tk_session t; calls = sh_calls sh
      in case tk_at t of
        Entered \<Rightarrow>
          (case enter_part cfg env v a sh of (r', at', sh') \<Rightarrow> (t\<lparr>tk_session := r', tk_at := at'\<rparr>, sh'))
      | Resolving query terms answer todo \<Rightarrow>
          (let sh1 = called (CResolve query terms answer) sh
           in case e_resolve env calls query terms answer (entries_for v terms) of
                Inl e \<Rightarrow> (t\<lparr>tk_at := Finished (Inl e)\<rparr>, sh1)
              | Inr items \<Rightarrow>
                  (case learn_part cfg env v r items todo sh1 of (at', sh') \<Rightarrow> (t\<lparr>tk_at := at'\<rparr>, sh')))
      | Learning term items todo \<Rightarrow>
          (let written = conventions_persist (e_conv_enc env) (e_conv_io env calls) (sh_convs sh);
               sh1 = called (CLearn term) (sh\<lparr>sh_convs := snd written\<rparr>)
           in case fst written of
                Inl e \<Rightarrow> (t\<lparr>tk_at := Finished (Inl e)\<rparr>, sh1)
              | Inr _ \<Rightarrow>
                  (case learn_part cfg env v r items todo sh1 of (at', sh') \<Rightarrow> (t\<lparr>tk_at := at'\<rparr>, sh')))
      | Formulating query active unresolved convs known_fields \<Rightarrow>
          (case formulated_part env a r query active unresolved
               (e_formulate env calls query unresolved (entries_for v unresolved) convs known_fields)
               (called (CFormulate query unresolved) sh) of
             (at', sh') \<Rightarrow> (t\<lparr>tk_at := at'\<rparr>, sh'))
      | Eliciting query active unresolved question \<Rightarrow>
          (case elicited_part env a r query active unresolved question
               (case e_elicit env of None \<Rightarrow> None | Some el \<Rightarrow> el calls question) (called (CElicit question) sh) of
             (at', sh') \<Rightarrow> (t\<lparr>tk_at := at'\<rparr>, sh'))
      | Querying query active errors \<Rightarrow>
          (case queried_part cfg env a r query active errors (e_query env calls (enriched query active) (q_limit a))
               (called (CQuery (enriched query active) (q_limit a)) sh) of
             (at', sh') \<Rightarrow> (t\<lparr>tk_at := at'\<rparr>, sh'))
      | Injecting query active errors result \<Rightarrow>
          (let txt = the (lq_jql result) @ '' /raw'';
               ack = e_inject env calls txt;
               errors' = (if ia_accepted ack then errors
                          else errors @ [''chart not shown in UI: '' @ or_else (ia_detail ack) ''rejected''])
           in case report_part cfg env query (result_response (object sh r) active result (ia_accepted ack) errors')
                  (called (CInject txt) sh) of
                (at', sh') \<Rightarrow> (t\<lparr>tk_at := at'\<rparr>, sh'))
      | Delivering response report_id content \<Rightarrow>
          (t\<lparr>tk_at := Finished
              (case e_deliver env calls report_id content of
                 Inl e \<Rightarrow>
                   if is_OSError e \<or> is_NetraError e
                   then Inr (response\<lparr>qr_errors := qr_errors response @ [''report not written: '' @ exn_str e]\<rparr>)
                   else Inl e
               | Inr location \<Rightarrow>
                   Inr (response\<lparr>qr_report_path := Some location,
                      qr_view_url := (case s_renderer cfg of None \<Rightarrow> None
                                      | Some base_url \<Rightarrow> build_view_url base_url report_id)\<rparr>))\<rparr>,
           called (CDeliver report_id content) sh)
      | Finished _ \<Rightarrow> (t, sh))"

subsection \<open>Overlapping tasks\<close>

text \<open>
  The calls in flight are the tasks in a fixed number of slots. The host makes a call in a slot
  that is free, and the event loop resumes the task of a slot whose await is over.
\<close>

definition new_task :: "qargs \<Rightarrow> task" where
  "new_task a = \<lparr>tk_args = a, tk_session = 0, tk_at = Entered\<rparr>"

fun returned :: "task option \<Rightarrow> bool" where
  "returned None = True"
| "returned (Some t) = (case tk_at t of Finished _ \<Rightarrow> True | _ \<Rightarrow> False)"

datatype loop_event = Call nat qargs | Resume nat

fun loop_step :: "settings \<Rightarrow> env \<Rightarrow> vocab \<Rightarrow> task option list \<times> shared \<Rightarrow> loop_event \<Rightarrow> task option list \<times> shared" where
  "loop_step cfg env v (slots, sh) (Call i a) =
     (if i < length slots \<and> returned (slots ! i) then (slots[i := Some (new_task a)], sh) else (slots, sh))"
| "loop_step cfg env v (slots, sh) (Resume i) =
     (if i < length slots
      then (case slots ! i of
              None \<Rightarrow> (slots, sh)
            | Some t \<Rightarrow> (case task_step cfg env v t sh of (t', sh') \<Rightarrow> (slots[i := Some t'], sh')))
      else (slots, sh))"

definition loop_run :: "settings \<Rightarrow> env \<Rightarrow> vocab \<Rightarrow> task option list \<times> shared \<Rightarrow> loop_event list \<Rightarrow> task option list \<times> shared" where
  "loop_run cfg env v p events = foldl (loop_step cfg env v) p events"

subsection \<open>The shared state as the state of the sequential model\<close>

definition ttl_map :: "('a \<Rightarrow> 'b) \<Rightarrow> 'a ttl_store \<Rightarrow> 'b ttl_store" where
  "ttl_map f st = \<lparr>st_ttl = st_ttl st, st_entries = map (\<lambda>(k, t, x). (k, t, f x)) (st_entries st)\<rparr>"

definition orch_of :: "shared \<Rightarrow> orch" where
  "orch_of sh = \<lparr>o_sessions = ttl_map (object sh) (sh_sessions sh), o_convs = sh_convs sh, o_calls = sh_calls sh\<rparr>"

text \<open>Every stored object is stored under its own id, hence once.\<close>

definition heap_ok :: "shared \<Rightarrow> bool" where
  "heap_ok sh \<longleftrightarrow> dict_ok (st_entries (sh_sessions sh)) \<and>
     (\<forall>(k, t, r) \<in> set (st_entries (sh_sessions sh)). r < length (sh_heap sh) \<and> ss_session_id (object sh r) = k)"

lemma map_update_entries:
  "map (\<lambda>(k, t, x). (k, t, f x)) (AList.update k (t, x) xs) = AList.update k (t, f x) (map (\<lambda>(k, t, x). (k, t, f x)) xs)"
  by (induction xs) auto

lemma map_delete_entries:
  "map (\<lambda>(k, t, x). (k, t, f x)) (AList.delete k xs) = AList.delete k (map (\<lambda>(k, t, x). (k, t, f x)) xs)"
  by (induction xs) (auto simp: AList.delete_eq)

lemma map_of_entries: "map_of (map (\<lambda>(k, t, x). (k, t, f x)) xs) k = map_option (\<lambda>(t, x). (t, f x)) (map_of xs k)"
  by (induction xs) auto

lemma update_agree:
  "dict_ok xs \<Longrightarrow> \<forall>(k', t, x) \<in> set xs. k' \<noteq> k \<longrightarrow> f x = g x \<Longrightarrow>
     AList.update k v (map (\<lambda>(k, t, x). (k, t, f x)) xs) = AList.update k v (map (\<lambda>(k, t, x). (k, t, g x)) xs)"
proof (induction xs)
  case (Cons p xs)
  obtain k' t x where p: "p = (k', t, x)" by (metis prod_cases3)
  have "map (\<lambda>(k, t, x). (k, t, f x)) xs = map (\<lambda>(k, t, x). (k, t, g x)) xs" if "k' = k"
    using Cons.prems that p by (fastforce simp: dict_ok_def)
  moreover have "dict_ok xs" using Cons.prems by (auto simp: dict_ok_def)
  ultimately show ?case using Cons p by auto
qed simp

text \<open>
  A task with the object \<open>s\<close> at \<open>r\<close> and the sequential model in the middle of the same call: they
  agree but for the stored value of that object, which the sequential model assigns at the end.
\<close>

definition tracks :: "shared \<Rightarrow> nat \<Rightarrow> bool \<Rightarrow> SessionState \<Rightarrow> orch \<Rightarrow> bool" where
  "tracks sh r aliased s st \<longleftrightarrow> heap_ok sh \<and> r < length (sh_heap sh) \<and> object sh r = s \<and>
     o_convs st = sh_convs sh \<and> o_calls st = sh_calls sh \<and>
     (aliased \<longleftrightarrow> (\<exists>t. map_of (st_entries (sh_sessions sh)) (ss_session_id s) = Some (t, r))) \<and>
     (\<exists>s0. o_sessions st = ttl_map ((object sh)(r := s0)) (sh_sessions sh))"

lemma object_assign: "r < length (sh_heap sh) \<Longrightarrow> object (assign r s sh) = (object sh)(r := s)"
  by (auto simp: object_def assign_def)

lemma assign_simps [simp]:
  "sh_sessions (assign r s sh) = sh_sessions sh" "sh_convs (assign r s sh) = sh_convs sh"
  "sh_calls (assign r s sh) = sh_calls sh" "length (sh_heap (assign r s sh)) = length (sh_heap sh)"
  by (simp_all add: assign_def)

lemma object_same [simp]:
  "object (called c sh) = object sh" "object (sh\<lparr>sh_convs := x\<rparr>) = object sh" "object (sh\<lparr>sh_sessions := y\<rparr>) = object sh"
  "object (put_session env q sh) = object sh"
  by (simp_all add: fun_eq_iff object_def called_def put_session_def)

lemma called_simps [simp]:
  "sh_sessions (called c sh) = sh_sessions sh" "sh_convs (called c sh) = sh_convs sh"
  "sh_calls (called c sh) = sh_calls sh @ [c]" "sh_heap (called c sh) = sh_heap sh"
  by (simp_all add: called_def)

lemma heap_ok_same [simp]:
  "heap_ok (called c sh) \<longleftrightarrow> heap_ok sh" "heap_ok (sh\<lparr>sh_convs := x\<rparr>) \<longleftrightarrow> heap_ok sh"
  by (simp_all add: heap_ok_def)

lemma heap_ok_assign:
  "heap_ok sh \<Longrightarrow> r < length (sh_heap sh) \<Longrightarrow> ss_session_id s = ss_session_id (object sh r) \<Longrightarrow> heap_ok (assign r s sh)"
  by (fastforce simp: heap_ok_def object_assign)

lemma heap_ok_put: "heap_ok sh \<Longrightarrow> r < length (sh_heap sh) \<Longrightarrow> heap_ok (put_session env r sh)"
  using set_update_subset [of "ss_session_id (object sh r)" "(e_clock env (sh_calls sh) + st_ttl (sh_sessions sh), r)"
      "st_entries (sh_sessions sh)"]
  by (fastforce simp: heap_ok_def put_session_def ttl_set_def object_def)

lemma tracks_assign:
  assumes "tracks sh r aliased s st" "ss_session_id s' = ss_session_id s"
  shows "tracks (assign r s' sh) r aliased s' st"
  using assms by (auto simp: tracks_def object_assign intro: heap_ok_assign)

lemma tracks_called: "tracks sh r aliased s st \<Longrightarrow> tracks (called c sh) r aliased s (log_call c st)"
  by (simp add: tracks_def)

lemma tracks_convs: "tracks sh r aliased s st \<Longrightarrow> tracks (sh\<lparr>sh_convs := c\<rparr>) r aliased s (st\<lparr>o_convs := c\<rparr>)"
  by (simp add: tracks_def)

text \<open>Storing the object: where the others are stored, the two states agree.\<close>

lemma others_agree:
  "heap_ok sh \<Longrightarrow> \<forall>(k, t, x) \<in> set (st_entries (sh_sessions sh)). k \<noteq> ss_session_id (object sh r) \<longrightarrow> ((object sh)(r := s0)) x = object sh x"
  by (auto simp: heap_ok_def)

lemma tracks_put:
  assumes "tracks sh r aliased s st"
  shows "heap_ok (put_session env r sh)" "orch_of (put_session env r sh) = store_session env s st"
proof -
  obtain s0 where ok: "heap_ok sh" "r < length (sh_heap sh)" "object sh r = s" "o_convs st = sh_convs sh"
      "o_calls st = sh_calls sh" "o_sessions st = ttl_map ((object sh)(r := s0)) (sh_sessions sh)"
    using assms by (auto simp: tracks_def)
  show "heap_ok (put_session env r sh)" using ok(1,2) by (rule heap_ok_put)
  have d: "dict_ok (st_entries (sh_sessions sh))" using ok(1) by (simp add: heap_ok_def)
  have "o_sessions (orch_of (put_session env r sh)) = session_set (o_sessions st) (e_clock env (o_calls st)) s"
    using update_agree [OF d others_agree [OF ok(1), of r s0],
        of "(e_clock env (sh_calls sh) + st_ttl (sh_sessions sh), s)"] ok(3,5,6)
    by (simp add: orch_of_def ttl_map_def session_set_def ttl_set_def map_update_entries put_session_def)
  then show "orch_of (put_session env r sh) = store_session env s st"
    using ok(4,5) by (simp add: store_session_def orch_of_def put_session_def)
qed

lemma tracks_raise:
  assumes "tracks sh r aliased s st"
  shows "raise_with e aliased s st = (Inl e, orch_of sh)"
proof -
  obtain s0 where ok: "heap_ok sh" "object sh r = s" "o_convs st = sh_convs sh" "o_calls st = sh_calls sh"
      "o_sessions st = ttl_map ((object sh)(r := s0)) (sh_sessions sh)"
      "aliased \<longleftrightarrow> (\<exists>t. map_of (st_entries (sh_sessions sh)) (ss_session_id s) = Some (t, r))"
    using assms by (auto simp: tracks_def)
  let ?es = "st_entries (sh_sessions sh)"
  have d: "dict_ok ?es" using ok(1) by (simp add: heap_ok_def)
  have "(if aliased then session_alias (o_sessions st) s else o_sessions st) = o_sessions (orch_of sh)"
  proof (cases aliased)
    case True
    then obtain t where t: "map_of ?es (ss_session_id s) = Some (t, r)" using ok(6) by auto
    have "map (\<lambda>(k, t, x). (k, t, object sh x)) ?es =
        map (\<lambda>(k, t, x). (k, t, object sh x)) (AList.update (ss_session_id s) (t, r) ?es)"
      using t by (simp add: AList.update_triv)
    then show ?thesis
      using True t update_agree [OF d others_agree [OF ok(1), of r s0], of "(t, s)"] ok(2,5)
      by (simp add: orch_of_def ttl_map_def session_alias_def map_of_entries map_update_entries)
  next
    case False
    have "x \<noteq> r" if "(k, t, x) \<in> set ?es" for k t x
      using that ok(1,2,6) False d by (auto simp: heap_ok_def dict_ok_def)
    then have "ttl_map ((object sh)(r := s0)) (sh_sessions sh) = ttl_map (object sh) (sh_sessions sh)"
      by (auto simp: ttl_map_def)
    then show ?thesis using False ok(5) by (simp add: orch_of_def)
  qed
  then show ?thesis using ok(3,4) by (auto simp: raise_with_def orch_of_def)
qed

subsection \<open>A call that runs alone\<close>

fun alone :: "settings \<Rightarrow> env \<Rightarrow> vocab \<Rightarrow> nat \<Rightarrow> task \<times> shared \<Rightarrow> task \<times> shared" where
  "alone cfg env v 0 c = c"
| "alone cfg env v (Suc n) (t, sh) = alone cfg env v n (task_step cfg env v t sh)"

text \<open>The task runs to its end, with the result and the state that the sequential model gives.\<close>

definition completes :: "settings \<Rightarrow> env \<Rightarrow> vocab \<Rightarrow> qargs \<Rightarrow> nat \<Rightarrow> task_at \<times> shared \<Rightarrow>
    (exn + QueryResponse) \<times> orch \<Rightarrow> bool" where
  "completes cfg env v a r = (\<lambda>(at, sh) (res, st). \<exists>n sh'.
     alone cfg env v n (\<lparr>tk_args = a, tk_session = r, tk_at = at\<rparr>, sh) =
       (\<lparr>tk_args = a, tk_session = r, tk_at = Finished res\<rparr>, sh') \<and> orch_of sh' = st \<and> heap_ok sh')"

lemma completes_finished: "heap_ok sh \<Longrightarrow> completes cfg env v a r (Finished res, sh) (res, orch_of sh)"
  by (auto simp: completes_def intro!: exI [of _ 0])

lemma completes_raised:
  assumes "tracks sh r aliased s st"
  shows "completes cfg env v a r (Finished (Inl e), sh) (raise_with e aliased s st)"
  unfolding tracks_raise [OF assms] using assms by (intro completes_finished) (simp add: tracks_def)

lemma completes_step:
  assumes "task_step cfg env v \<lparr>tk_args = a, tk_session = r, tk_at = at\<rparr> sh = (\<lparr>tk_args = a, tk_session = r, tk_at = at'\<rparr>, sh')"
    and "completes cfg env v a r (at', sh') out"
  shows "completes cfg env v a r (at, sh) out"
proof -
  obtain res st where out: "out = (res, st)" by (cases out)
  then obtain n sh2 where "alone cfg env v n (\<lparr>tk_args = a, tk_session = r, tk_at = at'\<rparr>, sh') =
      (\<lparr>tk_args = a, tk_session = r, tk_at = Finished res\<rparr>, sh2)" "orch_of sh2 = st" "heap_ok sh2"
    using assms(2) by (auto simp: completes_def)
  then show ?thesis unfolding out completes_def by (auto simp: assms(1) intro!: exI [of _ "Suc n"])
qed

lemma orch_of_called: "orch_of (called c sh) = log_call c (orch_of sh)"
  by (simp add: orch_of_def log_call_def)

lemma orch_of_simps [simp]: "o_calls (orch_of sh) = sh_calls sh" "o_convs (orch_of sh) = sh_convs sh"
  by (simp_all add: orch_of_def)

lemma completes_report:
  assumes "heap_ok sh"
  shows "completes cfg env v a r (report_part cfg env query response sh) (with_report cfg env query response (orch_of sh))"
proof (cases "s_delivery_enabled cfg")
  case False
  then show ?thesis using assms by (simp add: report_part_def with_report_def completes_finished)
next
  case True
  let ?id = "query_report_id env (sh_calls sh) (qr_session_id response)"
  let ?content = "build_query_report (s_max_issues cfg) (e_isoformat env (sh_calls sh)) query response"
  have fin: "completes cfg env v a r (Finished res, called (CDeliver ?id ?content) sh)
      (res, log_call (CDeliver ?id ?content) (orch_of sh))" for res
    using completes_finished [of "called (CDeliver ?id ?content) sh"] assms by (simp add: orch_of_called)
  let ?res = "fst (with_report cfg env query response (orch_of sh))"
  have w: "with_report cfg env query response (orch_of sh) = (?res, log_call (CDeliver ?id ?content) (orch_of sh))"
    using True by (simp add: with_report_def Let_def split: sum.split)
  have "completes cfg env v a r (Delivering response ?id ?content, sh) (?res, log_call (CDeliver ?id ?content) (orch_of sh))"
    by (rule completes_step [OF _ fin]) (use True in \<open>simp add: task_step_def with_report_def Let_def split: sum.split\<close>)
  then show ?thesis unfolding w [symmetric] using True by (simp add: report_part_def)
qed

lemma completes_injected:
  assumes "heap_ok sh" "given (lq_jql result)"
  shows "completes cfg env v a r (Injecting query active errors result, sh)
     (case show_in_ui_step env True result errors (orch_of sh) of
        (injected, errors', st) \<Rightarrow> with_report cfg env query (result_response (object sh r) active result injected errors') st)"
proof -
  let ?txt = "the (lq_jql result) @ '' /raw''"
  let ?ack = "e_inject env (sh_calls sh) ?txt"
  let ?errors = "if ia_accepted ?ack then errors else errors @ [''chart not shown in UI: '' @ or_else (ia_detail ?ack) ''rejected'']"
  let ?sh = "called (CInject ?txt) sh"
  let ?resp = "result_response (object sh r) active result (ia_accepted ?ack) ?errors"
  obtain at' sh' where p: "report_part cfg env query ?resp ?sh = (at', sh')" by fastforce
  have "heap_ok ?sh" using assms(1) by simp
  then have "completes cfg env v a r (at', sh') (with_report cfg env query ?resp (orch_of ?sh))"
    unfolding p [symmetric] by (rule completes_report)
  then have "completes cfg env v a r (Injecting query active errors result, sh) (with_report cfg env query ?resp (orch_of ?sh))"
    by (rule completes_step [rotated]) (use p in \<open>simp add: task_step_def Let_def\<close>)
  then show ?thesis using assms(2) by (simp add: show_in_ui_step_def Let_def orch_of_called)
qed

lemma completes_queried:
  assumes ok: "heap_ok sh"
  shows "completes cfg env v a r (queried_part cfg env a r query active errors answer sh)
     (case answer of
        Inl e \<Rightarrow>
          if is_LiteBackendError e
          then with_report cfg env query (failure_response (object sh r) active errors (exn_str e)) (orch_of sh)
          else (Inl e, orch_of sh)
      | Inr result \<Rightarrow>
          if lq_total result = 0
          then with_report cfg env query (zero_response (object sh r) active errors result) (orch_of sh)
          else (case show_in_ui_step env (q_show_in_ui a) result errors (orch_of sh) of
                  (injected, errors', st) \<Rightarrow>
                    with_report cfg env query (result_response (object sh r) active result injected errors') st))"
proof (cases answer)
  case (Inl e)
  then show ?thesis using completes_report [OF ok] completes_finished [OF ok] by (simp add: queried_part_def)
next
  case (Inr result)
  consider "lq_total result = 0" | "lq_total result \<noteq> 0" "q_show_in_ui a" "given (lq_jql result)"
    | "lq_total result \<noteq> 0" "\<not> (q_show_in_ui a \<and> given (lq_jql result))" by blast
  then show ?thesis
  proof cases
    case 1
    then show ?thesis using Inr completes_report [OF ok] by (simp add: queried_part_def)
  next
    case 2
    then show ?thesis using Inr completes_injected [OF ok, of result] by (simp add: queried_part_def)
  next
    case 3
    then show ?thesis using Inr completes_report [OF ok] by (auto simp: queried_part_def show_in_ui_step_def)
  qed
qed

lemma completes_dispatch:
  assumes "tracks sh r aliased s st"
  shows "completes cfg env v a r (dispatch_part env r query active errors sh)
     (dispatch cfg env s query active (q_limit a) errors (q_show_in_ui a) st)"
proof -
  let ?s = "clear_pending (s\<lparr>ss_state := DISPATCHED\<rparr>)"
  let ?sh = "put_session env r (assign r ?s sh)"
  let ?q = "CQuery (enriched query active) (q_limit a)"
  have r: "r < length (sh_heap sh)" "object sh r = s" using assms by (simp_all add: tracks_def)
  note put = tracks_put [OF tracks_assign [OF assms, of ?s], of env]
  have sh: "heap_ok (called ?q ?sh)" "orch_of (called ?q ?sh) = log_call ?q (store_session env ?s st)"
      "object (called ?q ?sh) r = ?s" "sh_calls ?sh = o_calls (store_session env ?s st)"
    using put r by (simp_all add: clear_pending_def orch_of_called object_assign flip: orch_of_simps)
  obtain at' sh' where q: "queried_part cfg env a r query active errors (e_query env (sh_calls ?sh) (enriched query active) (q_limit a))
      (called ?q ?sh) = (at', sh')" by fastforce
  have "completes cfg env v a r (Querying query active errors, ?sh)
      (dispatch cfg env s query active (q_limit a) errors (q_show_in_ui a) st)"
  proof (rule completes_step [where at' = at' and sh' = sh'])
    show "completes cfg env v a r (at', sh') (dispatch cfg env s query active (q_limit a) errors (q_show_in_ui a) st)"
      using completes_queried [OF sh(1), of cfg env v a r query active errors
          "e_query env (sh_calls ?sh) (enriched query active) (q_limit a)"]
      unfolding q sh(2,3) by (simp add: dispatch_def Let_def sh(4))
  qed (use q in \<open>simp add: task_step_def\<close>)
  then show ?thesis using r(2) by (simp add: dispatch_part_def)
qed

text \<open>The learning of an answer, with \<open>k\<close> for what the call does after it.\<close>

definition learned_then :: "(SessionState \<Rightarrow> orch \<Rightarrow> (exn + QueryResponse) \<times> orch) \<Rightarrow> bool \<Rightarrow>
    (exn + unit) \<times> SessionState \<times> orch \<Rightarrow> (exn + QueryResponse) \<times> orch" where
  "learned_then k aliased = (\<lambda>(r, s, st). case r of Inl e \<Rightarrow> raise_with e aliased s st | Inr _ \<Rightarrow> k s st)"

lemma learned_then_alt:
  "learned_then k aliased x = (case x of (Inl e, s, st) \<Rightarrow> raise_with e aliased s st | (Inr _, s, st) \<Rightarrow> k s st)"
  by (cases x) (auto simp: learned_then_def split: sum.split)

lemma tracks_learn:
  assumes "tracks sh r aliased s st"
  shows "tracks (called (CLearn (lower (to_term item)))
     ((assign r (learn_session item s) (sh\<lparr>sh_convs := x\<rparr>))\<lparr>sh_convs := snd (learn_write env item st)\<rparr>))
     r aliased (learn_session item s) (learn_state env item st)"
proof -
  have "ss_session_id (learn_session item s) = ss_session_id s" by (simp add: learn_session_def Let_def)
  from tracks_convs [OF tracks_assign [OF tracks_convs [OF assms, of x] this], of "snd (learn_write env item st)"]
  show ?thesis unfolding learn_state_def by (intro tracks_called) simp
qed

lemma completes_learn:
  assumes "tracks sh r aliased s st"
    and "\<And>sh s st. tracks sh r aliased s st \<Longrightarrow> completes cfg env v a r (after_learning cfg env v r todo sh) (k s st)"
  shows "completes cfg env v a r (learn_part cfg env v r items todo sh) (learned_then k aliased (learn_items env items s st))"
  using assms(1)
proof (induction items arbitrary: sh s st)
  case Nil
  then show ?case using assms(2) by (simp add: learned_then_def)
next
  case (Cons item items)
  have same: "object sh r = s" "sh_calls sh = o_calls st" "sh_convs sh = o_convs st"
    using Cons.prems by (simp_all add: tracks_def)
  let ?c = "\<lparr>cv_project = INSTANCE_DEFAULT_PROJECT, cv_term = lower (to_term item),
      cv_resolution_key = to_resolution_key item, cv_jql_hint = to_jql_hint item, cv_learned_at = e_utc env (o_calls st)\<rparr>"
  let ?x = "(o_convs st)\<lparr>cs_items := AList.update (key_of ?c) ?c (cs_items (o_convs st))\<rparr>"
  let ?sh = "assign r (learn_session item s) (sh\<lparr>sh_convs := ?x\<rparr>)"
  let ?sh2 = "called (CLearn (lower (to_term item))) (?sh\<lparr>sh_convs := snd (learn_write env item st)\<rparr>)"
  have part: "learn_part cfg env v r (item # items) todo sh = (Learning (lower (to_term item)) items todo, ?sh)"
    using same by (simp add: learn_session_def Let_def)
  have written: "conventions_persist (e_conv_enc env) (e_conv_io env (sh_calls ?sh)) (sh_convs ?sh) = learn_write env item st"
    using same(2) by (simp add: learn_write_def conventions_set_def)
  have tracks: "tracks ?sh2 r aliased (learn_session item s) (learn_state env item st)"
    using Cons.prems by (rule tracks_learn)
  show ?case
  proof (cases "fst (learn_write env item st)")
    case (Inl e)
    have "completes cfg env v a r (Learning (lower (to_term item)) items todo, ?sh)
        (raise_with e aliased (learn_session item s) (learn_state env item st))"
      by (rule completes_step [OF _ completes_raised [OF tracks]])
        (simp add: task_step_def Let_def written Inl del: assign_simps)
    then show ?thesis unfolding part by (simp add: learn_items_step learned_then_def Inl del: learn_items.simps)
  next
    case (Inr u)
    obtain at' sh' where nxt: "learn_part cfg env v r items todo ?sh2 = (at', sh')" by fastforce
    have "completes cfg env v a r (at', sh') (learned_then k aliased (learn_items env items (learn_session item s) (learn_state env item st)))"
      unfolding nxt [symmetric] using tracks by (rule Cons.IH)
    then have "completes cfg env v a r (Learning (lower (to_term item)) items todo, ?sh)
        (learned_then k aliased (learn_items env items (learn_session item s) (learn_state env item st)))"
      by (rule completes_step [rotated]) (simp add: task_step_def Let_def written Inr nxt del: assign_simps)
    then show ?thesis unfolding part by (simp add: learn_items_step Inr del: learn_items.simps)
  qed
qed

lemma completes_resolve:
  assumes "tracks sh r aliased s st"
    and "\<And>sh s st. tracks sh r aliased s st \<Longrightarrow> completes cfg env v a r (after_learning cfg env v r todo sh) (k s st)"
  shows "completes cfg env v a r (Resolving query terms answer todo, sh)
     (learned_then k aliased (resolve_and_learn env v s query terms answer st))"
proof -
  have same: "sh_calls sh = o_calls st" using assms(1) by (simp add: tracks_def)
  let ?c = "CResolve query terms answer"
  have tracks: "tracks (called ?c sh) r aliased s (log_call ?c st)" using assms(1) by (rule tracks_called)
  show ?thesis
  proof (cases "e_resolve env (o_calls st) query terms answer (entries_for v terms)")
    case (Inl e)
    have "completes cfg env v a r (Resolving query terms answer todo, sh) (raise_with e aliased s (log_call ?c st))"
      by (rule completes_step [OF _ completes_raised [OF tracks]]) (simp add: task_step_def Let_def same Inl)
    then show ?thesis by (simp add: resolve_and_learn_def learned_then_def Inl)
  next
    case (Inr items)
    obtain at' sh' where nxt: "learn_part cfg env v r items todo (called ?c sh) = (at', sh')" by fastforce
    have "completes cfg env v a r (at', sh') (learned_then k aliased (learn_items env items s (log_call ?c st)))"
      unfolding nxt [symmetric] using tracks assms(2) by (rule completes_learn)
    then have "completes cfg env v a r (Resolving query terms answer todo, sh) (learned_then k aliased (learn_items env items s (log_call ?c st)))"
      by (rule completes_step [rotated]) (simp add: task_step_def Let_def same Inr nxt)
    then show ?thesis by (simp add: resolve_and_learn_def Inr)
  qed
qed

lemma completes_after_elicit:
  assumes "tracks sh r aliased s st"
  shows "completes cfg env v a r (after_learning cfg env v r (Dispatch query active unresolved) sh)
     (case transition s RESOLVED of
        Inl e \<Rightarrow> raise_with e aliased s st
      | Inr s' \<Rightarrow> dispatch cfg env s' query (activate s unresolved active) (q_limit a) [] (q_show_in_ui a) st)"
proof -
  have s: "object sh r = s" using assms by (simp add: tracks_def)
  show ?thesis
  proof (cases "transition s RESOLVED")
    case (Inl e)
    then show ?thesis using completes_raised [OF assms] s by (simp add: after_learning_def)
  next
    case (Inr s')
    then have "s' = s\<lparr>ss_state := RESOLVED\<rparr>" by (auto simp: transition_resolved split: if_splits)
    then have "tracks (assign r s' sh) r aliased s' st" "activate s' unresolved active = activate s unresolved active"
      using assms by (auto intro: tracks_assign simp: activate_def)
    then show ?thesis using completes_dispatch Inr s by (simp add: after_learning_def)
  qed
qed

lemma completes_elicited:
  assumes "tracks sh r aliased s st"
  shows "completes cfg env v a r (elicited_part env a r query active unresolved question answer sh)
     (if given answer
      then learned_then (\<lambda>s st. case transition s RESOLVED of
               Inl e \<Rightarrow> raise_with e aliased s st
             | Inr s' \<Rightarrow> dispatch cfg env s' query (activate s unresolved active) (q_limit a) [] (q_show_in_ui a) st)
             aliased (resolve_and_learn env v s query unresolved (the answer) st)
      else (Inr (question_response (q_session_id a) question),
        store_session env (s\<lparr>ss_state := AWAITING_CLARIFICATION, ss_pending_query := Some query,
          ss_pending_terms := unresolved, ss_pending_question := Some question\<rparr>) st))"
proof (cases "given answer")
  case True
  then show ?thesis using completes_resolve [OF assms completes_after_elicit] by (simp add: elicited_part_def)
next
  case False
  let ?s = "s\<lparr>ss_state := AWAITING_CLARIFICATION, ss_pending_query := Some query,
      ss_pending_terms := unresolved, ss_pending_question := Some question\<rparr>"
  note put = tracks_put [OF tracks_assign [OF assms, of ?s], of env]
  have "completes cfg env v a r (Finished (Inr (question_response (q_session_id a) question)), put_session env r (assign r ?s sh))
      (Inr (question_response (q_session_id a) question), store_session env ?s st)"
    using completes_finished [OF put(1)] put(2) by simp
  then show ?thesis using False assms by (simp add: elicited_part_def tracks_def)
qed

lemma completes_formulated:
  assumes "tracks sh r aliased s st"
  shows "completes cfg env v a r (formulated_part env a r query active unresolved needed sh)
     (case needed of
        Inl e \<Rightarrow>
          if is_ClarificationError e
          then dispatch cfg env s query active (q_limit a) [''clarification unavailable: '' @ exn_str e] (q_show_in_ui a) st
          else raise_with e aliased s st
      | Inr question \<Rightarrow> ask_question cfg env v a query s aliased active unresolved question st)"
proof (cases needed)
  case (Inl e)
  then show ?thesis using completes_dispatch [OF assms] completes_raised [OF assms] by (simp add: formulated_part_def)
next
  case (Inr question)
  let ?s = "s\<lparr>ss_clarification_rounds := ss_clarification_rounds s + 1\<rparr>"
  let ?sh = "assign r ?s sh"
  have s: "object sh r = s" "sh_calls ?sh = o_calls st" using assms by (simp_all add: tracks_def)
  have tracks: "tracks ?sh r aliased ?s st" using assms by (rule tracks_assign) simp
  show ?thesis
  proof (cases "e_elicit env")
    case None
    then show ?thesis using completes_elicited [OF tracks, where answer = None] Inr s(1)
      by (simp add: formulated_part_def ask_question_def Let_def)
  next
    case (Some el)
    let ?c = "CElicit question"
    obtain at' sh' where p: "elicited_part env a r query active unresolved question (el (o_calls st) question) (called ?c ?sh) = (at', sh')"
      by fastforce
    have "completes cfg env v a r (at', sh') (ask_question cfg env v a query s aliased active unresolved question st)"
      using completes_elicited [OF tracks_called [OF tracks, of ?c], where answer = "el (o_calls st) question" and question = question and query = query and
          active = active and unresolved = unresolved and env = env and v = v and cfg = cfg and a = a] Some
      unfolding p by (cases "given (el (o_calls st) question)") (simp_all add: ask_question_def Let_def learned_then_alt)
    then have "completes cfg env v a r (Eliciting query active unresolved question, ?sh)
        (ask_question cfg env v a query s aliased active unresolved question st)"
      by (rule completes_step [rotated]) (use p in \<open>simp add: task_step_def Let_def s(2) Some del: assign_simps\<close>)
    then show ?thesis using Inr Some s(1) by (simp add: formulated_part_def Let_def)
  qed
qed

lemma completes_clarify:
  assumes "tracks sh r aliased s st"
  shows "completes cfg env v a r (clarify_part cfg env v r query sh) (clarify_and_dispatch cfg env v a query s aliased st)"
proof -
  have same: "object sh r = s" "sh_calls sh = o_calls st" "sh_convs sh = o_convs st"
    using assms by (simp_all add: tracks_def)
  obtain active unresolved where split: "split_resolved (o_convs st) s (detect v query) = (active, unresolved)" by fastforce
  note known = clarify_part_def clarify_and_dispatch_def Let_def same split
  consider "unresolved = []" | "unresolved \<noteq> []" "s_max_rounds cfg \<le> ss_clarification_rounds s"
    | e where "unresolved \<noteq> []" "\<not> s_max_rounds cfg \<le> ss_clarification_rounds s" "e_load_fields env = Inl e"
    | fs where "unresolved \<noteq> []" "\<not> s_max_rounds cfg \<le> ss_clarification_rounds s" "e_load_fields env = Inr fs"
    by (cases "e_load_fields env") blast+
  then show ?thesis
  proof cases
    case (4 fs)
    let ?c = "CFormulate query unresolved"
    let ?convs = "conventions_list_all (o_convs st)"
    let ?fs = "py_take (s_max_fields_in_prompt cfg) fs"
    let ?needed = "e_formulate env (o_calls st) query unresolved (entries_for v unresolved) ?convs ?fs"
    obtain at' sh' where p: "formulated_part env a r query active unresolved ?needed (called ?c sh) = (at', sh')" by fastforce
    have "completes cfg env v a r (at', sh') (clarify_and_dispatch cfg env v a query s aliased st)"
      using completes_formulated [OF tracks_called [OF assms, of ?c], where needed = ?needed and query = query and
          active = active and unresolved = unresolved and env = env and v = v and cfg = cfg and a = a] 4
      unfolding p by (cases ?needed) (auto simp: clarify_and_dispatch_def Let_def split split: if_splits)
    then have "completes cfg env v a r (Formulating query active unresolved ?convs ?fs, sh) (clarify_and_dispatch cfg env v a query s aliased st)"
      by (rule completes_step [rotated]) (use p in \<open>simp add: task_step_def Let_def same\<close>)
    then show ?thesis using 4 by (simp add: clarify_part_def Let_def same split)
  qed (use completes_dispatch [OF assms] completes_raised [OF assms] in \<open>simp_all add: known\<close>)
qed

text \<open>The lookup of the session: the object that is stored, or a new one that is not.\<close>

lemma ttl_get_map: "ttl_get (ttl_map f st) now sid = (map_option f (fst (ttl_get st now sid)), ttl_map f (snd (ttl_get st now sid)))"
  by (auto simp: ttl_get_def ttl_map_def map_of_entries map_delete_entries split: option.split)

lemma object_allocate:
  "object (snd (allocate s sh)) (length (sh_heap sh)) = s"
  "r < length (sh_heap sh) \<Longrightarrow> object (snd (allocate s sh)) r = object sh r"
  by (simp_all add: object_def allocate_def nth_append)

lemma heap_ok_allocate: "heap_ok sh \<Longrightarrow> heap_ok (snd (allocate s sh))"
  unfolding heap_ok_def using object_allocate(2) [of _ sh s] by (fastforce simp: allocate_def)

lemma heap_ok_expire: "heap_ok sh \<Longrightarrow> heap_ok (sh\<lparr>sh_sessions := snd (ttl_get (sh_sessions sh) now sid)\<rparr>)"
  using set_delete_subset [of sid "st_entries (sh_sessions sh)"]
  by (auto simp: heap_ok_def ttl_get_def split: option.split)

lemma orch_of_allocate: "heap_ok sh \<Longrightarrow> orch_of (snd (allocate s sh)) = orch_of sh"
  using object_allocate(2) [of _ sh s] by (auto simp: orch_of_def ttl_map_def heap_ok_def allocate_def)

lemma tracks_new:
  assumes "heap_ok sh"
  shows "tracks (snd (allocate s sh)) (length (sh_heap sh)) False s (orch_of sh)"
proof -
  have "map_of (st_entries (sh_sessions sh)) k \<noteq> Some (t, length (sh_heap sh))" for k t
    using assms by (auto simp: heap_ok_def dest!: map_of_SomeD)
  moreover have "o_sessions (orch_of (snd (allocate s sh))) = o_sessions (orch_of sh)"
    using orch_of_allocate [OF assms] by simp
  ultimately show ?thesis
    using heap_ok_allocate [OF assms, of s] object_allocate(1) [of s sh]
    by (auto simp: tracks_def allocate_def orch_of_def fun_upd_idem intro!: exI [of _ s])
qed

lemma tracks_stored:
  assumes "heap_ok sh" "map_of (st_entries (sh_sessions sh)) sid = Some (t, r)"
  shows "tracks sh r True (object sh r) (orch_of sh)" "ss_session_id (object sh r) = sid"
proof -
  show sid: "ss_session_id (object sh r) = sid" using assms by (auto simp: heap_ok_def dest!: map_of_SomeD)
  have "r < length (sh_heap sh)" using assms by (auto simp: heap_ok_def dest!: map_of_SomeD)
  then show "tracks sh r True (object sh r) (orch_of sh)"
    using assms sid by (auto simp: tracks_def orch_of_def intro!: exI [of _ "object sh r"])
qed

lemma completes_begin:
  assumes tracks: "tracks sh r aliased s (orch_of sh)" and start: "begin_part cfg env v a r sh = (r', at', sh')"
  shows "completes cfg env v a r' (at', sh')
     (if ss_state s = AWAITING_CLARIFICATION then
        (if given (q_clarification_answer a) then
           learned_then (\<lambda>s1 st. case transition s1 RESOLVED of
                 Inl e \<Rightarrow> raise_with e aliased s1 st
               | Inr s' \<Rightarrow> clarify_and_dispatch cfg env v a (or_else (ss_pending_query s) (q_query a)) s' aliased st)
             aliased
             (resolve_and_learn env v s (or_else (ss_pending_query s) (q_query a)) (ss_pending_terms s)
                (the (q_clarification_answer a)) (orch_of sh))
         else if ss_pending_query s = Some (q_query a) \<and> given (ss_pending_question s) then
           (Inr (question_response (q_session_id a) (the (ss_pending_question s))), store_session env s (orch_of sh))
         else clarify_and_dispatch cfg env v a (q_query a) (new_session (q_session_id a)) False (orch_of sh))
      else clarify_and_dispatch cfg env v a (q_query a) s aliased (orch_of sh))"
proof -
  have s: "object sh r = s" "heap_ok sh" using tracks by (simp_all add: tracks_def)
  have after: "completes cfg env v a r (after_learning cfg env v r (Clarify query) sh1)
      (case transition s1 RESOLVED of Inl e \<Rightarrow> raise_with e aliased s1 st1
       | Inr s' \<Rightarrow> clarify_and_dispatch cfg env v a query s' aliased st1)" if "tracks sh1 r aliased s1 st1" for sh1 s1 st1 query
  proof -
    have "object sh1 r = s1" using that by (simp add: tracks_def)
    then show ?thesis using completes_raised [OF that] completes_clarify [OF tracks_assign [OF that]]
      by (auto simp: after_learning_def transition_resolved)
  qed
  consider (answer) "ss_state s = AWAITING_CLARIFICATION" "given (q_clarification_answer a)"
    | (repeated) "ss_state s = AWAITING_CLARIFICATION" "\<not> given (q_clarification_answer a)"
        "ss_pending_query s = Some (q_query a) \<and> given (ss_pending_question s)"
    | (abandoned) "ss_state s = AWAITING_CLARIFICATION" "\<not> given (q_clarification_answer a)"
        "\<not> (ss_pending_query s = Some (q_query a) \<and> given (ss_pending_question s))"
    | (fresh) "ss_state s \<noteq> AWAITING_CLARIFICATION" by blast
  then show ?thesis
  proof cases
    case answer
    have "r' = r" "at' = Resolving (or_else (ss_pending_query s) (q_query a)) (ss_pending_terms s)
        (the (q_clarification_answer a)) (Clarify (or_else (ss_pending_query s) (q_query a)))" "sh' = sh"
      using start s(1) answer by (simp_all add: begin_part_def Let_def)
    then show ?thesis using completes_resolve [OF tracks after] answer by simp
  next
    case repeated
    have "r' = r" "at' = Finished (Inr (question_response (q_session_id a) (the (ss_pending_question s))))"
        "sh' = put_session env r sh"
      using start s(1) repeated by (auto simp: begin_part_def Let_def)
    then show ?thesis
      using completes_finished [OF tracks_put(1) [OF tracks, of env]] tracks_put(2) [OF tracks, of env] repeated by simp
  next
    case abandoned
    have "r' = length (sh_heap sh)"
        "(at', sh') = clarify_part cfg env v r' (q_query a) (snd (allocate (new_session (q_session_id a)) sh))"
      using start s(1) abandoned by (auto simp: begin_part_def Let_def allocate_def)
    then show ?thesis using completes_clarify [OF tracks_new [OF s(2)]] by (simp add: abandoned(1,2) if_not_P [OF abandoned(3)])
  next
    case fresh
    have "r' = r" "(at', sh') = clarify_part cfg env v r (q_query a) sh"
      using start s(1) fresh by (auto simp: begin_part_def Let_def)
    then show ?thesis using completes_clarify [OF tracks] fresh by simp
  qed
qed

lemma handle_query_from:
  "handle_query cfg env v a st =
     (let got = session_get (o_sessions st) (e_clock env (o_calls st)) (q_session_id a);
          aliased = (fst got \<noteq> None); st1 = st\<lparr>o_sessions := snd got\<rparr>;
          s = (case fst got of None \<Rightarrow> new_session (q_session_id a) | Some s \<Rightarrow> s)
      in if ss_state s = AWAITING_CLARIFICATION then
           (if given (q_clarification_answer a) then
              learned_then (\<lambda>s1 st. case transition s1 RESOLVED of
                    Inl e \<Rightarrow> raise_with e aliased s1 st
                  | Inr s' \<Rightarrow> clarify_and_dispatch cfg env v a (or_else (ss_pending_query s) (q_query a)) s' aliased st)
                aliased
                (resolve_and_learn env v s (or_else (ss_pending_query s) (q_query a)) (ss_pending_terms s)
                   (the (q_clarification_answer a)) st1)
            else if ss_pending_query s = Some (q_query a) \<and> given (ss_pending_question s) then
              (Inr (question_response (q_session_id a) (the (ss_pending_question s))), store_session env s st1)
            else clarify_and_dispatch cfg env v a (q_query a) (new_session (q_session_id a)) False st1)
         else clarify_and_dispatch cfg env v a (q_query a) s aliased st1)"
  by (simp add: handle_query_def Let_def learned_then_alt)

lemma completes_enter:
  assumes ok: "heap_ok sh" and start: "enter_part cfg env v a sh = (r, at', sh')"
  shows "completes cfg env v a r (at', sh') (handle_query cfg env v a (orch_of sh))"
proof -
  let ?got = "ttl_get (sh_sessions sh) (e_clock env (sh_calls sh)) (q_session_id a)"
  let ?sh = "sh\<lparr>sh_sessions := snd ?got\<rparr>"
  have ok': "heap_ok ?sh" using ok by (rule heap_ok_expire)
  have st: "orch_of ?sh = (orch_of sh)\<lparr>o_sessions := snd (session_get (o_sessions (orch_of sh)) (e_clock env (sh_calls sh)) (q_session_id a))\<rparr>"
    "fst (session_get (o_sessions (orch_of sh)) (e_clock env (sh_calls sh)) (q_session_id a)) = map_option (object sh) (fst ?got)"
    by (simp_all add: session_get_def orch_of_def ttl_get_map del: fst_ttl_get)
  show ?thesis
  proof (cases "fst ?got")
    case None
    let ?sh1 = "snd (allocate (new_session (q_session_id a)) ?sh)"
    have "begin_part cfg env v a (length (sh_heap ?sh)) ?sh1 = (r, at', sh')"
      using start None by (simp add: enter_part_def Let_def allocate_def del: fst_ttl_get)
    moreover have "tracks ?sh1 (length (sh_heap ?sh)) False (new_session (q_session_id a)) (orch_of ?sh1)"
      using tracks_new [OF ok'] by (simp only: orch_of_allocate [OF ok'])
    ultimately show ?thesis
      using completes_begin [of ?sh1 "length (sh_heap ?sh)" False "new_session (q_session_id a)" cfg env v a r at' sh']
      unfolding orch_of_allocate [OF ok'] handle_query_from Let_def orch_of_simps st None by simp
  next
    case (Some q)
    then have stored: "\<exists>t. map_of (st_entries (sh_sessions ?sh)) (q_session_id a) = Some (t, q)"
      by (auto simp: ttl_get_def simp del: fst_ttl_get split: option.splits prod.splits if_splits)
    then have tracks: "tracks ?sh q True (object sh q) (orch_of ?sh)" using tracks_stored(1) [OF ok'] by auto
    have stored_there: "(Some (object sh q) \<noteq> None) = True" by simp
    have "begin_part cfg env v a q ?sh = (r, at', sh')"
      using start Some by (simp add: enter_part_def Let_def del: fst_ttl_get)
    then show ?thesis
      using completes_begin [OF tracks, of cfg env v a r at' sh']
      unfolding handle_query_from Let_def orch_of_simps st Some option.map option.case stored_there
      by (simp split del: if_split)
  qed
qed

subsection \<open>Properties\<close>

text \<open>C7: a call that no other call overlaps ends after finitely many steps, with exactly the
  response, or exception, and exactly the state that the sequential model \<open>handle_query\<close> gives, on
  every state where each stored session object is stored under its own id. In particular the
  assignments to a session object that is also the stored one are what \<open>session_alias\<close> says.\<close>

theorem call_alone_is_handle_query:
  assumes "heap_ok sh"
  shows "\<exists>n r sh'. alone cfg env v n (new_task a, sh) =
       (\<lparr>tk_args = a, tk_session = r, tk_at = Finished (fst (handle_query cfg env v a (orch_of sh)))\<rparr>, sh') \<and>
     orch_of sh' = snd (handle_query cfg env v a (orch_of sh)) \<and> heap_ok sh'"
proof -
  obtain r at' sh1 where start: "enter_part cfg env v a sh = (r, at', sh1)" by (metis prod_cases3)
  have step: "task_step cfg env v (new_task a) sh = (\<lparr>tk_args = a, tk_session = r, tk_at = at'\<rparr>, sh1)"
    by (simp add: task_step_def new_task_def start)
  obtain n sh' where rest: "alone cfg env v n (\<lparr>tk_args = a, tk_session = r, tk_at = at'\<rparr>, sh1) =
       (\<lparr>tk_args = a, tk_session = r, tk_at = Finished (fst (handle_query cfg env v a (orch_of sh)))\<rparr>, sh')"
      "orch_of sh' = snd (handle_query cfg env v a (orch_of sh))" "heap_ok sh'"
    using completes_enter [OF assms start] by (auto simp: completes_def split: prod.splits)
  have "alone cfg env v (Suc n) (new_task a, sh) =
       (\<lparr>tk_args = a, tk_session = r, tk_at = Finished (fst (handle_query cfg env v a (orch_of sh)))\<rparr>, sh')"
    using rest(1) by (simp add: step)
  then show ?thesis using rest(2,3) by blast
qed

theorem call_alone_is_handle_query_witness:
  "\<exists>n r sh'. alone sample_settings (sample_env None []) sample_vocab n
       (new_task (sample_query ''open risks'' None),
        \<lparr>sh_heap = [], sh_sessions = ttl_new 60, sh_convs = o_convs sample_start, sh_calls = []\<rparr>) =
     (\<lparr>tk_args = sample_query ''open risks'' None, tk_session = r,
        tk_at = Finished (Inr (question_response ''s'' ''Which one?''))\<rparr>, sh') \<and> orch_of sh' = sample_asked"
proof -
  let ?sh = "\<lparr>sh_heap = [], sh_sessions = ttl_new 60, sh_convs = o_convs sample_start, sh_calls = []\<rparr>"
  have ok: "heap_ok ?sh" by (simp add: heap_ok_def ttl_new_def)
  have start: "orch_of ?sh = sample_start"
    by (simp add: orch_of_def ttl_map_def ttl_new_def sample_start_def fresh_orch_def)
  have "fst (handle_query sample_settings (sample_env None []) sample_vocab (sample_query ''open risks'' None) sample_start) =
      Inr (question_response ''s'' ''Which one?'')" by code_simp
  then show ?thesis
    using call_alone_is_handle_query [OF ok, where cfg = sample_settings and env = "sample_env None []" and
        v = sample_vocab and a = "sample_query ''open risks'' None"]
    unfolding start sample_asked_def [symmetric] by fastforce
qed

end
