(* ===== verification/Overlapping_Laws.thy ===== *)
theory Overlapping_Laws
  imports Overlapping_Calls
begin

text \<open>
  What holds of the sessions while calls of \<open>query_jira\<close> overlap, for every schedule of the event
  loop: each stored session keeps its shape, calls of other sessions do not touch it, and the limit
  of the clarification rounds is exceeded by the calls in flight at most.
\<close>

subsection \<open>What a step may do to the shared state\<close>

text \<open>The shape of a session object between two awaits. A dispatch sets the rounds back while
  another call of the session may be asking, so a session that awaits an answer may have none.\<close>

definition object_ok :: "SessionState \<Rightarrow> bool" where
  "object_ok s \<longleftrightarrow> 0 \<le> ss_clarification_rounds s \<and> resolutions_ok (ss_resolutions s) \<and>
     (ss_state s = AWAITING_CLARIFICATION \<longrightarrow>
        ss_pending_query s \<noteq> None \<and> ss_pending_question s \<noteq> None \<and> ss_pending_terms s \<noteq> []) \<and>
     (ss_state s = DISPATCHED \<longrightarrow>
        ss_pending_query s = None \<and> ss_pending_question s = None \<and> ss_pending_terms s = [])"

definition shared_ok :: "shared \<Rightarrow> bool" where
  "shared_ok sh \<longleftrightarrow> heap_ok sh \<and> (\<forall>r < length (sh_heap sh). object_ok (object sh r)) \<and>
     (\<forall>(k, t, r) \<in> set (st_entries (sh_sessions sh)). ss_state (object sh r) \<noteq> IDLE)"

text \<open>A part of a call that works on the object at \<open>r\<close>: objects keep their ids, no other object
  changes, nor does an entry of another session, and the rounds grow by \<open>k\<close> at most.\<close>

definition rounds_at :: "shared \<Rightarrow> nat \<Rightarrow> int" where
  "rounds_at sh r = (if r < length (sh_heap sh) then max 0 (ss_clarification_rounds (object sh r)) else 0)"

definition touches :: "nat \<Rightarrow> int \<Rightarrow> shared \<Rightarrow> shared \<Rightarrow> bool" where
  "touches r k sh sh' \<longleftrightarrow>
     length (sh_heap sh) \<le> length (sh_heap sh') \<and>
     (\<forall>q < length (sh_heap sh). ss_session_id (object sh' q) = ss_session_id (object sh q) \<and>
        (q \<noteq> r \<longrightarrow> object sh' q = object sh q)) \<and>
     (\<forall>q. rounds_at sh' q \<le> rounds_at sh q + (if q = r then k else 0)) \<and>
     (\<forall>sid. sid \<noteq> ss_session_id (object sh' r) \<longrightarrow>
        map_of (st_entries (sh_sessions sh')) sid = map_of (st_entries (sh_sessions sh)) sid) \<and>
     (shared_ok sh \<longrightarrow> shared_ok sh')"

lemma touches_refl [simp]: "0 \<le> k \<Longrightarrow> touches r k sh sh"
  by (simp add: touches_def)

lemma touches_trans:
  assumes "touches r k sh sh'" "touches r 0 sh' sh''" "r < length (sh_heap sh')"
  shows "touches r k sh sh''"
  unfolding touches_def
proof (intro conjI allI impI)
  fix q
  have "rounds_at sh' q \<le> rounds_at sh q + (if q = r then k else 0)" using assms(1) unfolding touches_def by blast
  moreover have "rounds_at sh'' q \<le> rounds_at sh' q + (if q = r then 0 else 0)" using assms(2) unfolding touches_def by blast
  ultimately show "rounds_at sh'' q \<le> rounds_at sh q + (if q = r then k else 0)" by simp
qed (use assms in \<open>auto simp: touches_def\<close>)

lemma same_state [simp]:
  "rounds_at (called c sh) = rounds_at sh" "rounds_at (sh\<lparr>sh_convs := x\<rparr>) = rounds_at sh"
  "shared_ok (called c sh) = shared_ok sh" "shared_ok (sh\<lparr>sh_convs := x\<rparr>) = shared_ok sh"
  by (simp_all add: rounds_at_def shared_ok_def fun_eq_iff)

lemma touches_frame:
  "touches r 0 sh (called c sh)" "touches r 0 sh (sh\<lparr>sh_convs := x\<rparr>)"
  by (simp_all add: touches_def)

lemma touches_assign:
  assumes "ss_session_id s = ss_session_id (object sh r)" "r < length (sh_heap sh)" "0 \<le> k"
    and "object_ok (object sh r) \<Longrightarrow> object_ok s" "ss_state (object sh r) \<noteq> IDLE \<Longrightarrow> ss_state s \<noteq> IDLE"
    and "ss_clarification_rounds s \<le> max 0 (ss_clarification_rounds (object sh r)) + k"
  shows "touches r k sh (assign r s sh)"
  unfolding touches_def
proof (intro conjI allI impI)
  show "shared_ok (assign r s sh)" if "shared_ok sh"
    using that assms heap_ok_assign [of sh r s] by (auto simp: shared_ok_def object_assign)
qed (use assms in \<open>auto simp: object_assign rounds_at_def max_def\<close>)

lemma touches_put:
  assumes "r < length (sh_heap sh)" "ss_state (object sh r) \<noteq> IDLE"
  shows "touches r 0 sh (put_session env r sh)"
  unfolding touches_def
proof (intro conjI allI impI)
  show "shared_ok (put_session env r sh)" if "shared_ok sh"
    using that assms heap_ok_put [of sh r env]
      set_update_subset [of "ss_session_id (object sh r)" "(e_clock env (sh_calls sh) + st_ttl (sh_sessions sh), r)"
        "st_entries (sh_sessions sh)"]
    by (fastforce simp: shared_ok_def put_session_def ttl_set_def object_def)
qed (use assms in \<open>auto simp: put_session_def ttl_set_def object_def rounds_at_def update_conv split: if_splits\<close>)

lemma object_ok_new [simp]: "object_ok (new_session sid)"
  by (simp add: object_ok_def)

lemma allocate_simps [simp]:
  "length (sh_heap (snd (allocate s sh))) = Suc (length (sh_heap sh))" "sh_sessions (snd (allocate s sh)) = sh_sessions sh"
  by (simp_all add: allocate_def)

lemma touches_allocate:
  assumes "shared_ok sh" "object_ok s" "ss_clarification_rounds s = 0"
  shows "touches (length (sh_heap sh)) 0 sh (snd (allocate s sh))"
  unfolding touches_def
proof (intro conjI allI impI)
  have same: "object (snd (allocate s sh)) q = object sh q" if "q < length (sh_heap sh)" for q
    using that by (rule object_allocate(2))
  let ?sh = "snd (allocate s sh)"
  have len: "length (sh_heap ?sh) = Suc (length (sh_heap sh))" "sh_sessions ?sh = sh_sessions sh" by (simp_all add: allocate_def)
  have ok: "heap_ok sh" "\<And>q. q < length (sh_heap sh) \<Longrightarrow> object_ok (object sh q)" using assms(1) by (auto simp: shared_ok_def)
  have "object_ok (object ?sh q)" if "q < length (sh_heap ?sh)" for q
    using that ok(2) [of q] same [of q] object_allocate(1) [of s sh] assms(2) by (cases "q = length (sh_heap sh)") (auto simp: len)
  moreover have "ss_state (object ?sh q) \<noteq> IDLE" if "(k, t, q) \<in> set (st_entries (sh_sessions ?sh))" for k t q
  proof -
    have "q < length (sh_heap sh)" using that ok(1) by (auto simp: heap_ok_def len)
    moreover have "ss_state (object sh q) \<noteq> IDLE" using that assms(1) by (auto simp: shared_ok_def len)
    ultimately show ?thesis by (simp add: same)
  qed
  ultimately show "shared_ok ?sh" using heap_ok_allocate [OF ok(1), of s] by (auto simp: shared_ok_def)
  show "rounds_at (snd (allocate s sh)) q \<le> rounds_at sh q + (if q = length (sh_heap sh) then 0 else 0)" for q
    using same [of q] object_allocate(1) [of s sh] assms(3) by (auto simp: rounds_at_def allocate_def less_Suc_eq)
qed (auto simp: object_allocate(2))

subsection \<open>The parts of a call\<close>

text \<open>Where a part ends: only terms to ask about are asked about, and only below the limit.\<close>

fun asking :: "task_at \<Rightarrow> bool" where
  "asking (Formulating _ _ _ _ _) = True"
| "asking _ = False"

fun at_ok :: "task_at \<Rightarrow> bool" where
  "at_ok (Formulating _ _ unresolved _ _) = (unresolved \<noteq> [])"
| "at_ok (Eliciting _ _ unresolved _) = (unresolved \<noteq> [])"
| "at_ok _ = True"

definition goes :: "settings \<Rightarrow> int \<Rightarrow> nat \<Rightarrow> shared \<Rightarrow> task_at \<times> shared \<Rightarrow> bool" where
  "goes cfg k r sh = (\<lambda>(at, sh'). touches r k sh sh' \<and> r < length (sh_heap sh') \<and> at_ok at \<and> at \<noteq> Entered \<and>
     (asking at \<longrightarrow> ss_clarification_rounds (object sh' r) < s_max_rounds cfg))"

lemma goes_after:
  assumes "touches r k sh sh1" "r < length (sh_heap sh1)" "goes cfg 0 r sh1 p"
  shows "goes cfg k r sh p"
  using assms by (auto simp: goes_def intro: touches_trans)

lemma goes_finished [simp]: "r < length (sh_heap sh) \<Longrightarrow> goes cfg 0 r sh (Finished res, sh)"
  by (simp add: goes_def)

lemma goes_report: "r < length (sh_heap sh) \<Longrightarrow> goes cfg 0 r sh (report_part cfg env query response sh)"
  by (simp add: goes_def report_part_def)

lemma goes_dispatch:
  assumes r: "r < length (sh_heap sh)"
  shows "goes cfg 0 r sh (dispatch_part env r query active errors sh)"
proof -
  let ?s = "clear_pending ((object sh r)\<lparr>ss_state := DISPATCHED\<rparr>)"
  have "touches r 0 sh (assign r ?s sh)"
    using r by (intro touches_assign) (auto simp: clear_pending_def object_ok_def)
  moreover have "goes cfg 0 r (assign r ?s sh) (Querying query active errors, put_session env r (assign r ?s sh))"
    using r touches_put [of r "assign r ?s sh" env] by (simp add: goes_def object_assign clear_pending_def put_session_def)
  ultimately show ?thesis using r goes_after [of r 0 sh "assign r ?s sh"] by (simp add: dispatch_part_def)
qed

lemma goes_clarify:
  assumes r: "r < length (sh_heap sh)"
  shows "goes cfg 0 r sh (clarify_part cfg env v r query sh)"
proof -
  obtain active unresolved where split: "split_resolved (sh_convs sh) (object sh r) (detect v query) = (active, unresolved)" by fastforce
  consider "unresolved = []" | "unresolved \<noteq> []" "s_max_rounds cfg \<le> ss_clarification_rounds (object sh r)"
    | "unresolved \<noteq> []" "\<not> s_max_rounds cfg \<le> ss_clarification_rounds (object sh r)" by blast
  then show ?thesis
  proof cases
    case 3
    then show ?thesis using r by (cases "e_load_fields env") (simp_all add: clarify_part_def Let_def split goes_def)
  qed (use goes_dispatch [OF r] in \<open>simp_all add: clarify_part_def Let_def split\<close>)
qed

lemma goes_after_learning:
  assumes r: "r < length (sh_heap sh)"
  shows "goes cfg 0 r sh (after_learning cfg env v r todo sh)"
proof (cases "transition (object sh r) RESOLVED")
  case (Inl e)
  then show ?thesis using r by (simp add: after_learning_def)
next
  case (Inr s)
  then have "s = (object sh r)\<lparr>ss_state := RESOLVED\<rparr>" by (auto simp: transition_resolved split: if_splits)
  then have "touches r 0 sh (assign r s sh)" using r by (intro touches_assign) (auto simp: object_ok_def)
  moreover have "goes cfg 0 r (assign r s sh) (case todo of Clarify query \<Rightarrow> clarify_part cfg env v r query (assign r s sh)
      | Dispatch query active unresolved \<Rightarrow> dispatch_part env r query (activate s unresolved active) [] (assign r s sh))"
    using r goes_clarify goes_dispatch by (simp split: then_do.split)
  ultimately show ?thesis using r Inr goes_after [of r 0 sh "assign r s sh"] by (simp add: after_learning_def)
qed

lemma goes_learn:
  assumes r: "r < length (sh_heap sh)"
  shows "goes cfg 0 r sh (learn_part cfg env v r items todo sh)"
proof (cases items)
  case Nil
  then show ?thesis using goes_after_learning [OF r] by simp
next
  case (Cons item rest)
  let ?s = "learn_session item (object sh r)"
  have s: "learn_part cfg env v r items todo sh = (Learning (lower (to_term item)) rest todo, assign r ?s (sh\<lparr>sh_convs := x\<rparr>))"
    if "x = (let c = \<lparr>cv_project = INSTANCE_DEFAULT_PROJECT, cv_term = lower (to_term item),
        cv_resolution_key = to_resolution_key item, cv_jql_hint = to_jql_hint item, cv_learned_at = e_utc env (sh_calls sh)\<rparr>
      in (sh_convs sh)\<lparr>cs_items := AList.update (key_of c) c (cs_items (sh_convs sh))\<rparr>)" for x
    using that Cons by (simp add: learn_session_def Let_def)
  have "same_but_resolutions (object sh r) ?s" by (rule learn_step_laws(3))
  then have "touches r 0 (sh\<lparr>sh_convs := x\<rparr>) (assign r ?s (sh\<lparr>sh_convs := x\<rparr>))" for x
    using r learn_step_laws(4) [of "object sh r" item]
    by (intro touches_assign) (auto simp: object_ok_def same_but_resolutions_simps)
  then have "touches r 0 sh (assign r ?s (sh\<lparr>sh_convs := x\<rparr>))" for x
    by (rule touches_trans [OF touches_frame(2)]) (simp add: r)
  then show ?thesis unfolding s [OF refl] using r by (simp add: goes_def)
qed

lemma goes_elicited:
  assumes r: "r < length (sh_heap sh)" and un: "unresolved \<noteq> []"
  shows "goes cfg 0 r sh (elicited_part env a r query active unresolved question answer sh)"
proof (cases "given answer")
  case True
  then show ?thesis using r by (simp add: elicited_part_def goes_def)
next
  case False
  let ?s = "(object sh r)\<lparr>ss_state := AWAITING_CLARIFICATION, ss_pending_query := Some query,
      ss_pending_terms := unresolved, ss_pending_question := Some question\<rparr>"
  have "touches r 0 sh (assign r ?s sh)" using r un by (intro touches_assign) (auto simp: object_ok_def)
  moreover have "goes cfg 0 r (assign r ?s sh) (Finished res, put_session env r (assign r ?s sh))" for res
    using r touches_put [of r "assign r ?s sh" env] by (simp add: goes_def object_assign put_session_def)
  ultimately show ?thesis using r False goes_after [of r 0 sh "assign r ?s sh"] by (simp add: elicited_part_def)
qed

lemma goes_formulated:
  assumes r: "r < length (sh_heap sh)" and un: "unresolved \<noteq> []"
  shows "goes cfg 1 r sh (formulated_part env a r query active unresolved needed sh)"
proof (cases needed)
  case (Inl e)
  have "goes cfg 0 r sh p \<Longrightarrow> goes cfg 1 r sh p" for p
    using goes_after [of r 1 sh sh] r by simp
  then show ?thesis using Inl r goes_dispatch [OF r] by (simp add: formulated_part_def)
next
  case (Inr question)
  let ?s = "(object sh r)\<lparr>ss_clarification_rounds := ss_clarification_rounds (object sh r) + 1\<rparr>"
  have t: "touches r 1 sh (assign r ?s sh)" using r by (intro touches_assign) (auto simp: object_ok_def)
  have "goes cfg 0 r (assign r ?s sh)
      (if e_elicit env = None then elicited_part env a r query active unresolved question None (assign r ?s sh)
       else (Eliciting query active unresolved question, assign r ?s sh))"
    using r un goes_elicited [of r "assign r ?s sh"] by (simp add: goes_def)
  then show ?thesis using goes_after [OF t] r Inr by (simp add: formulated_part_def Let_def)
qed

lemma goes_queried:
  "r < length (sh_heap sh) \<Longrightarrow> goes cfg 0 r sh (queried_part cfg env a r query active errors answer sh)"
  using goes_report [of r sh cfg env] by (cases answer) (simp_all add: queried_part_def, simp add: goes_def)

lemma begin_goes:
  assumes "shared_ok sh" "r < length (sh_heap sh)" "ss_session_id (object sh r) = q_session_id a"
    and "begin_part cfg env v a r sh = (r', at', sh')"
  shows "goes cfg 0 r' sh (at', sh') \<and> ss_session_id (object sh' r') = q_session_id a"
proof -
  let ?s = "object sh r" and ?new = "snd (allocate (new_session (q_session_id a)) sh)"
  have kept: "ss_session_id (object sh' r) = q_session_id a" if "goes cfg 0 r sh (at', sh')"
    using that assms(2,3) by (simp add: goes_def touches_def)
  consider (answer) "ss_state ?s = AWAITING_CLARIFICATION" "given (q_clarification_answer a)"
    | (repeated) "ss_state ?s = AWAITING_CLARIFICATION" "\<not> given (q_clarification_answer a)"
        "ss_pending_query ?s = Some (q_query a) \<and> given (ss_pending_question ?s)"
    | (abandoned) "ss_state ?s = AWAITING_CLARIFICATION" "\<not> given (q_clarification_answer a)"
        "\<not> (ss_pending_query ?s = Some (q_query a) \<and> given (ss_pending_question ?s))"
    | (fresh) "ss_state ?s \<noteq> AWAITING_CLARIFICATION" by blast
  then show ?thesis
  proof cases
    case answer
    then have "r' = r" "goes cfg 0 r sh (at', sh')"
      using assms(2,4) by (auto simp: begin_part_def Let_def goes_def)
    then show ?thesis using kept by simp
  next
    case repeated
    then have "r' = r" "goes cfg 0 r sh (at', sh')"
      using assms(2,4) touches_put [of r sh env] by (auto simp: begin_part_def Let_def goes_def put_session_def)
    then show ?thesis using kept by simp
  next
    case abandoned
    have p: "r' = length (sh_heap sh)" "(at', sh') = clarify_part cfg env v r' (q_query a) ?new"
      using assms(4) abandoned by (auto simp: begin_part_def Let_def allocate_def)
    have go: "goes cfg 0 r' ?new (at', sh')" unfolding p by (rule goes_clarify) simp
    then have "ss_session_id (object sh' r') = ss_session_id (object ?new r')"
      by (simp add: goes_def touches_def p(1))
    moreover have "goes cfg 0 r' sh (at', sh')"
      using touches_allocate [OF assms(1), of "new_session (q_session_id a)"] go by (intro goes_after [of r' 0 sh ?new]) (simp_all add: p(1))
    ultimately show ?thesis using object_allocate(1) [of _ sh] by (simp add: p(1))
  next
    case fresh
    have p: "r' = r" "(at', sh') = clarify_part cfg env v r (q_query a) sh"
      using assms(4) fresh by (auto simp: begin_part_def Let_def)
    then show ?thesis using goes_clarify [OF assms(2)] kept by simp
  qed
qed

lemma shared_ok_expire: "shared_ok sh \<Longrightarrow> shared_ok (sh\<lparr>sh_sessions := snd (ttl_get (sh_sessions sh) now sid)\<rparr>)"
  using set_delete_subset [of sid "st_entries (sh_sessions sh)"] heap_ok_expire [of sh now sid]
  by (auto simp: shared_ok_def ttl_get_def split: option.split)

lemma touches_new:
  fixes sh now sid
  defines "expired \<equiv> sh\<lparr>sh_sessions := snd (ttl_get (sh_sessions sh) now sid)\<rparr>"
  assumes "shared_ok sh"
  shows "touches (length (sh_heap sh)) 0 sh (snd (allocate (new_session sid) expired))"
proof -
  have t: "touches (length (sh_heap sh)) 0 expired (snd (allocate (new_session sid) expired))"
    using touches_allocate [OF shared_ok_expire [OF assms(2)], of "new_session sid" now sid] by (simp add: expired_def)
  have same: "object expired = object sh" "sh_heap expired = sh_heap sh" "rounds_at expired = rounds_at sh"
    by (simp_all add: expired_def rounds_at_def fun_eq_iff)
  have id: "ss_session_id (object (snd (allocate (new_session sid) expired)) (length (sh_heap sh))) = sid"
    using object_allocate(1) [of "new_session sid" expired] by (simp add: same(2))
  have "map_of (st_entries (sh_sessions expired)) sid' = map_of (st_entries (sh_sessions sh)) sid'" if "sid' \<noteq> sid" for sid'
    using that by (auto simp: expired_def ttl_get_def delete_conv split: option.split)
  then show ?thesis
    using t shared_ok_expire [OF assms(2), of now sid] unfolding touches_def id same
    by (simp add: expired_def)
qed

lemma enter_goes:
  assumes "shared_ok sh" "enter_part cfg env v a sh = (r, at', sh')"
  shows "goes cfg 0 r sh (at', sh') \<and> ss_session_id (object sh' r) = q_session_id a"
proof -
  let ?got = "ttl_get (sh_sessions sh) (e_clock env (sh_calls sh)) (q_session_id a)"
  let ?sh = "sh\<lparr>sh_sessions := snd ?got\<rparr>"
  show ?thesis
  proof (cases "fst ?got")
    case (Some q)
    then obtain t where stored: "map_of (st_entries (sh_sessions sh)) (q_session_id a) = Some (t, q)" and same: "?sh = sh"
      by (auto simp: ttl_get_def simp del: fst_ttl_get split: option.splits prod.splits if_splits)
    have "q < length (sh_heap sh)" "ss_session_id (object sh q) = q_session_id a"
      using stored assms(1) by (auto simp: shared_ok_def heap_ok_def dest!: map_of_SomeD)
    moreover have "begin_part cfg env v a q sh = (r, at', sh')"
      using assms(2) Some same by (simp add: enter_part_def Let_def del: fst_ttl_get)
    ultimately show ?thesis by (rule begin_goes [OF assms(1)])
  next
    case None
    let ?new = "snd (allocate (new_session (q_session_id a)) ?sh)"
    have new: "object ?new (length (sh_heap sh)) = new_session (q_session_id a)"
      using object_allocate(1) [of "new_session (q_session_id a)" ?sh] by simp
    have p: "r = length (sh_heap sh)" "(at', sh') = clarify_part cfg env v r (q_query a) ?new"
      using assms(2) None new by (auto simp: enter_part_def begin_part_def Let_def allocate_def simp del: fst_ttl_get)
    have go: "goes cfg 0 r ?new (at', sh')" unfolding p by (rule goes_clarify) simp
    then have "ss_session_id (object sh' r) = q_session_id a"
      using new by (simp add: goes_def touches_def p(1))
    moreover have "goes cfg 0 r sh (at', sh')"
      using touches_new [OF assms(1)] go by (intro goes_after [of r 0 sh ?new]) (simp_all add: p(1))
    ultimately show ?thesis by simp
  qed
qed

subsection \<open>A step of a task\<close>

lemma goes_as: "goes cfg k r sh p \<Longrightarrow> p = p' \<Longrightarrow> goes cfg k r sh p'"
  by simp

lemma step_goes:
  assumes "tk_at t \<noteq> Entered" "tk_session t < length (sh_heap sh)" "at_ok (tk_at t)"
    and step: "task_step cfg env v t sh = (t', sh')"
  shows "tk_args t' = tk_args t \<and> tk_session t' = tk_session t \<and>
     goes cfg (if asking (tk_at t) then 1 else 0) (tk_session t) sh (tk_at t', sh')"
proof -
  let ?r = "tk_session t" and ?a = "tk_args t"
  have r: "?r < length (sh_heap (called c sh))" for c using assms(2) by simp
  have log: "goes cfg k ?r sh p" if "goes cfg k ?r (called c sh) p" for c k p
    using that by (cases p) (simp add: goes_def touches_def)
  show ?thesis
  proof (cases "tk_at t")
    case (Resolving query terms answer todo)
    then show ?thesis using step log [OF goes_finished [OF r]]
      by (auto simp: task_step_def Let_def split: sum.splits prod.splits intro: goes_as [OF log [OF goes_learn [OF r]]])
  next
    case (Learning tm items todo)
    have log2: "goes cfg 0 ?r sh p" if "goes cfg 0 ?r (called (CLearn tm) (sh\<lparr>sh_convs := x\<rparr>)) p" for p x
      using that by (cases p) (simp add: goes_def touches_def)
    have r2: "?r < length (sh_heap (called (CLearn tm) (sh\<lparr>sh_convs := x\<rparr>)))" for x using assms(2) by simp
    show ?thesis using Learning step log2 [OF goes_finished [OF r2]]
      by (auto simp: task_step_def Let_def split: sum.splits prod.splits intro: goes_as [OF log2 [OF goes_learn [OF r2]]])
  next
    case (Formulating query active unresolved convs fs)
    then have "unresolved \<noteq> []" using assms(3) by simp
    then show ?thesis using Formulating step
      by (auto simp: task_step_def Let_def split: prod.splits intro: goes_as [OF log [OF goes_formulated [OF r]]])
  next
    case (Eliciting query active unresolved question)
    then have "unresolved \<noteq> []" using assms(3) by simp
    then show ?thesis using Eliciting step
      by (auto simp: task_step_def Let_def split: prod.splits intro: goes_as [OF log [OF goes_elicited [OF r]]])
  next
    case (Querying query active errors)
    then show ?thesis using step
      by (auto simp: task_step_def Let_def split: prod.splits intro: goes_as [OF log [OF goes_queried [OF r]]])
  next
    case (Injecting query active errors result)
    then show ?thesis using step
      by (auto simp: task_step_def Let_def split: prod.splits intro: goes_as [OF log [OF goes_report [OF r]]])
  next
    case (Delivering response report_id content)
    then show ?thesis using step log [OF goes_finished [OF r]] by (auto simp: task_step_def Let_def)
  next
    case (Finished res)
    then show ?thesis using step assms(2) by (auto simp: task_step_def Let_def)
  qed (use assms(1) in simp)
qed

subsection \<open>Every schedule\<close>

text \<open>The tasks that are about to ask a question of the session object at \<open>r\<close>.\<close>

definition asks_on :: "nat \<Rightarrow> task option \<Rightarrow> bool" where
  "asks_on r x = (case x of None \<Rightarrow> False | Some t \<Rightarrow> asking (tk_at t) \<and> tk_session t = r)"

definition task_ok :: "shared \<Rightarrow> task \<Rightarrow> bool" where
  "task_ok sh t \<longleftrightarrow> tk_at t = Entered \<or>
     tk_session t < length (sh_heap sh) \<and> ss_session_id (object sh (tk_session t)) = q_session_id (tk_args t) \<and> at_ok (tk_at t)"

definition loop_ok :: "settings \<Rightarrow> nat \<Rightarrow> task option list \<times> shared \<Rightarrow> bool" where
  "loop_ok cfg n = (\<lambda>(slots, sh). length slots = n \<and> shared_ok sh \<and> (\<forall>t. Some t \<in> set slots \<longrightarrow> task_ok sh t) \<and>
     (\<forall>r. rounds_at sh r + int (length (filter (asks_on r) slots)) \<le> max 0 (s_max_rounds cfg) + int (n - 1)))"

lemma length_filter_update:
  "i < length xs \<Longrightarrow> length (filter P (xs[i := y])) + (if P (xs ! i) then 1 else 0) = length (filter P xs) + (if P y then 1 else 0)"
proof (induction xs arbitrary: i)
  case (Cons x xs)
  then show ?case by (cases i) auto
qed simp

text \<open>What a step of any task does: a task that enters gets its session object.\<close>

lemma resumed_goes:
  assumes "shared_ok sh" "task_ok sh t" "task_step cfg env v t sh = (t', sh')"
  shows "tk_args t' = tk_args t" "tk_at t \<noteq> Entered \<Longrightarrow> tk_session t' = tk_session t"
    "goes cfg (if asking (tk_at t) then 1 else 0) (tk_session t') sh (tk_at t', sh')"
    "ss_session_id (object sh' (tk_session t')) = q_session_id (tk_args t')"
proof -
  have "tk_args t' = tk_args t \<and> (tk_at t \<noteq> Entered \<longrightarrow> tk_session t' = tk_session t) \<and>
      goes cfg (if asking (tk_at t) then 1 else 0) (tk_session t') sh (tk_at t', sh') \<and>
      ss_session_id (object sh' (tk_session t')) = q_session_id (tk_args t')"
  proof (cases "tk_at t = Entered")
    case True
    obtain r at' sh1 where "enter_part cfg env v (tk_args t) sh = (r, at', sh1)" by (metis prod_cases3)
    then show ?thesis using enter_goes [OF assms(1)] assms(3) True by (auto simp: task_step_def)
  next
    case False
    then have ok: "tk_session t < length (sh_heap sh)" "at_ok (tk_at t)"
        "ss_session_id (object sh (tk_session t)) = q_session_id (tk_args t)"
      using assms(2) by (auto simp: task_ok_def)
    note go = step_goes [OF False ok(1,2) assms(3)]
    then have "ss_session_id (object sh' (tk_session t)) = ss_session_id (object sh (tk_session t))"
      using ok(1) by (simp add: goes_def touches_def)
    then show ?thesis using go ok(3) by simp
  qed
  then show "tk_args t' = tk_args t" "tk_at t \<noteq> Entered \<Longrightarrow> tk_session t' = tk_session t"
    "goes cfg (if asking (tk_at t) then 1 else 0) (tk_session t') sh (tk_at t', sh')"
    "ss_session_id (object sh' (tk_session t')) = q_session_id (tk_args t')" by blast+
qed

lemma task_ok_touches: "touches r k sh sh' \<Longrightarrow> task_ok sh t \<Longrightarrow> task_ok sh' t"
  by (auto simp: task_ok_def touches_def)

text \<open>The rounds of an object and the tasks about to ask on it, over a step.\<close>

lemma rounds_resumed:
  assumes i: "i < length slots" "slots ! i = Some t" and ok: "shared_ok sh" "task_ok sh t"
    and step: "task_step cfg env v t sh = (t', sh')"
    and before: "rounds_at sh r + int (length (filter (asks_on r) slots)) \<le> max 0 (s_max_rounds cfg) + int (length slots - 1)"
  shows "rounds_at sh' r + int (length (filter (asks_on r) (slots[i := Some t']))) \<le> max 0 (s_max_rounds cfg) + int (length slots - 1)"
proof -
  note go = resumed_goes [OF ok step]
  let ?k = "if asking (tk_at t) then 1 else 0 :: int"
  have rounds: "rounds_at sh' r \<le> rounds_at sh r + (if r = tk_session t' then ?k else 0)"
    using go(3) by (simp add: goes_def touches_def)
  have count: "length (filter (asks_on r) (slots[i := Some t'])) + (if asks_on r (Some t) then 1 else 0) =
      length (filter (asks_on r) slots) + (if asks_on r (Some t') then 1 else 0)"
    using length_filter_update [OF i(1), of "asks_on r" "Some t'"] i(2) by simp
  have same: "asking (tk_at t) \<Longrightarrow> tk_session t' = tk_session t" using go(2) by (cases "tk_at t") auto
  show ?thesis
  proof (cases "asks_on r (Some t')")
    case True
    then have r: "r = tk_session t'" "asking (tk_at t')" by (simp_all add: asks_on_def)
    then have "ss_clarification_rounds (object sh' r) < s_max_rounds cfg" "r < length (sh_heap sh')" "shared_ok sh'"
      using go(3) ok(1) by (auto simp: goes_def touches_def)
    then have "rounds_at sh' r \<le> max 0 (s_max_rounds cfg) - 1" by (auto simp: rounds_at_def shared_ok_def object_ok_def)
    moreover have "length (filter (asks_on r) (slots[i := Some t'])) \<le> length slots"
      using length_filter_le [of "asks_on r" "slots[i := Some t']"] by simp
    ultimately show ?thesis using i(1) by linarith
  next
    case False
    then show ?thesis using rounds count same before by (auto simp: asks_on_def split: if_splits)
  qed
qed

lemma loop_ok_resume:
  assumes "loop_ok cfg n (slots, sh)" "i < length slots" "slots ! i = Some t" "task_step cfg env v t sh = (t', sh')"
  shows "loop_ok cfg n (slots[i := Some t'], sh')"
proof -
  have ok: "length slots = n" "shared_ok sh" "\<And>t. Some t \<in> set slots \<Longrightarrow> task_ok sh t"
      "\<And>r. rounds_at sh r + int (length (filter (asks_on r) slots)) \<le> max 0 (s_max_rounds cfg) + int (length slots - 1)"
    using assms(1) by (auto simp: loop_ok_def)
  have t: "task_ok sh t" using assms(2,3) ok(3) nth_mem by metis
  note go = resumed_goes [OF ok(2) t assms(4)]
  have "task_ok sh' t'" using go(3,4) by (simp add: task_ok_def goes_def)
  moreover have "task_ok sh' u" if "Some u \<in> set slots" for u
    using ok(3) [OF that] go(3) task_ok_touches by (auto simp: goes_def)
  ultimately have "\<forall>u. Some u \<in> set (slots[i := Some t']) \<longrightarrow> task_ok sh' u"
    using set_update_subset_insert [of slots i "Some t'"] by auto
  moreover have "shared_ok sh'" using go(3) ok(2) by (auto simp: goes_def touches_def)
  ultimately show ?thesis
    using rounds_resumed [OF assms(2,3) ok(2) t assms(4) ok(4)] ok(1) by (simp add: loop_ok_def)
qed

lemma loop_ok_call:
  assumes "loop_ok cfg n (slots, sh)" "i < length slots" "returned (slots ! i)"
  shows "loop_ok cfg n (slots[i := Some (new_task a)], sh)"
proof -
  have "\<not> asks_on r (slots ! i)" "\<not> asks_on r (Some (new_task a))" for r
    using assms(3) by (auto simp: asks_on_def new_task_def split: option.splits task_at.splits)
  then have "length (filter (asks_on r) (slots[i := Some (new_task a)])) = length (filter (asks_on r) slots)" for r
    using length_filter_update [OF assms(2), of "asks_on r" "Some (new_task a)"] by simp
  moreover have "task_ok sh (new_task a)" by (simp add: task_ok_def new_task_def)
  ultimately show ?thesis
    using assms(1) set_update_subset_insert [of slots i "Some (new_task a)"] by (auto simp: loop_ok_def)
qed

lemma loop_ok_step: "loop_ok cfg n p \<Longrightarrow> loop_ok cfg n (loop_step cfg env v p ev)"
  by (induction cfg env v p ev rule: loop_step.induct)
    (auto intro: loop_ok_call loop_ok_resume split: option.split prod.split)

lemma loop_ok_run: "loop_ok cfg n p \<Longrightarrow> loop_ok cfg n (loop_run cfg env v p events)"
  by (induction events arbitrary: p) (simp_all add: loop_run_def loop_ok_step)

text \<open>A server that has just started, with \<open>n\<close> slots.\<close>

definition fresh_loop :: "nat \<Rightarrow> int \<Rightarrow> conv_store \<Rightarrow> task option list \<times> shared" where
  "fresh_loop n ttl convs = (replicate n None,
     \<lparr>sh_heap = [], sh_sessions = ttl_new ttl, sh_convs = convs, sh_calls = []\<rparr>)"

lemma loop_ok_fresh: "loop_ok cfg n (fresh_loop n ttl convs)"
  by (simp add: loop_ok_def fresh_loop_def shared_ok_def heap_ok_def ttl_new_def rounds_at_def asks_on_def)

text \<open>The stored sessions that a step of another session leaves alone.\<close>

lemma entry_object:
  "entry (orch_of sh) sid = map_option (\<lambda>(t, r). (t, object sh r)) (map_of (st_entries (sh_sessions sh)) sid)"
  by (simp add: entry_def orch_of_def ttl_map_def map_of_entries)

lemma entry_resumed:
  assumes "shared_ok sh" "task_ok sh t" "task_step cfg env v t sh = (t', sh')" "q_session_id (tk_args t) \<noteq> sid"
  shows "entry (orch_of sh') sid = entry (orch_of sh) sid"
proof -
  note go = resumed_goes [OF assms(1-3)]
  have same: "map_of (st_entries (sh_sessions sh')) sid = map_of (st_entries (sh_sessions sh)) sid"
    using go(1,3,4) assms(4) by (auto simp: goes_def touches_def)
  have "object sh' r = object sh r" if "map_of (st_entries (sh_sessions sh)) sid = Some (u, r)" for u r
  proof -
    have r: "r < length (sh_heap sh)" "ss_session_id (object sh r) = sid"
      using that assms(1) by (auto simp: shared_ok_def heap_ok_def dest!: map_of_SomeD)
    then have "r \<noteq> tk_session t'" using go(1,3,4) assms(4) by (auto simp: goes_def touches_def)
    then show ?thesis using go(3) r(1) by (simp add: goes_def touches_def)
  qed
  then show ?thesis unfolding entry_object same
    by (cases "map_of (st_entries (sh_sessions sh)) sid") auto
qed

text \<open>No call in flight is of the session \<open>sid\<close>.\<close>

definition elsewhere :: "string \<Rightarrow> task option list \<Rightarrow> bool" where
  "elsewhere sid slots \<longleftrightarrow> (\<forall>t. Some t \<in> set slots \<longrightarrow> q_session_id (tk_args t) \<noteq> sid)"

lemma elsewhere_step:
  assumes "loop_ok cfg n (slots, sh)" "elsewhere sid slots" "\<And>i a. ev = Call i a \<Longrightarrow> q_session_id a \<noteq> sid"
    and "loop_step cfg env v (slots, sh) ev = (slots', sh')"
  shows "elsewhere sid slots' \<and> entry (orch_of sh') sid = entry (orch_of sh) sid"
proof (cases ev)
  case (Call i a)
  then show ?thesis using assms(2-4) set_update_subset_insert [of slots i "Some (new_task a)"]
    by (auto simp: elsewhere_def new_task_def split: if_splits)
next
  case (Resume i)
  show ?thesis
  proof (cases "i < length slots \<and> slots ! i \<noteq> None")
    case True
    then obtain t where i: "i < length slots" "slots ! i = Some t" by auto
    have t: "Some t \<in> set slots" using i nth_mem by metis
    obtain t' sh1 where step: "task_step cfg env v t sh = (t', sh1)" by fastforce
    have out: "slots' = slots[i := Some t']" "sh' = sh1" using assms(4) Resume i step by simp_all
    have ok: "shared_ok sh" "task_ok sh t" using assms(1) t by (auto simp: loop_ok_def)
    have "q_session_id (tk_args t) \<noteq> sid" using assms(2) t by (simp add: elsewhere_def)
    then have "entry (orch_of sh') sid = entry (orch_of sh) sid" "q_session_id (tk_args t') \<noteq> sid"
      using entry_resumed [OF ok step] resumed_goes(1) [OF ok step] out(2) by simp_all
    then show ?thesis using assms(2) out(1) set_update_subset_insert [of slots i "Some t'"]
      by (auto simp: elsewhere_def)
  next
    case False
    then show ?thesis using assms(2,4) Resume by (auto split: if_splits)
  qed
qed

lemma elsewhere_run:
  "loop_ok cfg n p \<Longrightarrow> elsewhere sid (fst p) \<Longrightarrow> \<forall>i a. Call i a \<in> set events \<longrightarrow> q_session_id a \<noteq> sid \<Longrightarrow>
     entry (orch_of (snd (loop_run cfg env v p events))) sid = entry (orch_of (snd p)) sid"
proof (induction events arbitrary: p)
  case (Cons ev events)
  obtain slots sh slots' sh' where p: "p = (slots, sh)" "loop_step cfg env v p ev = (slots', sh')" by (metis surj_pair)
  have "elsewhere sid slots' \<and> entry (orch_of sh') sid = entry (orch_of sh) sid"
    using Cons.prems p by (intro elsewhere_step [of cfg n slots sh sid ev env v]) auto
  moreover have "loop_ok cfg n (slots', sh')" using loop_ok_step [OF Cons.prems(1), of env v ev] p(2) by simp
  ultimately show ?case using Cons.IH [of "(slots', sh')"] Cons.prems(3) p by (simp add: loop_run_def)
qed (simp add: loop_run_def)

subsection \<open>A call returns\<close>

text \<open>The phase of a call, and the items it has left to learn.\<close>

fun phase :: "task_at \<Rightarrow> nat" where
  "phase Entered = 10"
| "phase (Resolving _ _ _ (Clarify _)) = 9"
| "phase (Learning _ _ (Clarify _)) = 8"
| "phase (Formulating _ _ _ _ _) = 7"
| "phase (Eliciting _ _ _ _) = 6"
| "phase (Resolving _ _ _ (Dispatch _ _ _)) = 5"
| "phase (Learning _ _ (Dispatch _ _ _)) = 4"
| "phase (Querying _ _ _) = 3"
| "phase (Injecting _ _ _ _) = 2"
| "phase (Delivering _ _ _) = 1"
| "phase (Finished _) = 0"

fun items_left :: "task_at \<Rightarrow> nat" where
  "items_left (Learning _ items _) = length items"
| "items_left _ = 0"

fun todo_phase :: "then_do \<Rightarrow> nat" where
  "todo_phase (Clarify _) = 8"
| "todo_phase (Dispatch _ _ _) = 4"

lemma phase_report: "phase (fst (report_part cfg env query response sh)) \<le> 1"
  by (simp add: report_part_def)

lemma phase_dispatch: "phase (fst (dispatch_part env r query active errors sh)) \<le> 3"
  by (simp add: dispatch_part_def)

lemma phase_clarify: "phase (fst (clarify_part cfg env v r query sh)) \<le> 7"
  using phase_dispatch le_trans [OF phase_dispatch, of 7]
  by (auto simp: clarify_part_def Let_def split: prod.split sum.split)

lemma phase_after_learning: "phase (fst (after_learning cfg env v r todo sh)) < todo_phase todo"
  using le_less_trans [OF phase_clarify, of 8] le_less_trans [OF phase_dispatch, of 4]
  by (cases todo) (auto simp: after_learning_def split: sum.split)

lemma phase_elicited: "phase (fst (elicited_part env a r query active unresolved question answer sh)) \<le> 5"
  by (simp add: elicited_part_def split: sum.split)

lemma phase_formulated: "phase (fst (formulated_part env a r query active unresolved needed sh)) \<le> 6"
  using le_trans [OF phase_dispatch, of 6] le_trans [OF phase_elicited, of 6]
  by (auto simp: formulated_part_def Let_def split: sum.split)

lemma phase_queried: "phase (fst (queried_part cfg env a r query active errors answer sh)) \<le> 2"
  using le_trans [OF phase_report, of 2] by (auto simp: queried_part_def split: sum.split)

lemma phase_begin: "begin_part cfg env v a r sh = (r', at', sh') \<Longrightarrow> phase at' < 10"
  using le_less_trans [OF phase_clarify, of 10]
  by (fastforce simp: begin_part_def Let_def dest: arg_cong [of _ _ fst] split: if_splits prod.splits)

lemma progress_learn:
  "phase (fst (learn_part cfg env v r items todo sh)) < todo_phase todo \<or>
   phase (fst (learn_part cfg env v r items todo sh)) = todo_phase todo \<and>
     items_left (fst (learn_part cfg env v r items todo sh)) < length items"
proof (cases items)
  case Nil
  then show ?thesis using phase_after_learning by simp
next
  case (Cons item rest)
  then show ?thesis by (cases todo) (simp_all add: Let_def)
qed

text \<open>Each step of a call takes it to a later phase, or it has fewer items left to learn.\<close>

lemma step_progress:
  assumes "task_step cfg env v t sh = (t', sh')" "\<not> returned (Some t)"
  shows "((phase (tk_at t'), items_left (tk_at t')), (phase (tk_at t), items_left (tk_at t))) \<in> less_than <*lex*> less_than"
proof (cases "tk_at t")
  case Entered
  then show ?thesis using assms(1) phase_begin
    by (fastforce simp: task_step_def enter_part_def Let_def split: prod.splits option.splits)
next
  case (Resolving query terms answer todo)
  have "phase (tk_at t) = Suc (todo_phase todo)" using Resolving by (cases todo) simp_all
  then have "phase (tk_at t') < phase (tk_at t)"
  proof (cases "e_resolve env (sh_calls sh) query terms answer (entries_for v terms)")
    case (Inl e)
    then show ?thesis using Resolving assms(1) \<open>phase (tk_at t) = _\<close> by (auto simp: task_step_def Let_def)
  next
    case (Inr items)
    let ?next = "learn_part cfg env v (tk_session t) items todo (called (CResolve query terms answer) sh)"
    have "tk_at t' = fst ?next" using Resolving Inr assms(1) by (auto simp: task_step_def Let_def split: prod.splits)
    then show ?thesis
      using progress_learn [of cfg env v "tk_session t" items todo "called (CResolve query terms answer) sh"]
        \<open>phase (tk_at t) = _\<close> by auto
  qed
  then show ?thesis by simp
next
  case (Learning tm items todo)
  then have here: "phase (tk_at t) = todo_phase todo" "items_left (tk_at t) = length items" "0 < todo_phase todo"
    by (cases todo; simp)+
  let ?w = "conventions_persist (e_conv_enc env) (e_conv_io env (sh_calls sh)) (sh_convs sh)"
  let ?next = "learn_part cfg env v (tk_session t) items todo (called (CLearn tm) (sh\<lparr>sh_convs := snd ?w\<rparr>))"
  show ?thesis
  proof (cases "fst ?w")
    case (Inl e)
    then show ?thesis using Learning assms(1) here by (auto simp: task_step_def Let_def)
  next
    case (Inr u)
    then have "tk_at t' = fst ?next" using Learning assms(1) by (auto simp: task_step_def Let_def split: prod.splits)
    then show ?thesis
      using progress_learn [of cfg env v "tk_session t" items todo "called (CLearn tm) (sh\<lparr>sh_convs := snd ?w\<rparr>)"] here
      by auto
  qed
next
  case (Formulating query active unresolved convs fs)
  then show ?thesis using assms(1) le_less_trans [OF phase_formulated, of 7]
    by (fastforce simp: task_step_def Let_def split: prod.splits dest: arg_cong [of _ _ fst])
next
  case (Eliciting query active unresolved question)
  then show ?thesis using assms(1) le_less_trans [OF phase_elicited, of 6]
    by (fastforce simp: task_step_def Let_def split: prod.splits dest: arg_cong [of _ _ fst])
next
  case (Querying query active errors)
  then show ?thesis using assms(1) le_less_trans [OF phase_queried, of 3]
    by (fastforce simp: task_step_def Let_def split: prod.splits dest: arg_cong [of _ _ fst])
next
  case (Injecting query active errors result)
  then show ?thesis using assms(1) le_less_trans [OF phase_report, of 2]
    by (fastforce simp: task_step_def Let_def split: prod.splits dest: arg_cong [of _ _ fst])
next
  case (Delivering response report_id content)
  then show ?thesis using assms(1) by (auto simp: task_step_def)
next
  case (Finished res)
  then show ?thesis using assms(2) by simp
qed

text \<open>The tasks that a call goes through, one for each step of its own, with anything in between.\<close>

definition own_steps :: "settings \<Rightarrow> env \<Rightarrow> vocab \<Rightarrow> (nat \<Rightarrow> task) \<Rightarrow> bool" where
  "own_steps cfg env v f \<longleftrightarrow> (\<forall>i. \<exists>sh. fst (task_step cfg env v (f i) sh) = f (Suc i))"

abbreviation progress :: "task \<Rightarrow> nat \<times> nat" where
  "progress t \<equiv> (phase (tk_at t), items_left (tk_at t))"

lemma own_step:
  assumes "own_steps cfg env v f"
  shows "returned (Some (f i)) \<Longrightarrow> f (Suc i) = f i"
    "\<not> returned (Some (f i)) \<Longrightarrow> (progress (f (Suc i)), progress (f i)) \<in> less_than <*lex*> less_than"
proof -
  obtain sh where "fst (task_step cfg env v (f i) sh) = f (Suc i)" using assms unfolding own_steps_def by blast
  then have step: "task_step cfg env v (f i) sh = (f (Suc i), snd (task_step cfg env v (f i) sh))" by (metis prod.collapse)
  show "f (Suc i) = f i" if "returned (Some (f i))" using step that by (cases "tk_at (f i)") (auto simp: task_step_def)
  show "(progress (f (Suc i)), progress (f i)) \<in> less_than <*lex*> less_than" if "\<not> returned (Some (f i))"
    using step that by (rule step_progress)
qed

lemma own_steps_progress:
  assumes "own_steps cfg env v f" "i < j" "\<not> returned (Some (f j))"
  shows "(progress (f j), progress (f i)) \<in> less_than <*lex*> less_than"
  using assms(2,3)
proof (induction j)
  case (Suc j)
  then have "\<not> returned (Some (f j))" using own_step(1) [OF assms(1), of j] by auto
  then have "(progress (f (Suc j)), progress (f j)) \<in> less_than <*lex*> less_than" by (rule own_step(2) [OF assms(1)])
  moreover have "i = j \<or> (progress (f j), progress (f i)) \<in> less_than <*lex*> less_than"
    using Suc \<open>\<not> returned (Some (f j))\<close> by (cases "i = j") auto
  ultimately show ?case by auto
qed simp

text \<open>No place of a call but the learning of an answer is visited twice.\<close>

lemma visited_once:
  assumes "own_steps cfg env v f" "phase (tk_at (f i)) = phase (tk_at (f j))"
    and "items_left (tk_at (f i)) = items_left (tk_at (f j))" "phase (tk_at (f i)) \<noteq> 0"
  shows "i = j"
proof (rule ccontr)
  have running: "\<not> returned (Some (f i))" "\<not> returned (Some (f j))"
    using assms(2,4) by (cases "tk_at (f i)"; simp; fail | cases "tk_at (f j)"; simp; fail)+
  assume "i \<noteq> j"
  then consider "i < j" | "j < i" by linarith
  then show False
    using own_steps_progress [OF assms(1) _ running(2)] own_steps_progress [OF assms(1) _ running(1)] assms(2,3)
    by cases fastforce+
qed

subsection \<open>Properties\<close>

text \<open>C6: whatever calls overlap and however the event loop schedules them, with failures of every
  collaborator, each stored session is stored once and under its own id, has left IDLE, has a
  question with its query and its terms if it awaits an answer and none if it was dispatched, and
  has resolutions keyed by their own lower-case term. With at most \<open>n\<close> calls in flight the limit of
  the clarification rounds is exceeded by \<open>n - 1\<close> at most.\<close>

theorem overlapping_calls_keep_sessions:
  fixes cfg env v n ttl convs events
  defines "sh \<equiv> snd (loop_run cfg env v (fresh_loop n ttl convs) events)"
  shows "dict_ok (st_entries (o_sessions (orch_of sh))) \<and>
     (\<forall>sid t s. entry (orch_of sh) sid = Some (t, s) \<longrightarrow>
        ss_session_id s = sid \<and> ss_state s \<noteq> IDLE \<and> object_ok s \<and>
        ss_clarification_rounds s \<le> max 0 (s_max_rounds cfg) + int (n - 1))"
proof -
  have ok: "shared_ok sh" and bound: "rounds_at sh r \<le> max 0 (s_max_rounds cfg) + int (n - 1)" for r
    using loop_ok_run [OF loop_ok_fresh, of cfg n env v ttl convs events] unfolding sh_def
    by (auto simp: loop_ok_def split: prod.splits dest!: spec [of _ r])
  have "dict_ok (st_entries (o_sessions (orch_of sh)))"
    using ok by (simp add: shared_ok_def heap_ok_def orch_of_def ttl_map_def dict_ok_def comp_def case_prod_unfold)
  moreover have "ss_session_id s = sid \<and> ss_state s \<noteq> IDLE \<and> object_ok s \<and>
      ss_clarification_rounds s \<le> max 0 (s_max_rounds cfg) + int (n - 1)" if e: "entry (orch_of sh) sid = Some (t, s)" for sid t s
  proof -
    obtain r where r: "map_of (st_entries (sh_sessions sh)) sid = Some (t, r)" "s = object sh r"
      using e by (auto simp: entry_object)
    then have "r < length (sh_heap sh)" "ss_session_id s = sid" "ss_state s \<noteq> IDLE" "object_ok s"
      using ok by (auto simp: shared_ok_def heap_ok_def dest!: map_of_SomeD)
    then show ?thesis using bound [of r] r(2) by (simp add: rounds_at_def)
  qed
  ultimately show ?thesis by blast
qed

text \<open>Two calls of a session that was dispatched before ask at the same time: with a limit of one
  round the session has two.\<close>

definition sample_overlap :: "loop_event list" where
  "sample_overlap = [Call 0 (sample_query ''status'' None), Resume 0, Resume 0,
     Call 0 (sample_query ''open issues'' None), Call 1 (sample_query ''risk list'' None),
     Resume 0, Resume 1, Resume 0, Resume 1]"

theorem overlapping_calls_keep_sessions_witness:
  "\<exists>t s. entry (orch_of (snd (loop_run (sample_settings\<lparr>s_max_rounds := 1\<rparr>) (sample_env None []) sample_vocab
       (fresh_loop 2 60 (o_convs sample_start)) sample_overlap))) ''s'' = Some (t, s) \<and>
     object_ok s \<and> ss_clarification_rounds s \<le> 2 \<and> ss_clarification_rounds s = 2"
proof -
  have "map_option (\<lambda>(t, s). ss_clarification_rounds s) (entry (orch_of (snd (loop_run (sample_settings\<lparr>s_max_rounds := 1\<rparr>)
      (sample_env None []) sample_vocab (fresh_loop 2 60 (o_convs sample_start)) sample_overlap))) ''s'') = Some 2"
    by code_simp
  then show ?thesis
    using overlapping_calls_keep_sessions [of "sample_settings\<lparr>s_max_rounds := 1\<rparr>" "sample_env None []" sample_vocab 2 60
        "o_convs sample_start" sample_overlap]
    by (fastforce simp: sample_settings_def)
qed

text \<open>C8: calls of other sessions never disturb a session, however they overlap: from any reachable
  state of the server, as long as no call of the session is in flight or made, its stored value and
  its time to live stay as they are, whatever the calls of other sessions do and wherever they fail.\<close>

theorem overlap_leaves_other_sessions:
  fixes cfg env v n ttl convs before
  defines "p \<equiv> loop_run cfg env v (fresh_loop n ttl convs) before"
  assumes "elsewhere sid (fst p)" and "\<forall>i a. Call i a \<in> set events \<longrightarrow> q_session_id a \<noteq> sid"
  shows "entry (orch_of (snd (loop_run cfg env v p events))) sid = entry (orch_of (snd p)) sid"
  unfolding p_def using loop_ok_run [OF loop_ok_fresh] assms(2,3) [unfolded p_def] by (rule elsewhere_run)

theorem overlap_leaves_other_sessions_witness:
  "entry (orch_of (snd (loop_run sample_settings (sample_env None []) sample_vocab
       (fresh_loop 2 60 (o_convs sample_start)) (sample_overlap @ [Resume 0])))) ''t'' = None"
proof -
  have "\<forall>i a. Call i a \<in> set (sample_overlap @ [Resume 0]) \<longrightarrow> q_session_id a \<noteq> ''t''"
    by (auto simp: sample_overlap_def sample_query_def)
  then have "entry (orch_of (snd (loop_run sample_settings (sample_env None []) sample_vocab
      (loop_run sample_settings (sample_env None []) sample_vocab (fresh_loop 2 60 (o_convs sample_start)) [])
      (sample_overlap @ [Resume 0])))) ''t'' =
    entry (orch_of (snd (loop_run sample_settings (sample_env None []) sample_vocab (fresh_loop 2 60 (o_convs sample_start)) []))) ''t''"
    by (intro overlap_leaves_other_sessions) (simp_all add: elsewhere_def loop_run_def fresh_loop_def)
  then show ?thesis by (simp add: loop_run_def fresh_loop_def entry_object ttl_new_def)
qed

text \<open>C9: no call can be kept from returning: whatever the other calls do to the shared state between
  its steps, a call returns a response or raises after finitely many steps of its own, and on the
  way it formulates one question at most and sends one query to the backend at most.\<close>

theorem overlapped_call_returns:
  assumes "own_steps cfg env v f"
  shows "(\<exists>n res. tk_at (f n) = Finished res) \<and>
     (\<forall>i j query active un convs fs query' active' un' convs' fs'.
        tk_at (f i) = Formulating query active un convs fs \<longrightarrow> tk_at (f j) = Formulating query' active' un' convs' fs' \<longrightarrow> i = j) \<and>
     (\<forall>i j query active errors query' active' errors'.
        tk_at (f i) = Querying query active errors \<longrightarrow> tk_at (f j) = Querying query' active' errors' \<longrightarrow> i = j)"
proof (intro conjI allI impI)
  show "\<exists>n res. tk_at (f n) = Finished res"
  proof (rule ccontr)
    assume "\<nexists>n res. tk_at (f n) = Finished res"
    then have running: "\<not> returned (Some (f i))" for i by (cases "tk_at (f i)") auto
    then have "\<exists>g. \<forall>i. (g (Suc i), g i) \<in> less_than <*lex*> less_than"
      using own_step(2) [OF assms] by (intro exI [of _ "\<lambda>i. progress (f i)"]) blast
    moreover have "wf (less_than <*lex*> less_than)" by (intro wf_lex_prod wf_less_than)
    ultimately show False unfolding wf_iff_no_infinite_down_chain by blast
  qed
qed (rule visited_once [OF assms]; simp)+

theorem overlapped_call_returns_witness:
  "\<exists>n res. tk_at (fst (((\<lambda>(t, sh). task_step sample_settings (sample_env None []) sample_vocab t sh) ^^ n)
     (new_task (sample_query ''open issues'' None), snd (fresh_loop 1 60 (o_convs sample_start))))) = Finished res"
proof -
  let ?F = "\<lambda>(t, sh). task_step sample_settings (sample_env None []) sample_vocab t sh"
  let ?x = "\<lambda>i. (?F ^^ i) (new_task (sample_query ''open issues'' None), snd (fresh_loop 1 60 (o_convs sample_start)))"
  have "fst (task_step sample_settings (sample_env None []) sample_vocab (fst (?x i)) (snd (?x i))) = fst (?x (Suc i))" for i
    by (simp add: case_prod_unfold)
  then have "own_steps sample_settings (sample_env None []) sample_vocab (\<lambda>i. fst (?x i))"
    unfolding own_steps_def by blast
  then show ?thesis using overlapped_call_returns by blast
qed

text \<open>
  Two overlapping questions of one session: both calls return their question, but only the later
  one is stored. The answer to the first question is then taken for the second: it resolves the
  second question's term, and the second query is sent in place of the first.
\<close>

definition two_questions :: "loop_event list" where
  "two_questions = [Call 0 (sample_query ''open issues'' None), Call 1 (sample_query ''risk list'' None),
     Resume 0, Resume 1, Resume 0, Resume 1]"

definition answer_to_first :: "loop_event list" where
  "answer_to_first = [Call 0 (sample_query ''open issues'' (Some ''status is open'')), Resume 0, Resume 0, Resume 0, Resume 0]"

theorem overlapped_question_is_overwritten:
  "let run = loop_run sample_settings (sample_env None [''risk'']) sample_vocab;
       asked = run (fresh_loop 2 60 (o_convs sample_start)) two_questions;
       answered = run asked answer_to_first
   in map (map_option tk_at) (fst asked) = replicate 2 (Some (Finished (Inr (question_response ''s'' ''Which one?'')))) \<and>
      queries_of (sh_calls (snd answered)) = [(''risk list (interpretation hints: risk -> labels = x)'', None)]"
  by code_simp

end
