(* ===== verification/Confluence_Caches.thy ===== *)
theory Confluence_Caches
  imports Server
begin

text \<open>
  The page cache of the Confluence client and the result cache of the context extractor, threaded
  through any sequence of calls: while Confluence does not change, what a call returns does not
  depend on what the calls before it left in the caches, nor on what has expired or was evicted.
\<close>

subsection \<open>Caches that only save work\<close>

fun threaded :: "('e \<Rightarrow> 's \<Rightarrow> 'r list \<times> 's) \<Rightarrow> 'e list \<Rightarrow> 's \<Rightarrow> 'r list \<times> 's" where
  "threaded step [] s = ([], s)"
| "threaded step (e # es) s =
     (case step e s of (rs, s') \<Rightarrow> (case threaded step es s' of (rs', s'') \<Rightarrow> (rs @ rs', s'')))"

text \<open>
  A step over a state with caches, and what it would return without them: as long as the state is
  good and the event legal the two agree, and the state stays good.
\<close>

locale transparent_cache =
  fixes step :: "'e \<Rightarrow> 's \<Rightarrow> 'r list \<times> 's"
    and uncached :: "'e \<Rightarrow> 'r list"
    and good :: "'s \<Rightarrow> bool"
    and legal :: "'e \<Rightarrow> bool"
  assumes answers: "good s \<Longrightarrow> legal e \<Longrightarrow> fst (step e s) = uncached e"
    and stays_good: "good s \<Longrightarrow> legal e \<Longrightarrow> good (snd (step e s))"
begin

lemma threaded_answers:
  "good s \<Longrightarrow> list_all legal es \<Longrightarrow> fst (threaded step es s) = concat (map uncached es) \<and> good (snd (threaded step es s))"
proof (induction es arbitrary: s)
  case (Cons e es)
  obtain rs s' where step: "step e s = (rs, s')" by fastforce
  have "rs = uncached e" "good s'"
    using answers [of s e] stays_good [of s e] Cons.prems step by simp_all
  then show ?case using Cons.IH [of s'] Cons.prems step by (auto split: prod.split)
qed simp

lemma order_does_not_matter:
  assumes "good s" "good s'" "list_all legal es"
  shows "fst (threaded step es s) = fst (threaded step es s')"
  using threaded_answers [OF assms(1,3)] threaded_answers [OF assms(2,3)] by simp

end

subsection \<open>The two caches\<close>

type_synonym caches = "(string \<times> string) list \<times> xcache"

datatype cache_event =
    Extract_page ConfluencePage bool
  | Fetch_pinned string string
  | Evict_page string
  | Evict_extraction "string \<times> string"

definition with_caches :: "confluence_outside \<Rightarrow> caches \<Rightarrow> confluence_outside" where
  "with_caches out c = out\<lparr>co_page_cache := fst c, co_extraction_cache := snd c\<rparr>"

text \<open>The sections and the extraction of one page, as the research and the search ask for them.\<close>

definition cached_extraction :: "Settings \<Rightarrow> confluence_outside \<Rightarrow> ConfluencePage \<Rightarrow> bool \<Rightarrow> caches \<Rightarrow>
    (exn + ContextExtractionOutput) \<times> caches" where
  "cached_extraction s out page force c =
     (let pid = cp_page_id page
      in case get_page_sections (co_repr out) (co_data out) (co_page out pid) pid TARGET_HEADINGS force
                (confluence_client s (with_caches out c)) of
           (Inl e, cl) \<Rightarrow> (Inl e, (cc_page_cache cl, snd c))
         | (Inr sections, cl) \<Rightarrow>
             (case extract_context (co_extraction_agent out) page sections force (snd c) of
                (r, xc) \<Rightarrow> (r, (cc_page_cache cl, xc))))"

fun cache_step :: "Settings \<Rightarrow> confluence_outside \<Rightarrow> cache_event \<Rightarrow> caches \<Rightarrow>
    (exn + ContextExtractionOutput) list \<times> caches" where
  "cache_step s out (Extract_page page force) c =
     (case cached_extraction s out page force c of (r, c') \<Rightarrow> ([r], c'))"
| "cache_step s out (Fetch_pinned url pid) c =
     ([], (cc_page_cache (snd (fetch_page_metadata (co_repr out) (co_page_metadata out pid) pid url
              (confluence_client s (with_caches out c)))), snd c))"
| "cache_step s out (Evict_page pid) (pc, xc) = ([], (AList.delete pid pc, xc))"
| "cache_step s out (Evict_extraction key) (pc, xc) = ([], (pc, AList.delete key xc))"

fun uncached_event :: "Settings \<Rightarrow> confluence_outside \<Rightarrow> cache_event \<Rightarrow> (exn + ContextExtractionOutput) list" where
  "uncached_event s out (Extract_page page force) = [page_extraction (build_research s (with_caches out ([], []))) force page]"
| "uncached_event s out _ = []"

subsection \<open>An unchanging Confluence\<close>

definition html_of :: "confluence_outside \<Rightarrow> string \<Rightarrow> exn + string" where
  "html_of out pid = fetch_page_html (co_repr out) 3 (co_page out pid)"

definition sections_of :: "Settings \<Rightarrow> confluence_outside \<Rightarrow> string \<Rightarrow> (string \<times> string) list" where
  "sections_of s out html = extract_sections (co_data out) html TARGET_HEADINGS (cn_content_max_chars (st_confluence s))"

text \<open>
  The two requests for a page return the same body, and two of the pages with the same id and time
  of change have the same title and space: Confluence does not change between the calls.
\<close>

definition unchanging :: "confluence_outside \<Rightarrow> ConfluencePage set \<Rightarrow> bool" where
  "unchanging out pages \<longleftrightarrow>
     (\<forall>pid raw body. conf_retry (co_page_metadata out pid) 3 1 = Inr raw \<and> page_body raw = Inr body \<longrightarrow>
        html_of out pid = Inr (json_str (co_repr out) body)) \<and>
     (\<forall>p \<in> pages. \<forall>q \<in> pages. cp_page_id p = cp_page_id q \<and> cp_last_modified p = cp_last_modified q \<longrightarrow>
        cp_title p = cp_title q \<and> cp_space_key p = cp_space_key q)"

definition pages_good :: "confluence_outside \<Rightarrow> (string \<times> string) list \<Rightarrow> bool" where
  "pages_good out pc \<longleftrightarrow> (\<forall>pid html. map_of pc pid = Some html \<longrightarrow> html_of out pid = Inr html)"

definition extractions_good :: "Settings \<Rightarrow> confluence_outside \<Rightarrow> ConfluencePage set \<Rightarrow> xcache \<Rightarrow> bool" where
  "extractions_good s out pages xc \<longleftrightarrow>
     (\<forall>p \<in> pages. \<forall>x. map_of xc (cp_page_id p, cp_last_modified p) = Some x \<longrightarrow>
        (\<exists>html. html_of out (cp_page_id p) = Inr html \<and>
           co_extraction_agent out (build_extraction_prompt p (sections_of s out html)) = Inr x))"

definition caches_good :: "Settings \<Rightarrow> confluence_outside \<Rightarrow> ConfluencePage set \<Rightarrow> caches \<Rightarrow> bool" where
  "caches_good s out pages c \<longleftrightarrow>
     unchanging out pages \<and> pages_good out (fst c) \<and> extractions_good s out pages (snd c)"

fun legal_event :: "ConfluencePage set \<Rightarrow> cache_event \<Rightarrow> bool" where
  "legal_event pages (Extract_page p force) = (p \<in> pages)"
| "legal_event pages _ = True"

lemma pages_good_update: "pages_good out pc \<Longrightarrow> html_of out pid = Inr html \<Longrightarrow> pages_good out (AList.update pid html pc)"
  by (simp add: pages_good_def update_conv')

lemma pages_good_delete: "pages_good out pc \<Longrightarrow> pages_good out (AList.delete pid pc)"
  by (simp add: pages_good_def delete_conv')

lemma extractions_good_delete: "extractions_good s out pages xc \<Longrightarrow> extractions_good s out pages (AList.delete k xc)"
  by (simp add: extractions_good_def delete_conv')

lemma same_prompt:
  assumes "unchanging out pages" "p \<in> pages" "q \<in> pages"
    and "cp_page_id p = cp_page_id q" "cp_last_modified p = cp_last_modified q"
  shows "build_extraction_prompt p s = build_extraction_prompt q s"
proof -
  have "cp_title p = cp_title q" "cp_space_key p = cp_space_key q"
    using assms unfolding unchanging_def by blast+
  then show ?thesis using assms(5) by (simp add: build_extraction_prompt_def extraction_lines_def)
qed

lemma sections_step:
  assumes "pages_good out (fst c)"
  shows "\<exists>pc. get_page_sections (co_repr out) (co_data out) (co_page out pid) pid TARGET_HEADINGS force
        (confluence_client s (with_caches out c)) =
      (case html_of out pid of Inl e \<Rightarrow> Inl e | Inr html \<Rightarrow> Inr (sections_of s out html),
       (confluence_client s out)\<lparr>cc_page_cache := pc\<rparr>) \<and> pages_good out pc"
proof -
  have client: "cc_page_cache (confluence_client s (with_caches out c)) = fst c"
    "cc_max_retries (confluence_client s (with_caches out c)) = 3"
    "cc_content_max_chars (confluence_client s (with_caches out c)) = cn_content_max_chars (st_confluence s)"
    "confluence_client s (with_caches out c) = (confluence_client s out)\<lparr>cc_page_cache := fst c\<rparr>"
    by (simp_all add: confluence_client_def with_caches_def)
  note get = get_page_sections_def [of _ _ _ _ _ _ "confluence_client s (with_caches out c)", unfolded client(1-3)]
  show ?thesis
  proof (cases "if force then None else map_of (fst c) pid")
    case (Some html)
    then have "html_of out pid = Inr html" using assms by (auto simp: pages_good_def split: if_splits)
    then show ?thesis unfolding get Some using assms client(4) by (intro exI [of _ "fst c"]) (simp add: sections_of_def html_of_def)
  next
    case None
    show ?thesis
    proof (cases "html_of out pid")
      case (Inl e)
      then show ?thesis unfolding get None using assms client(4) by (intro exI [of _ "fst c"]) (simp add: sections_of_def html_of_def)
    next
      case (Inr html)
      then show ?thesis unfolding get None using pages_good_update [OF assms Inr] client(4)
        by (intro exI [of _ "AList.update pid html (fst c)"]) (simp add: sections_of_def html_of_def)
    qed
  qed
qed

lemma uncached_extraction:
  "page_extraction (build_research s (with_caches out ([], []))) force p =
     (case html_of out (cp_page_id p) of Inl e \<Rightarrow> Inl e
      | Inr html \<Rightarrow> fst (extract_context (co_extraction_agent out) p (sections_of s out html) force []))"
proof -
  obtain pc where "get_page_sections (co_repr out) (co_data out) (co_page out (cp_page_id p)) (cp_page_id p) TARGET_HEADINGS force
        (confluence_client s (with_caches out ([], []))) =
      (case html_of out (cp_page_id p) of Inl e \<Rightarrow> Inl e | Inr html \<Rightarrow> Inr (sections_of s out html),
       (confluence_client s out)\<lparr>cc_page_cache := pc\<rparr>)"
    using sections_step [of out "([], [])" "cp_page_id p" force s] by (auto simp: pages_good_def)
  moreover have "co_repr (with_caches out c) = co_repr out" "co_data (with_caches out c) = co_data out"
    "co_page (with_caches out c) = co_page out" "co_extraction_agent (with_caches out c) = co_extraction_agent out"
    "co_extraction_cache (with_caches out c) = snd c" for c
    by (simp_all add: with_caches_def)
  ultimately show ?thesis
    by (simp add: page_extraction_def build_research_def Let_def split: sum.split)
qed

lemma extraction_step:
  assumes good: "unchanging out pages" "extractions_good s out pages xc" and p: "p \<in> pages"
    and html: "html_of out (cp_page_id p) = Inr html"
    and step: "extract_context (co_extraction_agent out) p (sections_of s out html) force xc = (r, xc')"
  shows "r = fst (extract_context (co_extraction_agent out) p (sections_of s out html) force []) \<and>
     extractions_good s out pages xc'"
proof (cases "if force then None else map_of xc (cp_page_id p, cp_last_modified p)")
  case (Some x)
  then have "map_of xc (cp_page_id p, cp_last_modified p) = Some x" by (simp split: if_splits)
  then have "co_extraction_agent out (build_extraction_prompt p (sections_of s out html)) = Inr x"
    using good(2) p html by (auto simp: extractions_good_def)
  moreover have "r = Inr x" "xc' = xc" using step unfolding extract_context_def Let_def Some by auto
  ultimately show ?thesis using good(2) by (simp add: extract_context_def Let_def)
next
  case None
  let ?ask = "co_extraction_agent out (build_extraction_prompt p (sections_of s out html))"
  have same: "r = fst (extract_context (co_extraction_agent out) p (sections_of s out html) force [])"
    using step unfolding extract_context_def Let_def None by (auto split: sum.splits)
  show ?thesis
  proof (cases ?ask)
    case (Inl e)
    then have "xc' = xc" using step unfolding extract_context_def Let_def None by simp
    then show ?thesis using same good(2) by simp
  next
    case (Inr x)
    then have xc': "xc' = AList.update (cp_page_id p, cp_last_modified p) x xc"
      using step unfolding extract_context_def Let_def None by simp
    have "co_extraction_agent out (build_extraction_prompt q (sections_of s out html)) = Inr x"
      if "q \<in> pages" "cp_page_id q = cp_page_id p" "cp_last_modified q = cp_last_modified p" for q
      using Inr same_prompt [OF good(1) that(1) p that(2,3)] by simp
    then have "extractions_good s out pages xc'"
      using good(2) html by (auto simp: xc' extractions_good_def update_conv')
    then show ?thesis using same by simp
  qed
qed

lemma cached_extraction_step:
  assumes good: "caches_good s out pages c" and p: "p \<in> pages"
    and step: "cached_extraction s out p force c = (r, c')"
  shows "r = page_extraction (build_research s (with_caches out ([], []))) force p \<and> caches_good s out pages c'"
proof -
  have g: "unchanging out pages" "pages_good out (fst c)" "extractions_good s out pages (snd c)"
    using good by (simp_all add: caches_good_def)
  obtain pc where pc: "get_page_sections (co_repr out) (co_data out) (co_page out (cp_page_id p)) (cp_page_id p)
        TARGET_HEADINGS force (confluence_client s (with_caches out c)) =
      (case html_of out (cp_page_id p) of Inl e \<Rightarrow> Inl e | Inr html \<Rightarrow> Inr (sections_of s out html),
       (confluence_client s out)\<lparr>cc_page_cache := pc\<rparr>)" "pages_good out pc"
    using sections_step [OF g(2), of "cp_page_id p" force s] by blast
  show ?thesis
  proof (cases "html_of out (cp_page_id p)")
    case (Inl e)
    then have "r = Inl e \<and> c' = (pc, snd c)" using step pc(1) by (auto simp: cached_extraction_def Let_def)
    then show ?thesis using Inl g pc(2) by (simp add: uncached_extraction caches_good_def)
  next
    case (Inr html)
    obtain r1 xc where x: "extract_context (co_extraction_agent out) p (sections_of s out html) force (snd c) = (r1, xc)"
      by fastforce
    then have "r = r1 \<and> c' = (pc, xc)" using step pc(1) Inr by (auto simp: cached_extraction_def Let_def)
    then show ?thesis using extraction_step [OF g(1,3) p Inr x] Inr g(1) pc(2)
      by (simp add: uncached_extraction caches_good_def)
  qed
qed

lemma pinned_step:
  assumes "unchanging out pages" "pages_good out (fst c)"
  shows "pages_good out (cc_page_cache (snd (fetch_page_metadata (co_repr out) (co_page_metadata out pid) pid url
     (confluence_client s (with_caches out c)))))"
proof -
  have client: "cc_page_cache (confluence_client s (with_caches out c)) = fst c"
    "cc_max_retries (confluence_client s (with_caches out c)) = 3"
    by (simp_all add: confluence_client_def with_caches_def)
  have "html_of out pid = Inr (json_str (co_repr out) body)"
    if "conf_retry (co_page_metadata out pid) 3 1 = Inr raw" "page_body raw = Inr body" for raw body
    using assms(1) that unfolding unchanging_def by blast
  then show ?thesis using assms(2)
    by (auto simp: fetch_page_metadata_def client pages_good_update split: sum.split)
qed

interpretation confluence_caches:
  transparent_cache "cache_step s out" "uncached_event s out" "caches_good s out pages" "legal_event pages"
  for s out pages
proof
  fix c e
  assume good: "caches_good s out pages c" and legal: "legal_event pages e"
  have "fst (cache_step s out e c) = uncached_event s out e \<and> caches_good s out pages (snd (cache_step s out e c))"
  proof (cases e)
    case (Extract_page p force)
    then show ?thesis using good legal cached_extraction_step [of s out pages c p force]
      by (auto split: prod.split)
  next
    case (Fetch_pinned url pid)
    then show ?thesis using good pinned_step [of out pages c pid url s] by (auto simp: caches_good_def)
  next
    case (Evict_page pid)
    then show ?thesis using good by (cases c) (auto simp: caches_good_def pages_good_delete)
  next
    case (Evict_extraction k)
    then show ?thesis using good by (cases c) (auto simp: caches_good_def extractions_good_delete)
  qed
  then show "fst (cache_step s out e c) = uncached_event s out e" "caches_good s out pages (snd (cache_step s out e c))"
    by simp_all
qed

lemma research_with_caches:
  "page_extraction (build_research s (with_caches out c)) force p = fst (cached_extraction s out p force c)"
proof -
  have parts: "co_repr (with_caches out c) = co_repr out" "co_data (with_caches out c) = co_data out"
    "co_page (with_caches out c) = co_page out" "co_extraction_agent (with_caches out c) = co_extraction_agent out"
    "co_extraction_cache (with_caches out c) = snd c"
    by (simp_all add: with_caches_def)
  show ?thesis
    by (simp add: page_extraction_def build_research_def cached_extraction_def Let_def parts split: prod.split sum.split)
qed


definition one_page :: ConfluencePage where
  "one_page = \<lparr>cp_page_id = ''7'', cp_title = ''Risks'', cp_space_key = ''OPS'', cp_url = ''u'', cp_last_modified = ''2026'',
     cp_cql_excerpt = []\<rparr>"

definition one_extraction :: ContextExtractionOutput where
  "one_extraction = \<lparr>ce_jira_keys_mentioned = [''A-1''], ce_mitigation_owners = [], ce_severity_signals = [], ce_action_items = []\<rparr>"

text \<open>A Confluence with one page, whose body is empty.\<close>

definition small_confluence :: confluence_outside where
  "small_confluence = \<lparr>co_intent_agent = (\<lambda>_. Inl (AgentRunError ''down'')), co_extraction_agent = (\<lambda>_. Inr one_extraction),
     co_cql = (\<lambda>_ _ _. Inr (JObj [])), co_page = (\<lambda>_ _. Inr (JObj [])), co_page_metadata = (\<lambda>_ _. Inr (JObj [])),
     co_repr = (\<lambda>_. []), co_data = (\<lambda>t. [t]), co_str_repr = (\<lambda>t. t), co_unquote = (\<lambda>t. t), co_bracket_ok = (\<lambda>_. True),
     co_page_cache = [], co_extraction_cache = []\<rparr>"

lemma small_html: "html_of small_confluence pid = Inr []"
  by (simp add: html_of_def small_confluence_def fetch_page_html_def conf_retry_step page_body_def)


end
