(* ===== verification/Conventions_Race.thy ===== *)
theory Conventions_Race
  imports Conventions_Store
begin

text \<open>
  \<open>_persist\<close> of \<open>memory/conventions_store.py\<close> operation by operation. \<open>set\<close> and \<open>delete\<close> run it in
  a thread, and nothing keeps two threads apart, so that several may be under way at once. The
  directory maps the two names to files; a file keeps its content while a name is moved away from
  it, and a thread writes to the file that it opened.
\<close>

subsection \<open>Files and writers\<close>

record files =
  fs_path :: "nat option"
  fs_tmp :: "nat option"
  fs_content :: "nat \<Rightarrow> string"
  fs_next :: nat

text \<open>Where a thread is in \<open>_persist\<close>: it has made the directory and the payload, it has the
  temporary file open (and emptied) and \<open>rest\<close> still to write at a position, it has closed it, or
  it has ended.\<close>

datatype writer =
    Starting
  | Dumped string
  | Writing nat nat string
  | Closed
  | Ended "exn + unit"

text \<open>Writing at a position: what lies before it is kept, a gap is filled with zeros.\<close>

definition write_at :: "nat \<Rightarrow> string \<Rightarrow> string \<Rightarrow> string" where
  "write_at pos chunk old = take pos (old @ replicate (pos - length old) (CHR 0x00)) @ chunk @ drop (pos + length chunk) old"

text \<open>One operation of a thread, with the fault of that operation if any, for the conventions that
  are in memory; a buffer of \<open>n\<close> characters is written at once.\<close>

fun write_op :: "(Convention list \<Rightarrow> string) \<Rightarrow> (conv_key \<times> Convention) list \<Rightarrow> nat \<Rightarrow> string option \<Rightarrow>
    writer \<times> files \<Rightarrow> writer \<times> files" where
  "write_op enc items n (Some m) (Starting, fs) = (Ended (Inl (OSError m)), fs)"
| "write_op enc items n (Some m) (Dumped payload, fs) = (Ended (Inl (OSError m)), fs)"
| "write_op enc items n (Some m) (Writing i pos rest, fs) = (Ended (Inl (OSError m)), fs)"
| "write_op enc items n (Some m) (Closed, fs) = (Ended (Inl (OSError m)), fs)"
| "write_op enc items n None (Starting, fs) = (Dumped (enc (map snd items)), fs)"
| "write_op enc items n None (Dumped payload, fs) =
     (case fs_tmp fs of
        Some i \<Rightarrow> (Writing i 0 payload, fs\<lparr>fs_content := (fs_content fs)(i := [])\<rparr>)
      | None \<Rightarrow> (Writing (fs_next fs) 0 payload,
          fs\<lparr>fs_tmp := Some (fs_next fs), fs_content := (fs_content fs)(fs_next fs := []), fs_next := Suc (fs_next fs)\<rparr>))"
| "write_op enc items n None (Writing i pos rest, fs) =
     (if rest = [] then (Closed, fs)
      else (Writing i (pos + length (take (Suc n) rest)) (drop (Suc n) rest),
            fs\<lparr>fs_content := (fs_content fs)(i := write_at pos (take (Suc n) rest) (fs_content fs i))\<rparr>))"
| "write_op enc items n None (Closed, fs) =
     (case fs_tmp fs of
        Some i \<Rightarrow> (Ended (Inr ()), fs\<lparr>fs_path := Some i, fs_tmp := None\<rparr>)
      | None \<Rightarrow> (Ended (Inl (OSError ''No such file or directory'')), fs))"
| "write_op enc items n fault (Ended r, fs) = (Ended r, fs)"

text \<open>What a reader of the conventions file finds, now or after a crash.\<close>

definition file_text :: "files \<Rightarrow> string option" where
  "file_text fs = map_option (fs_content fs) (fs_path fs)"

subsection \<open>One writer at a time\<close>

text \<open>The two names never lead to one file, and new files are new.\<close>

definition files_ok :: "files \<Rightarrow> bool" where
  "files_ok fs \<longleftrightarrow> (\<forall>i. fs_path fs = Some i \<longrightarrow> i < fs_next fs \<and> fs_tmp fs \<noteq> Some i) \<and>
     (\<forall>i. fs_tmp fs = Some i \<longrightarrow> i < fs_next fs)"

text \<open>The operations of one thread, each with its buffer and its fault.\<close>

definition lone_writer :: "(Convention list \<Rightarrow> string) \<Rightarrow> (conv_key \<times> Convention) list \<Rightarrow> (nat \<times> string option) list \<Rightarrow>
    writer \<times> files \<Rightarrow> writer \<times> files" where
  "lone_writer enc items ops c = foldl (\<lambda>c (n, fault). write_op enc items n fault c) c ops"

text \<open>How far a lone writer has come: the old text is in the file, and what is written of the
  payload is in the temporary one, until both change places at once.\<close>

definition writing :: "string \<Rightarrow> string option \<Rightarrow> writer \<times> files \<Rightarrow> bool" where
  "writing payload old = (\<lambda>(w, fs). files_ok fs \<and>
     (case w of
        Starting \<Rightarrow> file_text fs = old
      | Dumped p \<Rightarrow> p = payload \<and> file_text fs = old
      | Writing i pos rest \<Rightarrow> file_text fs = old \<and> fs_tmp fs = Some i \<and> fs_content fs i @ rest = payload \<and>
          pos = length (fs_content fs i)
      | Closed \<Rightarrow> file_text fs = old \<and> (\<exists>i. fs_tmp fs = Some i \<and> fs_content fs i = payload)
      | Ended (Inl e) \<Rightarrow> file_text fs = old \<and> is_OSError e
      | Ended (Inr _) \<Rightarrow> file_text fs = Some payload \<and> fs_tmp fs = None))"

lemma write_at_end: "write_at (length old) chunk old = old @ chunk"
  by (simp add: write_at_def)

lemma file_text_other: "files_ok fs \<Longrightarrow> fs_tmp fs = Some i \<Longrightarrow> file_text (fs\<lparr>fs_content := (fs_content fs)(i := x)\<rparr>) = file_text fs"
  by (cases "fs_path fs") (auto simp: file_text_def files_ok_def)

lemma writing_step:
  assumes "writing (enc (map snd items)) old c"
  shows "writing (enc (map snd items)) old (write_op enc items n fault c)"
proof -
  obtain w fs where c: "c = (w, fs)" by (cases c)
  show ?thesis
  proof (cases fault)
    case (Some m)
    then show ?thesis using assms c by (cases w) (auto simp: writing_def)
  next
    case None
    show ?thesis
    proof (cases w)
      case (Dumped p)
      then show ?thesis using assms c None
        by (cases "fs_path fs") (auto simp: writing_def files_ok_def file_text_def split: option.split)
    next
      case (Writing i pos rest)
      have "files_ok fs" "fs_tmp fs = Some i" using assms c Writing by (auto simp: writing_def)
      moreover have "files_ok (fs\<lparr>fs_content := x\<rparr>) = files_ok fs" for x by (simp add: files_ok_def)
      ultimately show ?thesis using assms c None Writing
        by (auto simp: writing_def file_text_other write_at_end)
    next
      case Closed
      then show ?thesis using assms c None by (auto simp: writing_def files_ok_def file_text_def)
    qed (use assms c None in \<open>auto simp: writing_def\<close>)
  qed
qed

lemma writing_run:
  assumes "files_ok fs"
  shows "writing (enc (map snd items)) (file_text fs) (lone_writer enc items ops (Starting, fs))"
proof -
  have "writing (enc (map snd items)) (file_text fs) (lone_writer enc items ops c)"
    if "writing (enc (map snd items)) (file_text fs) c" for c
    using that unfolding lone_writer_def
    by (induction ops arbitrary: c) (auto simp: writing_step split: prod.splits)
  then show ?thesis using assms by (simp add: writing_def)
qed

text \<open>C31: at every moment of a write that no other write overlaps, crashed or failed at any of its
  operations, whatever the size of its buffers, the conventions file has the old text; it changes
  to the whole new text at once, when the write ends without error, and an error is an
  \<open>OSError\<close>.\<close>

theorem lone_writer_is_atomic:
  assumes "files_ok fs" and "lone_writer enc items ops (Starting, fs) = (w, fs')"
  shows "case w of
     Ended (Inr _) \<Rightarrow> file_text fs' = Some (enc (map snd items)) \<and> fs_tmp fs' = None
   | Ended (Inl e) \<Rightarrow> file_text fs' = file_text fs \<and> is_OSError e
   | _ \<Rightarrow> file_text fs' = file_text fs"
  using writing_run [OF assms(1), of enc items ops] assms(2) by (auto simp: writing_def split: writer.splits sum.splits)

text \<open>A write that fails in its second buffer.\<close>

definition empty_files :: files where
  "empty_files = \<lparr>fs_path = Some 0, fs_tmp = None, fs_content = (\<lambda>_. ''old''), fs_next = 1\<rparr>"

text \<open>An encoding that shows the hints: long and short.\<close>

definition hints_text :: "Convention list \<Rightarrow> string" where
  "hints_text cs = ''['' @ concat (map cv_jql_hint cs) @ '']''"

definition with_hint :: "string \<Rightarrow> (conv_key \<times> Convention) list" where
  "with_hint h = [(conv_key INSTANCE_DEFAULT_PROJECT ''risk'', sample_convention ''risk'' h)]"

theorem lone_writer_is_atomic_witness:
  "\<exists>fs. lone_writer hints_text (with_hint ''labels'') [(0, None), (0, None), (1, None), (1, Some ''disk full'')] (Starting, empty_files) =
     (Ended (Inl (OSError ''disk full'')), fs) \<and> file_text fs = Some ''old''"
proof -
  have ok: "files_ok empty_files" by (simp add: files_ok_def empty_files_def)
  have "fst (lone_writer hints_text (with_hint ''labels'') [(0, None), (0, None), (1, None), (1, Some ''disk full'')] (Starting, empty_files)) =
      Ended (Inl (OSError ''disk full''))" by code_simp
  then obtain fs where w: "lone_writer hints_text (with_hint ''labels'') [(0, None), (0, None), (1, None), (1, Some ''disk full'')]
      (Starting, empty_files) = (Ended (Inl (OSError ''disk full'')), fs)" by (cases "lone_writer hints_text (with_hint ''labels'')
      [(0, None), (0, None), (1, None), (1, Some ''disk full'')] (Starting, empty_files)") simp
  from lone_writer_is_atomic [OF ok w] have "file_text fs = file_text empty_files" by simp
  then show ?thesis using w by (simp add: file_text_def empty_files_def)
qed

text \<open>A complete write is the write of the store's model.\<close>

theorem lone_writer_persists:
  assumes "files_ok fs" "lone_writer enc (cs_items st) ops (Starting, fs) = (Ended (Inr ()), fs')"
  shows "file_text fs' = cs_file (snd (conventions_persist enc IO_ok st)) \<and> fst (conventions_persist enc IO_ok st) = Inr ()"
  using writing_run [OF assms(1), of "enc" "cs_items st" ops] assms(2) by (simp add: writing_def)

subsection \<open>Two writers at once\<close>

text \<open>A step of one of several threads: its number, its buffer and the conventions then in memory.\<close>

definition race :: "(Convention list \<Rightarrow> string) \<Rightarrow> (nat \<times> nat \<times> (conv_key \<times> Convention) list) list \<Rightarrow>
    writer list \<times> files \<Rightarrow> writer list \<times> files" where
  "race enc steps c = foldl (\<lambda>(ws, fs) (i, n, items).
     case write_op enc items n None (ws ! i, fs) of (w, fs') \<Rightarrow> (ws[i := w], fs')) c steps"

text \<open>The second thread opens the temporary file while the first writes it: the end of the longer
  text stays behind the shorter one, and the conventions file is left with neither. The thread
  that comes last finds no temporary file, and its \<open>FileNotFoundError\<close> leaves \<open>set\<close>.\<close>

theorem overlapping_writes_tear:
  "let long = with_hint ''labels = risk''; short = with_hint ''risk'';
       out = race hints_text
         [(0, 0, long), (0, 99, long), (1, 0, short), (1, 99, short), (0, 99, long), (1, 99, short),
          (0, 99, long), (1, 99, short), (0, 99, long), (1, 99, short)] ([Starting, Starting], empty_files)
   in file_text (snd out) = Some ''[risk]s = risk]'' \<and>
      fst out = [Ended (Inr ()), Ended (Inl (OSError ''No such file or directory''))]"
  by code_simp

end
