(* ===== verification/Spec2Isabelle.thy ===== *)
theory Spec2Isabelle
  imports Briefing_Pipeline Overlapping_Laws Confluence_Caches Conventions_Race
begin

text \<open>
  A model of AtlasMind-Netra-mcp, an MCP server that turns questions and meeting agendas into
  Jira queries and ranked, cited reports, translated from the Python sources (paths below are
  relative to \<open>src/\<close>), with the theorems that make it correct.

  \<^bold>\<open>The program.\<close> A host calls one of the tools of \<open>server.py\<close>. \<open>query_jira\<close> runs the
  clarification loop of \<open>core/orchestrator.py\<close>: ambiguous terms of a query are detected with a
  vocabulary, looked up among the learned conventions, asked about (in the same call by
  elicitation, or over a session in several calls), learned, and the enriched query is sent to the
  backend through an HTTP client with retries; the answer becomes a markdown report, a web page
  and, on request, an entry in the user's browser. \<open>generate_briefing\<close> lets an LLM split an agenda
  into topics, runs each through \<open>query_jira\<close> (stopping, and resuming in a later call, at a topic
  that needs an answer), fetches the issues, researches Confluence, analyses each issue with an
  LLM, ranks the analyses and writes the report. \<open>search_context\<close> searches Confluence alone,
  \<open>get_report\<close> reads a report back. The components share the session stores (in memory or in
  Valkey), the conventions file and the report folder.

  \<^bold>\<open>Theories and sources.\<close>
  \<^item> \<open>Netra_Prelude\<close>, \<open>Py_Str\<close>, \<open>Py_Regex\<close>, \<open>Py_Scan\<close>, \<open>Py_Date\<close>, \<open>Json\<close>: the Python the sources
    use: slices, dictionaries as association lists in insertion order, stable sorting, strings
    over 8-bit characters, regular expressions as a backtracking matcher, \<open>finditer\<close>, dates,
    decoded JSON. \<open>Netra_Errors\<close>: the exceptions (\<open>core/exceptions.py\<close> and those of libraries) and
    Python's raise-or-return as a sum. \<open>LLM_Boundary\<close>: the contract of an LLM call as a locale,
    interpreted by every component that makes one. \<open>Netra_Models\<close>: the data models of \<open>models/\<close>;
    \<open>Model_Json\<close>: their JSON forms, what pydantic dumps and validates field by field, with the
    round trips; \<open>Wire_Models\<close>: the validation of everything that is received or loaded (\<open>models/lite.py\<close>,
    \<open>models/frontend.py\<close>, \<open>models/jira.py\<close>, \<open>models/vocab.py\<close>, \<open>models/ranking.py\<close>, the conventions file)
    and how the HTTP clients use it.
  \<^item> \<open>Session_Store\<close> (\<open>memory/session_store.py\<close>): the clarification state machine and the store
    with a lifetime, with the locale of a session store that the memory stores interpret;
    \<open>Valkey_Stores\<close> (\<open>memory/valkey_stores.py\<close>); \<open>Conventions_Store\<close> (\<open>memory/conventions_store.py\<close>), with
    \<open>Conventions_Race\<close> for its file write operation by operation;
    \<open>Vocabulary\<close> (\<open>core/vocab_lookup.py\<close>, \<open>core/intent_classifier.py\<close>); \<open>Clarifier\<close>
    (\<open>core/clarifier.py\<close>); \<open>Fields_Loader\<close> (\<open>core/jira_fields_loader.py\<close>); \<open>Lite_Client\<close>
    (\<open>core/atlasmind_lite_client.py\<close>); \<open>Frontend_Bridge\<close> (\<open>core/frontend_bridge_client.py\<close>).
  \<^item> \<open>Report_Synthesiser\<close> (\<open>core/report_synthesiser.py\<close>), \<open>Report_Ids\<close> (ids and their filters),
    \<open>Report_Files\<close> (\<open>briefings/delivery.py\<close>, \<open>core/report_renderer.py\<close>, the report page).
  \<^item> \<open>Orchestrator\<close>, \<open>Orchestrator_Laws\<close> (\<open>core/orchestrator.py\<close>): \<open>handle_query\<close> over an oracle of
    collaborators that sees all calls made before. \<open>Overlapping_Calls\<close>, \<open>Overlapping_Laws\<close>: the
    same code between two awaits, as a step of a task over a heap of shared session objects, for
    calls that overlap.
  \<^item> \<open>Agenda\<close> (\<open>core/agenda_decomposer.py\<close>), \<open>Briefing\<close>, \<open>Briefing_Laws\<close>
    (\<open>core/briefing_orchestrator.py\<close>, \<open>memory/briefing_session_store.py\<close>), \<open>Issue_Analysis\<close>
    (\<open>core/issue_analyser.py\<close>), \<open>Ranking\<close> (\<open>core/ranking_engine.py\<close>).
  \<^item> \<open>Cql\<close>, \<open>Page_Text\<close>, \<open>Single_Flight\<close>, \<open>Confluence_Client\<close>, \<open>Confluence_Research\<close>,
    \<open>Research_Laws\<close>: the Confluence side (\<open>confluence/\<close>, \<open>core/query_intent_analyser.py\<close> and the
    research half of \<open>core/briefing_orchestrator.py\<close>). \<open>Single_Flight\<close> is the double-checked cache
    with a lock for each key that the page cache and the extraction cache share;
    \<open>Confluence_Caches\<close>: what the caches answer over any history of calls and evictions.
  \<^item> \<open>Netra_Settings\<close> (\<open>config/settings.py\<close>), \<open>LLM_Provider\<close> (\<open>core/llm_provider.py\<close>), \<open>LLM_Agents\<close>
    (the factories of the agents), \<open>Clients\<close> (\<open>memory/store_factory.py\<close>, the HTTP and Valkey clients),
    \<open>Server_Logging\<close> (\<open>configure_logging\<close>), \<open>Server\<close>, \<open>Server_Laws\<close> (\<open>server.py\<close>): startup, wiring, tools;
    \<open>Briefing_Pipeline\<close>: the briefing and search tools end to end, as they are wired.

  \<^bold>\<open>What the theorems show.\<close> A query call either asks one stored question or sends one query; a
  learned term is never asked about again; stored sessions stay well formed under any run, failures
  included; only the listed exceptions reach the host from the fully wired tools. Calls that overlap keep
  the sessions well formed too, leave other sessions alone and always return; a call that runs
  alone is the sequential model's. A briefing resumes
  where it stopped, has one section for each topic, accounts for what its cap dropped, and reads
  back; an analysis keeps the order of the keys and the facts of Jira under every interleaving and
  over every history of its cache, and returns exactly if it has a slot; the facts of a whole
  briefing are those of issues the backend returned. The Confluence references of a key are given exactly; a context search accounts
  for every page and URL; no page is computed twice at once, and the locks do not deadlock. Stores
  refine their specification, Valkey agrees with memory over the JSON that is really stored, one
  session never shows another's data, the conventions file is written atomically and survives a
  restart; retries, error translation and batching of the backend client are characterised, and answers with fields
  of a later version are read as before; the Confluence caches change no answer while the pages
  stay the same; a start fails in the listed ways only and builds what the settings say;
  detection, CQL texts, issue keys, tables, ids, settings and paths are shown to have the form
  their users rely on. Where the code does not do what it means to, a theorem exhibits it.

  \<^bold>\<open>Parameters.\<close> Code that is not in the repository is an argument: the LLM agents, one HTTP
  attempt, the Valkey and Atlassian clients, the text of JSON (\<open>json.dumps\<close> and \<open>json.loads\<close>), the
  numbers, truth values and times that pydantic coerces (\<open>coercions\<close>; the validation of the models
  themselves is modelled), the markdown library, \<open>html.parser\<close>, the disk, clocks and random ids.
  What a theorem relies on is a named predicate (\<open>agent_ok\<close>, \<open>post_ok\<close>, \<open>bridge_ok\<close>, \<open>reads_ok\<close>,
  \<open>documented\<close>, \<open>metadata_ok\<close>, \<open>coercions_ok\<close>, \<open>json_text_ok\<close>, \<open>side_files_ok\<close>, \<open>unchanging\<close>,
  \<open>outside_ok\<close>, \<open>briefing_outside_ok\<close>), and a witness shows that it can hold.

  \<^bold>\<open>Concurrency and termination.\<close> Tasks on the event loop run from one \<open>await\<close> to the next; a run is
  a list of steps, and the theorems hold for every list; where a wired call needs the end of a run,
  any list of steps is followed by as many rounds over the tasks as lemma \<open>settles\<close> shows to be
  enough. No definition uses fuel: the loops of the code are structural recursions, or terminate by
  a measure (the retry loops by the attempts left, scanning by the text left).

  \<^bold>\<open>Not modelled.\<close> The text of log lines and their processors, FastMCP registration and transport,
  the health route (a constant), reading the environment, waiting times between retries,
  characters beyond 8 bits, floating-point numbers in issue values, cancellation of tasks; the
  protocol classes, which declare signatures only. Overlapping calls are modelled over the
  in-memory session store and with the write of the conventions file as one action, which is what
  \<open>Conventions_Race\<close> shows of a write that no other overlaps (it also shows how two tear the file);
  that the dictionary changes while the thread of a write reads it is not modelled, nor are
  overlapping calls of \<open>generate_briefing\<close>. Within one briefing the page and extraction
  caches are those at its start: a page that two topics find is asked for twice in the wired model,
  and both requests get the same answer, as the theory \<open>Confluence_Caches\<close> justifies.
\<close>

end
